(* ===== verification/Prelude.thy ===== *)
theory Prelude
  imports Main "HOL-Library.Word"
begin

text \<open>
  Shared vocabulary of the Or1ksim development: the machine types of
  \<^verbatim>\<open>cpu/or1k/arch.h\<close> and \<^verbatim>\<open>port.h\<close> as words, the flag idioms
  \<^verbatim>\<open>reg |= MASK\<close>, \<^verbatim>\<open>reg &= ~MASK\<close> and
  \<^verbatim>\<open>reg & MASK\<close> with the lemmas that evaluate one after the other, the faults a C
  function can run into, and generic lemmas on lists used by several components.
\<close>

unbundle bit_operations_syntax

section \<open>Types\<close>

type_synonym u8 = "8 word"
type_synonym u16 = "16 word"
type_synonym u32 = "32 word"
type_synonym u64 = "64 word"

text \<open>
  What ends a C function without a result: a NULL dereference, a call of
  \<^verbatim>\<open>exit\<close> or \<^verbatim>\<open>sim_done\<close>, an operation the C standard leaves
  undefined (a shift by the width of its operand, an access outside an array), or a loop over a
  cyclic list, which does not end.
\<close>

datatype fault = Null_deref | Exit_called | Undefined_behaviour | Diverges

type_synonym 'a outcome = "fault + 'a"

definition bind_outcome :: "'a outcome \<Rightarrow> ('a \<Rightarrow> 'b outcome) \<Rightarrow> 'b outcome" where
  "bind_outcome r f = (case r of Inl e \<Rightarrow> Inl e | Inr a \<Rightarrow> f a)"

section \<open>Collections\<close>

named_theorems flag_simps "evaluation of flag tests after flag updates"

section \<open>Outcomes\<close>

lemma bind_outcome_simps [simp]:
  "bind_outcome (Inl e) f = Inl e"
  "bind_outcome (Inr a) f = f a"
  by (simp_all add: bind_outcome_def)

lemma bind_outcome_eq_Inr:
  "bind_outcome r f = Inr b \<longleftrightarrow> (\<exists>a. r = Inr a \<and> f a = Inr b)"
  by (cases r) simp_all

section \<open>Words as numbers\<close>

lemma unat_drop_bit: "unat (drop_bit n w) = unat (w :: 'a::len word) div 2 ^ n"
  by (metis drop_bit_eq_div take_bit_nat_eq_self unsigned_drop_bit_eq unsigned_less)

lemma and_1_zero: "w AND 1 = 0 \<longleftrightarrow> even (w :: 'a::len word)"
  by (simp add: and_one_eq even_iff_mod_2_eq_zero)

section \<open>Flags\<close>

lemma and_or_same [flag_simps]: "(w OR m) AND m = (m :: 'a::len word)"
  by (rule bit_word_eqI) (auto simp: bit_simps)

lemma and_clear_same [flag_simps]: "(w AND NOT m) AND m = (0 :: 'a::len word)"
  by (rule bit_word_eqI) (auto simp: bit_simps)

lemma and_or_other [flag_simps]:
  "m AND k = 0 \<Longrightarrow> (w OR m) AND k = (w AND k :: 'a::len word)"
  by (simp add: bit.conj_disj_distrib2)

lemma and_clear_other [flag_simps]:
  "m AND k = 0 \<Longrightarrow> (w AND NOT m) AND k = (w AND k :: 'a::len word)"
proof (rule bit_word_eqI)
  fix n assume "m AND k = 0" "n < LENGTH('a)"
  then have "\<not> (bit m n \<and> bit k n)" by (metis bit_0_eq bit_and_iff bot_apply bot_bool_def)
  then show "bit ((w AND NOT m) AND k) n = bit (w AND k) n"
    using \<open>n < LENGTH('a)\<close> by (auto simp: bit_simps)
qed

end
