(* ===== verification/Opcodes.thy ===== *)
theory Opcodes
  imports Prelude
begin

text \<open>
  The instruction table of \<^verbatim>\<open>cpu/or32/or32.c\<close>: the enumerations of
  \<^verbatim>\<open>cpu/or1k/opcode/or32.h\<close>, one record per entry of
  \<^verbatim>\<open>or1ksim_or32_opcodes\<close>, in the order of the source, and the letters with their
  signedness. The table is split into consecutive parts; \<open>HAVE_UNSIGNED_XORI\<close>, a
  configuration switch, is a parameter, and the entries of \<^verbatim>\<open>HAS_CUST\<close> are a
  part of their own. The execution routine of an entry is given by its name, as in the
  configuration \<^verbatim>\<open>COMPLEX_EXECUTION\<close> (\<^verbatim>\<open>EFI\<close> is
  \<^verbatim>\<open>l_invalid\<close>, \<^verbatim>\<open>EFN\<close> is \<^verbatim>\<open>l_none\<close>).
\<close>

section \<open>Entries\<close>

datatype insn_type =
  it_unknown | it_exception | it_arith | it_shift | it_compare | it_branch | it_jump
| it_load | it_store | it_movimm | it_move | it_extend | it_nop | it_mac | it_float


abbreviation (input) OR32_IF_DELAY :: u32 where "OR32_IF_DELAY \<equiv> 1"
abbreviation (input) OR32_W_FLAG :: u32 where "OR32_W_FLAG \<equiv> 2"
abbreviation (input) OR32_R_FLAG :: u32 where "OR32_R_FLAG \<equiv> 4"

record or32_opcode =
  name :: string
  args :: string
  encoding :: string
  function_name :: string
  flags :: u32
  func_unit :: insn_type

abbreviation or32_entry ::
  "string \<Rightarrow> string \<Rightarrow> string \<Rightarrow> string \<Rightarrow> u32 \<Rightarrow> insn_type \<Rightarrow> or32_opcode" where
  "or32_entry n a e f fl u \<equiv>
     \<lparr>name = n, args = a, encoding = e, function_name = f, flags = fl, func_unit = u\<rparr>"

text \<open>The letters of the operands; every other letter counts as unsigned.\<close>

definition or32_letters :: "(char \<times> bool) list" where
  "or32_letters =
     [(CHR ''A'', False), (CHR ''B'', False), (CHR ''D'', False), (CHR ''I'', True),
      (CHR ''K'', False), (CHR ''L'', False), (CHR ''N'', True), (CHR ''0'', False)]"

section \<open>The table\<close>

definition or32_opcodes_1 :: "or32_opcode list" where
  "or32_opcodes_1 = [
    or32_entry ''l.j'' ''N'' ''00 0x0  NNNNN NNNNN NNNN NNNN NNNN NNNN'' ''l_j'' OR32_IF_DELAY it_jump,
    or32_entry ''l.jal'' ''N'' ''00 0x1  NNNNN NNNNN NNNN NNNN NNNN NNNN'' ''l_jal'' OR32_IF_DELAY it_jump,
    or32_entry ''l.bnf'' ''N'' ''00 0x3  NNNNN NNNNN NNNN NNNN NNNN NNNN'' ''l_bnf'' (OR32_IF_DELAY OR OR32_R_FLAG) it_branch,
    or32_entry ''l.bf'' ''N'' ''00 0x4  NNNNN NNNNN NNNN NNNN NNNN NNNN'' ''l_bf'' (OR32_IF_DELAY OR OR32_R_FLAG) it_branch,
    or32_entry ''l.nop'' ''K'' ''00 0x5  01--- ----- KKKK KKKK KKKK KKKK'' ''l_nop'' 0 it_nop,
    or32_entry ''l.movhi'' ''rD,K'' ''00 0x6  DDDDD ----0 KKKK KKKK KKKK KKKK'' ''l_movhi'' 0 it_movimm,
    or32_entry ''l.macrc'' ''rD'' ''00 0x6  DDDDD ----1 0000 0000 0000 0000'' ''l_macrc'' 0 it_mac,
    or32_entry ''l.sys'' ''K'' ''00 0x8  00000 00000 KKKK KKKK KKKK KKKK'' ''l_sys'' 0 it_exception,
    or32_entry ''l.trap'' ''K'' ''00 0x8  01000 00000 KKKK KKKK KKKK KKKK'' ''l_trap'' 0 it_exception,
    or32_entry ''l.msync'' '''' ''00 0x8  10000 00000 0000 0000 0000 0000'' ''l_none'' 0 it_unknown,
    or32_entry ''l.psync'' '''' ''00 0x8  10100 00000 0000 0000 0000 0000'' ''l_none'' 0 it_unknown,
    or32_entry ''l.csync'' '''' ''00 0x8  11000 00000 0000 0000 0000 0000'' ''l_none'' 0 it_unknown,
    or32_entry ''l.rfe'' '''' ''00 0x9  ----- ----- ---- ---- ---- ----'' ''l_rfe'' 0 it_exception,
    or32_entry ''lv.all_eq.b'' ''rD,rA,rB'' ''00 0xA  DDDDD AAAAA BBBB B--- 0x1 0x0'' ''l_invalid'' 0 it_unknown,
    or32_entry ''lv.all_eq.h'' ''rD,rA,rB'' ''00 0xA  DDDDD AAAAA BBBB B--- 0x1 0x1'' ''l_invalid'' 0 it_unknown,
    or32_entry ''lv.all_ge.b'' ''rD,rA,rB'' ''00 0xA  DDDDD AAAAA BBBB B--- 0x1 0x2'' ''l_invalid'' 0 it_unknown,
    or32_entry ''lv.all_ge.h'' ''rD,rA,rB'' ''00 0xA  DDDDD AAAAA BBBB B--- 0x1 0x3'' ''l_invalid'' 0 it_unknown,
    or32_entry ''lv.all_gt.b'' ''rD,rA,rB'' ''00 0xA  DDDDD AAAAA BBBB B--- 0x1 0x4'' ''l_invalid'' 0 it_unknown,
    or32_entry ''lv.all_gt.h'' ''rD,rA,rB'' ''00 0xA  DDDDD AAAAA BBBB B--- 0x1 0x5'' ''l_invalid'' 0 it_unknown,
    or32_entry ''lv.all_le.b'' ''rD,rA,rB'' ''00 0xA  DDDDD AAAAA BBBB B--- 0x1 0x6'' ''l_invalid'' 0 it_unknown,
    or32_entry ''lv.all_le.h'' ''rD,rA,rB'' ''00 0xA  DDDDD AAAAA BBBB B--- 0x1 0x7'' ''l_invalid'' 0 it_unknown,
    or32_entry ''lv.all_lt.b'' ''rD,rA,rB'' ''00 0xA  DDDDD AAAAA BBBB B--- 0x1 0x8'' ''l_invalid'' 0 it_unknown,
    or32_entry ''lv.all_lt.h'' ''rD,rA,rB'' ''00 0xA  DDDDD AAAAA BBBB B--- 0x1 0x9'' ''l_invalid'' 0 it_unknown,
    or32_entry ''lv.all_ne.b'' ''rD,rA,rB'' ''00 0xA  DDDDD AAAAA BBBB B--- 0x1 0xA'' ''l_invalid'' 0 it_unknown,
    or32_entry ''lv.all_ne.h'' ''rD,rA,rB'' ''00 0xA  DDDDD AAAAA BBBB B--- 0x1 0xB'' ''l_invalid'' 0 it_unknown,
    or32_entry ''lv.any_eq.b'' ''rD,rA,rB'' ''00 0xA  DDDDD AAAAA BBBB B--- 0x2 0x0'' ''l_invalid'' 0 it_unknown,
    or32_entry ''lv.any_eq.h'' ''rD,rA,rB'' ''00 0xA  DDDDD AAAAA BBBB B--- 0x2 0x1'' ''l_invalid'' 0 it_unknown,
    or32_entry ''lv.any_ge.b'' ''rD,rA,rB'' ''00 0xA  DDDDD AAAAA BBBB B--- 0x2 0x2'' ''l_invalid'' 0 it_unknown,
    or32_entry ''lv.any_ge.h'' ''rD,rA,rB'' ''00 0xA  DDDDD AAAAA BBBB B--- 0x2 0x3'' ''l_invalid'' 0 it_unknown,
    or32_entry ''lv.any_gt.b'' ''rD,rA,rB'' ''00 0xA  DDDDD AAAAA BBBB B--- 0x2 0x4'' ''l_invalid'' 0 it_unknown,
    or32_entry ''lv.any_gt.h'' ''rD,rA,rB'' ''00 0xA  DDDDD AAAAA BBBB B--- 0x2 0x5'' ''l_invalid'' 0 it_unknown,
    or32_entry ''lv.any_le.b'' ''rD,rA,rB'' ''00 0xA  DDDDD AAAAA BBBB B--- 0x2 0x6'' ''l_invalid'' 0 it_unknown,
    or32_entry ''lv.any_le.h'' ''rD,rA,rB'' ''00 0xA  DDDDD AAAAA BBBB B--- 0x2 0x7'' ''l_invalid'' 0 it_unknown,
    or32_entry ''lv.any_lt.b'' ''rD,rA,rB'' ''00 0xA  DDDDD AAAAA BBBB B--- 0x2 0x8'' ''l_invalid'' 0 it_unknown,
    or32_entry ''lv.any_lt.h'' ''rD,rA,rB'' ''00 0xA  DDDDD AAAAA BBBB B--- 0x2 0x9'' ''l_invalid'' 0 it_unknown,
    or32_entry ''lv.any_ne.b'' ''rD,rA,rB'' ''00 0xA  DDDDD AAAAA BBBB B--- 0x2 0xA'' ''l_invalid'' 0 it_unknown,
    or32_entry ''lv.any_ne.h'' ''rD,rA,rB'' ''00 0xA  DDDDD AAAAA BBBB B--- 0x2 0xB'' ''l_invalid'' 0 it_unknown,
    or32_entry ''lv.add.b'' ''rD,rA,rB'' ''00 0xA  DDDDD AAAAA BBBB B--- 0x3 0x0'' ''l_invalid'' 0 it_unknown,
    or32_entry ''lv.add.h'' ''rD,rA,rB'' ''00 0xA  DDDDD AAAAA BBBB B--- 0x3 0x1'' ''l_invalid'' 0 it_unknown,
    or32_entry ''lv.adds.b'' ''rD,rA,rB'' ''00 0xA  DDDDD AAAAA BBBB B--- 0x3 0x2'' ''l_invalid'' 0 it_unknown,
    or32_entry ''lv.adds.h'' ''rD,rA,rB'' ''00 0xA  DDDDD AAAAA BBBB B--- 0x3 0x3'' ''l_invalid'' 0 it_unknown,
    or32_entry ''lv.addu.b'' ''rD,rA,rB'' ''00 0xA  DDDDD AAAAA BBBB B--- 0x3 0x4'' ''l_invalid'' 0 it_unknown,
    or32_entry ''lv.addu.h'' ''rD,rA,rB'' ''00 0xA  DDDDD AAAAA BBBB B--- 0x3 0x5'' ''l_invalid'' 0 it_unknown,
    or32_entry ''lv.addus.b'' ''rD,rA,rB'' ''00 0xA  DDDDD AAAAA BBBB B--- 0x3 0x6'' ''l_invalid'' 0 it_unknown,
    or32_entry ''lv.addus.h'' ''rD,rA,rB'' ''00 0xA  DDDDD AAAAA BBBB B--- 0x3 0x7'' ''l_invalid'' 0 it_unknown,
    or32_entry ''lv.and'' ''rD,rA,rB'' ''00 0xA  DDDDD AAAAA BBBB B--- 0x3 0x8'' ''l_invalid'' 0 it_unknown,
    or32_entry ''lv.avg.b'' ''rD,rA,rB'' ''00 0xA  DDDDD AAAAA BBBB B--- 0x3 0x9'' ''l_invalid'' 0 it_unknown,
    or32_entry ''lv.avg.h'' ''rD,rA,rB'' ''00 0xA  DDDDD AAAAA BBBB B--- 0x3 0xA'' ''l_invalid'' 0 it_unknown,
    or32_entry ''lv.cmp_eq.b'' ''rD,rA,rB'' ''00 0xA  DDDDD AAAAA BBBB B--- 0x4 0x0'' ''l_invalid'' 0 it_unknown,
    or32_entry ''lv.cmp_eq.h'' ''rD,rA,rB'' ''00 0xA  DDDDD AAAAA BBBB B--- 0x4 0x1'' ''l_invalid'' 0 it_unknown,
    or32_entry ''lv.cmp_ge.b'' ''rD,rA,rB'' ''00 0xA  DDDDD AAAAA BBBB B--- 0x4 0x2'' ''l_invalid'' 0 it_unknown,
    or32_entry ''lv.cmp_ge.h'' ''rD,rA,rB'' ''00 0xA  DDDDD AAAAA BBBB B--- 0x4 0x3'' ''l_invalid'' 0 it_unknown,
    or32_entry ''lv.cmp_gt.b'' ''rD,rA,rB'' ''00 0xA  DDDDD AAAAA BBBB B--- 0x4 0x4'' ''l_invalid'' 0 it_unknown,
    or32_entry ''lv.cmp_gt.h'' ''rD,rA,rB'' ''00 0xA  DDDDD AAAAA BBBB B--- 0x4 0x5'' ''l_invalid'' 0 it_unknown,
    or32_entry ''lv.cmp_le.b'' ''rD,rA,rB'' ''00 0xA  DDDDD AAAAA BBBB B--- 0x4 0x6'' ''l_invalid'' 0 it_unknown,
    or32_entry ''lv.cmp_le.h'' ''rD,rA,rB'' ''00 0xA  DDDDD AAAAA BBBB B--- 0x4 0x7'' ''l_invalid'' 0 it_unknown,
    or32_entry ''lv.cmp_lt.b'' ''rD,rA,rB'' ''00 0xA  DDDDD AAAAA BBBB B--- 0x4 0x8'' ''l_invalid'' 0 it_unknown,
    or32_entry ''lv.cmp_lt.h'' ''rD,rA,rB'' ''00 0xA  DDDDD AAAAA BBBB B--- 0x4 0x9'' ''l_invalid'' 0 it_unknown,
    or32_entry ''lv.cmp_ne.b'' ''rD,rA,rB'' ''00 0xA  DDDDD AAAAA BBBB B--- 0x4 0xA'' ''l_invalid'' 0 it_unknown,
    or32_entry ''lv.cmp_ne.h'' ''rD,rA,rB'' ''00 0xA  DDDDD AAAAA BBBB B--- 0x4 0xB'' ''l_invalid'' 0 it_unknown,
    or32_entry ''lv.madds.h'' ''rD,rA,rB'' ''00 0xA  DDDDD AAAAA BBBB B--- 0x5 0x4'' ''l_invalid'' 0 it_unknown,
    or32_entry ''lv.max.b'' ''rD,rA,rB'' ''00 0xA  DDDDD AAAAA BBBB B--- 0x5 0x5'' ''l_invalid'' 0 it_unknown,
    or32_entry ''lv.max.h'' ''rD,rA,rB'' ''00 0xA  DDDDD AAAAA BBBB B--- 0x5 0x6'' ''l_invalid'' 0 it_unknown,
    or32_entry ''lv.merge.b'' ''rD,rA,rB'' ''00 0xA  DDDDD AAAAA BBBB B--- 0x5 0x7'' ''l_invalid'' 0 it_unknown,
    or32_entry ''lv.merge.h'' ''rD,rA,rB'' ''00 0xA  DDDDD AAAAA BBBB B--- 0x5 0x8'' ''l_invalid'' 0 it_unknown,
    or32_entry ''lv.min.b'' ''rD,rA,rB'' ''00 0xA  DDDDD AAAAA BBBB B--- 0x5 0x9'' ''l_invalid'' 0 it_unknown,
    or32_entry ''lv.min.h'' ''rD,rA,rB'' ''00 0xA  DDDDD AAAAA BBBB B--- 0x5 0xA'' ''l_invalid'' 0 it_unknown,
    or32_entry ''lv.msubs.h'' ''rD,rA,rB'' ''00 0xA  DDDDD AAAAA BBBB B--- 0x5 0xB'' ''l_invalid'' 0 it_unknown,
    or32_entry ''lv.muls.h'' ''rD,rA,rB'' ''00 0xA  DDDDD AAAAA BBBB B--- 0x5 0xC'' ''l_invalid'' 0 it_unknown,
    or32_entry ''lv.nand'' ''rD,rA,rB'' ''00 0xA  DDDDD AAAAA BBBB B--- 0x5 0xD'' ''l_invalid'' 0 it_unknown,
    or32_entry ''lv.nor'' ''rD,rA,rB'' ''00 0xA  DDDDD AAAAA BBBB B--- 0x5 0xE'' ''l_invalid'' 0 it_unknown,
    or32_entry ''lv.or'' ''rD,rA,rB'' ''00 0xA  DDDDD AAAAA BBBB B--- 0x5 0xF'' ''l_invalid'' 0 it_unknown,
    or32_entry ''lv.pack.b'' ''rD,rA,rB'' ''00 0xA  DDDDD AAAAA BBBB B--- 0x6 0x0'' ''l_invalid'' 0 it_unknown,
    or32_entry ''lv.pack.h'' ''rD,rA,rB'' ''00 0xA  DDDDD AAAAA BBBB B--- 0x6 0x1'' ''l_invalid'' 0 it_unknown]"

definition or32_opcodes_2 :: "or32_opcode list" where
  "or32_opcodes_2 = [
    or32_entry ''lv.packs.b'' ''rD,rA,rB'' ''00 0xA  DDDDD AAAAA BBBB B--- 0x6 0x2'' ''l_invalid'' 0 it_unknown,
    or32_entry ''lv.packs.h'' ''rD,rA,rB'' ''00 0xA  DDDDD AAAAA BBBB B--- 0x6 0x3'' ''l_invalid'' 0 it_unknown,
    or32_entry ''lv.packus.b'' ''rD,rA,rB'' ''00 0xA  DDDDD AAAAA BBBB B--- 0x6 0x4'' ''l_invalid'' 0 it_unknown,
    or32_entry ''lv.packus.h'' ''rD,rA,rB'' ''00 0xA  DDDDD AAAAA BBBB B--- 0x6 0x5'' ''l_invalid'' 0 it_unknown,
    or32_entry ''lv.perm.n'' ''rD,rA,rB'' ''00 0xA  DDDDD AAAAA BBBB B--- 0x6 0x6'' ''l_invalid'' 0 it_unknown,
    or32_entry ''lv.rl.b'' ''rD,rA,rB'' ''00 0xA  DDDDD AAAAA BBBB B--- 0x6 0x7'' ''l_invalid'' 0 it_unknown,
    or32_entry ''lv.rl.h'' ''rD,rA,rB'' ''00 0xA  DDDDD AAAAA BBBB B--- 0x6 0x8'' ''l_invalid'' 0 it_unknown,
    or32_entry ''lv.sll.b'' ''rD,rA,rB'' ''00 0xA  DDDDD AAAAA BBBB B--- 0x6 0x9'' ''l_invalid'' 0 it_unknown,
    or32_entry ''lv.sll.h'' ''rD,rA,rB'' ''00 0xA  DDDDD AAAAA BBBB B--- 0x6 0xA'' ''l_invalid'' 0 it_unknown,
    or32_entry ''lv.sll'' ''rD,rA,rB'' ''00 0xA  DDDDD AAAAA BBBB B--- 0x6 0xB'' ''l_invalid'' 0 it_unknown,
    or32_entry ''lv.srl.b'' ''rD,rA,rB'' ''00 0xA  DDDDD AAAAA BBBB B--- 0x6 0xC'' ''l_invalid'' 0 it_unknown,
    or32_entry ''lv.srl.h'' ''rD,rA,rB'' ''00 0xA  DDDDD AAAAA BBBB B--- 0x6 0xD'' ''l_invalid'' 0 it_unknown,
    or32_entry ''lv.sra.b'' ''rD,rA,rB'' ''00 0xA  DDDDD AAAAA BBBB B--- 0x6 0xE'' ''l_invalid'' 0 it_unknown,
    or32_entry ''lv.sra.h'' ''rD,rA,rB'' ''00 0xA  DDDDD AAAAA BBBB B--- 0x6 0xF'' ''l_invalid'' 0 it_unknown,
    or32_entry ''lv.srl'' ''rD,rA,rB'' ''00 0xA  DDDDD AAAAA BBBB B--- 0x7 0x0'' ''l_invalid'' 0 it_unknown,
    or32_entry ''lv.sub.b'' ''rD,rA,rB'' ''00 0xA  DDDDD AAAAA BBBB B--- 0x7 0x1'' ''l_invalid'' 0 it_unknown,
    or32_entry ''lv.sub.h'' ''rD,rA,rB'' ''00 0xA  DDDDD AAAAA BBBB B--- 0x7 0x2'' ''l_invalid'' 0 it_unknown,
    or32_entry ''lv.subs.b'' ''rD,rA,rB'' ''00 0xA  DDDDD AAAAA BBBB B--- 0x7 0x3'' ''l_invalid'' 0 it_unknown,
    or32_entry ''lv.subs.h'' ''rD,rA,rB'' ''00 0xA  DDDDD AAAAA BBBB B--- 0x7 0x4'' ''l_invalid'' 0 it_unknown,
    or32_entry ''lv.subu.b'' ''rD,rA,rB'' ''00 0xA  DDDDD AAAAA BBBB B--- 0x7 0x5'' ''l_invalid'' 0 it_unknown,
    or32_entry ''lv.subu.h'' ''rD,rA,rB'' ''00 0xA  DDDDD AAAAA BBBB B--- 0x7 0x6'' ''l_invalid'' 0 it_unknown,
    or32_entry ''lv.subus.b'' ''rD,rA,rB'' ''00 0xA  DDDDD AAAAA BBBB B--- 0x7 0x7'' ''l_invalid'' 0 it_unknown,
    or32_entry ''lv.subus.h'' ''rD,rA,rB'' ''00 0xA  DDDDD AAAAA BBBB B--- 0x7 0x8'' ''l_invalid'' 0 it_unknown,
    or32_entry ''lv.unpack.b'' ''rD,rA,rB'' ''00 0xA  DDDDD AAAAA BBBB B--- 0x7 0x9'' ''l_invalid'' 0 it_unknown,
    or32_entry ''lv.unpack.h'' ''rD,rA,rB'' ''00 0xA  DDDDD AAAAA BBBB B--- 0x7 0xA'' ''l_invalid'' 0 it_unknown,
    or32_entry ''lv.xor'' ''rD,rA,rB'' ''00 0xA  DDDDD AAAAA BBBB B--- 0x7 0xB'' ''l_invalid'' 0 it_unknown,
    or32_entry ''lv.cust1'' '''' ''00 0xA  ----- ----- ---- ---- 0xC ----'' ''l_invalid'' 0 it_unknown,
    or32_entry ''lv.cust2'' '''' ''00 0xA  ----- ----- ---- ---- 0xD ----'' ''l_invalid'' 0 it_unknown,
    or32_entry ''lv.cust3'' '''' ''00 0xA  ----- ----- ---- ---- 0xE ----'' ''l_invalid'' 0 it_unknown,
    or32_entry ''lv.cust4'' '''' ''00 0xA  ----- ----- ---- ---- 0xF ----'' ''l_invalid'' 0 it_unknown,
    or32_entry ''l.jr'' ''rB'' ''01 0x1  ----- ----- BBBB B--- ---- ----'' ''l_jr'' OR32_IF_DELAY it_jump,
    or32_entry ''l.jalr'' ''rB'' ''01 0x2  ----- ----- BBBB B--- ---- ----'' ''l_jalr'' OR32_IF_DELAY it_jump,
    or32_entry ''l.maci'' ''rA,I'' ''01 0x3  ----- AAAAA IIII IIII IIII IIII'' ''l_mac'' 0 it_mac,
    or32_entry ''l.lwa'' ''rD,I(rA)'' ''01 0xB  DDDDD AAAAA IIII IIII IIII IIII'' ''l_lwa'' 0 it_load,
    or32_entry ''l.cust1'' '''' ''01 0xC  ----- ----- ---- ---- ---- ----'' ''l_cust1'' 0 it_unknown,
    or32_entry ''l.cust2'' '''' ''01 0xD  ----- ----- ---- ---- ---- ----'' ''l_cust2'' 0 it_unknown,
    or32_entry ''l.cust3'' '''' ''01 0xE  ----- ----- ---- ---- ---- ----'' ''l_cust3'' 0 it_unknown,
    or32_entry ''l.cust4'' '''' ''01 0xF  ----- ----- ---- ---- ---- ----'' ''l_cust4'' 0 it_unknown,
    or32_entry ''l.ld'' ''rD,I(rA)'' ''10 0x0  DDDDD AAAAA IIII IIII IIII IIII'' ''l_invalid'' 0 it_load,
    or32_entry ''l.lwz'' ''rD,I(rA)'' ''10 0x1  DDDDD AAAAA IIII IIII IIII IIII'' ''l_lwz'' 0 it_load,
    or32_entry ''l.lws'' ''rD,I(rA)'' ''10 0x2  DDDDD AAAAA IIII IIII IIII IIII'' ''l_lws'' 0 it_load,
    or32_entry ''l.lbz'' ''rD,I(rA)'' ''10 0x3  DDDDD AAAAA IIII IIII IIII IIII'' ''l_lbz'' 0 it_load,
    or32_entry ''l.lbs'' ''rD,I(rA)'' ''10 0x4  DDDDD AAAAA IIII IIII IIII IIII'' ''l_lbs'' 0 it_load,
    or32_entry ''l.lhz'' ''rD,I(rA)'' ''10 0x5  DDDDD AAAAA IIII IIII IIII IIII'' ''l_lhz'' 0 it_load,
    or32_entry ''l.lhs'' ''rD,I(rA)'' ''10 0x6  DDDDD AAAAA IIII IIII IIII IIII'' ''l_lhs'' 0 it_load,
    or32_entry ''l.addi'' ''rD,rA,I'' ''10 0x7  DDDDD AAAAA IIII IIII IIII IIII'' ''l_add'' OR32_W_FLAG it_arith,
    or32_entry ''l.addic'' ''rD,rA,I'' ''10 0x8  DDDDD AAAAA IIII IIII IIII IIII'' ''l_addc'' OR32_W_FLAG it_arith,
    or32_entry ''l.andi'' ''rD,rA,K'' ''10 0x9  DDDDD AAAAA KKKK KKKK KKKK KKKK'' ''l_and'' OR32_W_FLAG it_arith,
    or32_entry ''l.ori'' ''rD,rA,K'' ''10 0xA  DDDDD AAAAA KKKK KKKK KKKK KKKK'' ''l_or'' 0 it_arith]"

definition or32_opcode_xori :: "bool \<Rightarrow> or32_opcode" where
  "or32_opcode_xori HAVE_UNSIGNED_XORI =
    (if HAVE_UNSIGNED_XORI
     then or32_entry ''l.xori'' ''rD,rA,K'' ''10 0xB  DDDDD AAAAA KKKK KKKK KKKK KKKK'' ''l_xor'' 0 it_arith
     else or32_entry ''l.xori'' ''rD,rA,I'' ''10 0xB  DDDDD AAAAA IIII IIII IIII IIII'' ''l_xor'' 0 it_arith)"

definition or32_opcodes_3 :: "or32_opcode list" where
  "or32_opcodes_3 = [
    or32_entry ''l.muli'' ''rD,rA,I'' ''10 0xC  DDDDD AAAAA IIII IIII IIII IIII'' ''l_mul'' 0 it_arith,
    or32_entry ''l.mfspr'' ''rD,rA,K'' ''10 0xD  DDDDD AAAAA KKKK KKKK KKKK KKKK'' ''l_mfspr'' 0 it_move,
    or32_entry ''l.slli'' ''rD,rA,L'' ''10 0xE  DDDDD AAAAA ---- ---- 00LL LLLL'' ''l_sll'' 0 it_shift,
    or32_entry ''l.srli'' ''rD,rA,L'' ''10 0xE  DDDDD AAAAA ---- ---- 01LL LLLL'' ''l_srl'' 0 it_shift,
    or32_entry ''l.srai'' ''rD,rA,L'' ''10 0xE  DDDDD AAAAA ---- ---- 10LL LLLL'' ''l_sra'' 0 it_shift,
    or32_entry ''l.rori'' ''rD,rA,L'' ''10 0xE  DDDDD AAAAA ---- ---- 11LL LLLL'' ''l_ror'' 0 it_shift,
    or32_entry ''l.sfeqi'' ''rA,I'' ''10 0xF  00000 AAAAA IIII IIII IIII IIII'' ''l_sfeq'' OR32_W_FLAG it_compare,
    or32_entry ''l.sfnei'' ''rA,I'' ''10 0xF  00001 AAAAA IIII IIII IIII IIII'' ''l_sfne'' OR32_W_FLAG it_compare,
    or32_entry ''l.sfgtui'' ''rA,I'' ''10 0xF  00010 AAAAA IIII IIII IIII IIII'' ''l_sfgtu'' OR32_W_FLAG it_compare,
    or32_entry ''l.sfgeui'' ''rA,I'' ''10 0xF  00011 AAAAA IIII IIII IIII IIII'' ''l_sfgeu'' OR32_W_FLAG it_compare,
    or32_entry ''l.sfltui'' ''rA,I'' ''10 0xF  00100 AAAAA IIII IIII IIII IIII'' ''l_sfltu'' OR32_W_FLAG it_compare,
    or32_entry ''l.sfleui'' ''rA,I'' ''10 0xF  00101 AAAAA IIII IIII IIII IIII'' ''l_sfleu'' OR32_W_FLAG it_compare,
    or32_entry ''l.sfgtsi'' ''rA,I'' ''10 0xF  01010 AAAAA IIII IIII IIII IIII'' ''l_sfgts'' OR32_W_FLAG it_compare,
    or32_entry ''l.sfgesi'' ''rA,I'' ''10 0xF  01011 AAAAA IIII IIII IIII IIII'' ''l_sfges'' OR32_W_FLAG it_compare,
    or32_entry ''l.sfltsi'' ''rA,I'' ''10 0xF  01100 AAAAA IIII IIII IIII IIII'' ''l_sflts'' OR32_W_FLAG it_compare,
    or32_entry ''l.sflesi'' ''rA,I'' ''10 0xF  01101 AAAAA IIII IIII IIII IIII'' ''l_sfles'' OR32_W_FLAG it_compare,
    or32_entry ''l.mtspr'' ''rA,rB,K'' ''11 0x0  KKKKK AAAAA BBBB BKKK KKKK KKKK'' ''l_mtspr'' 0 it_move,
    or32_entry ''l.mac'' ''rA,rB'' ''11 0x1  ----- AAAAA BBBB B--- ---- 0x1'' ''l_mac'' 0 it_mac,
    or32_entry ''l.msb'' ''rA,rB'' ''11 0x1  ----- AAAAA BBBB B--- ---- 0x2'' ''l_msb'' 0 it_mac,
    or32_entry ''lf.add.s'' ''rD,rA,rB'' ''11 0x2  DDDDD AAAAA BBBB B--- 0x0 0x0'' ''lf_add_s'' 0 it_float,
    or32_entry ''lf.sub.s'' ''rD,rA,rB'' ''11 0x2  DDDDD AAAAA BBBB B--- 0x0 0x1'' ''lf_sub_s'' 0 it_float,
    or32_entry ''lf.mul.s'' ''rD,rA,rB'' ''11 0x2  DDDDD AAAAA BBBB B--- 0x0 0x2'' ''lf_mul_s'' 0 it_float,
    or32_entry ''lf.div.s'' ''rD,rA,rB'' ''11 0x2  DDDDD AAAAA BBBB B--- 0x0 0x3'' ''lf_div_s'' 0 it_float,
    or32_entry ''lf.itof.s'' ''rD,rA'' ''11 0x2  DDDDD AAAAA 0000 0--- 0x0 0x4'' ''lf_itof_s'' 0 it_float,
    or32_entry ''lf.ftoi.s'' ''rD,rA'' ''11 0x2  DDDDD AAAAA 0000 0--- 0x0 0x5'' ''lf_ftoi_s'' 0 it_float,
    or32_entry ''lf.rem.s'' ''rD,rA,rB'' ''11 0x2  DDDDD AAAAA BBBB B--- 0x0 0x6'' ''lf_rem_s'' 0 it_float,
    or32_entry ''lf.madd.s'' ''rD,rA,rB'' ''11 0x2  DDDDD AAAAA BBBB B--- 0x0 0x7'' ''lf_madd_s'' 0 it_float,
    or32_entry ''lf.sfeq.s'' ''rA,rB'' ''11 0x2  ----- AAAAA BBBB B--- 0x0 0x8'' ''lf_sfeq_s'' 0 it_float,
    or32_entry ''lf.sfne.s'' ''rA,rB'' ''11 0x2  ----- AAAAA BBBB B--- 0x0 0x9'' ''lf_sfne_s'' 0 it_float,
    or32_entry ''lf.sfgt.s'' ''rA,rB'' ''11 0x2  ----- AAAAA BBBB B--- 0x0 0xA'' ''lf_sfgt_s'' 0 it_float,
    or32_entry ''lf.sfge.s'' ''rA,rB'' ''11 0x2  ----- AAAAA BBBB B--- 0x0 0xB'' ''lf_sfge_s'' 0 it_float,
    or32_entry ''lf.sflt.s'' ''rA,rB'' ''11 0x2  ----- AAAAA BBBB B--- 0x0 0xC'' ''lf_sflt_s'' 0 it_float,
    or32_entry ''lf.sfle.s'' ''rA,rB'' ''11 0x2  ----- AAAAA BBBB B--- 0x0 0xD'' ''lf_sfle_s'' 0 it_float,
    or32_entry ''lf.cust1.s'' ''rA,rB'' ''11 0x2  ----- AAAAA BBBB B--- 0xD ----'' ''l_invalid'' 0 it_float,
    or32_entry ''lf.add.d'' ''rD,rA,rB'' ''11 0x2  DDDDD AAAAA BBBB B--- 0x1 0x0'' ''l_invalid'' 0 it_float,
    or32_entry ''lf.sub.d'' ''rD,rA,rB'' ''11 0x2  DDDDD AAAAA BBBB B--- 0x1 0x1'' ''l_invalid'' 0 it_float,
    or32_entry ''lf.mul.d'' ''rD,rA,rB'' ''11 0x2  DDDDD AAAAA BBBB B--- 0x1 0x2'' ''l_invalid'' 0 it_float,
    or32_entry ''lf.div.d'' ''rD,rA,rB'' ''11 0x2  DDDDD AAAAA BBBB B--- 0x1 0x3'' ''l_invalid'' 0 it_float,
    or32_entry ''lf.itof.d'' ''rD,rA'' ''11 0x2  DDDDD AAAAA 0000 0--- 0x1 0x4'' ''l_invalid'' 0 it_float,
    or32_entry ''lf.ftoi.d'' ''rD,rA'' ''11 0x2  DDDDD AAAAA 0000 0--- 0x1 0x5'' ''l_invalid'' 0 it_float,
    or32_entry ''lf.rem.d'' ''rD,rA,rB'' ''11 0x2  DDDDD AAAAA BBBB B--- 0x1 0x6'' ''l_invalid'' 0 it_float,
    or32_entry ''lf.madd.d'' ''rD,rA,rB'' ''11 0x2  DDDDD AAAAA BBBB B--- 0x1 0x7'' ''l_invalid'' 0 it_float,
    or32_entry ''lf.sfeq.d'' ''rA,rB'' ''11 0x2  ----- AAAAA BBBB B--- 0x1 0x8'' ''l_invalid'' 0 it_float,
    or32_entry ''lf.sfne.d'' ''rA,rB'' ''11 0x2  ----- AAAAA BBBB B--- 0x1 0x9'' ''l_invalid'' 0 it_float,
    or32_entry ''lf.sfgt.d'' ''rA,rB'' ''11 0x2  ----- AAAAA BBBB B--- 0x1 0xA'' ''l_invalid'' 0 it_float,
    or32_entry ''lf.sfge.d'' ''rA,rB'' ''11 0x2  ----- AAAAA BBBB B--- 0x1 0xB'' ''l_invalid'' 0 it_float,
    or32_entry ''lf.sflt.d'' ''rA,rB'' ''11 0x2  ----- AAAAA BBBB B--- 0x1 0xC'' ''l_invalid'' 0 it_float,
    or32_entry ''lf.sfle.d'' ''rA,rB'' ''11 0x2  ----- AAAAA BBBB B--- 0x1 0xD'' ''l_invalid'' 0 it_float,
    or32_entry ''lf.cust1.d'' ''rA,rB'' ''11 0x2  ----- AAAAA BBBB B--- 0xE ----'' ''l_invalid'' 0 it_float,
    or32_entry ''l.swa'' ''I(rA),rB'' ''11 0x3  IIIII AAAAA BBBB BIII IIII IIII'' ''l_swa'' 0 it_store,
    or32_entry ''l.sd'' ''I(rA),rB'' ''11 0x4  IIIII AAAAA BBBB BIII IIII IIII'' ''l_invalid'' 0 it_store,
    or32_entry ''l.sw'' ''I(rA),rB'' ''11 0x5  IIIII AAAAA BBBB BIII IIII IIII'' ''l_sw'' 0 it_store,
    or32_entry ''l.sb'' ''I(rA),rB'' ''11 0x6  IIIII AAAAA BBBB BIII IIII IIII'' ''l_sb'' 0 it_store,
    or32_entry ''l.sh'' ''I(rA),rB'' ''11 0x7  IIIII AAAAA BBBB BIII IIII IIII'' ''l_sh'' 0 it_store,
    or32_entry ''l.add'' ''rD,rA,rB'' ''11 0x8  DDDDD AAAAA BBBB B-00 ---- 0x0'' ''l_add'' OR32_W_FLAG it_arith,
    or32_entry ''l.addc'' ''rD,rA,rB'' ''11 0x8  DDDDD AAAAA BBBB B-00 ---- 0x1'' ''l_addc'' OR32_W_FLAG it_arith,
    or32_entry ''l.sub'' ''rD,rA,rB'' ''11 0x8  DDDDD AAAAA BBBB B-00 ---- 0x2'' ''l_sub'' 0 it_arith,
    or32_entry ''l.and'' ''rD,rA,rB'' ''11 0x8  DDDDD AAAAA BBBB B-00 ---- 0x3'' ''l_and'' OR32_W_FLAG it_arith,
    or32_entry ''l.or'' ''rD,rA,rB'' ''11 0x8  DDDDD AAAAA BBBB B-00 ---- 0x4'' ''l_or'' 0 it_arith,
    or32_entry ''l.xor'' ''rD,rA,rB'' ''11 0x8  DDDDD AAAAA BBBB B-00 ---- 0x5'' ''l_xor'' 0 it_arith,
    or32_entry ''l.mul'' ''rD,rA,rB'' ''11 0x8  DDDDD AAAAA BBBB B-11 ---- 0x6'' ''l_mul'' 0 it_arith,
    or32_entry ''l.sll'' ''rD,rA,rB'' ''11 0x8  DDDDD AAAAA BBBB B-00 00-- 0x8'' ''l_sll'' 0 it_shift,
    or32_entry ''l.srl'' ''rD,rA,rB'' ''11 0x8  DDDDD AAAAA BBBB B-00 01-- 0x8'' ''l_srl'' 0 it_shift]"

definition or32_opcodes_4 :: "or32_opcode list" where
  "or32_opcodes_4 = [
    or32_entry ''l.sra'' ''rD,rA,rB'' ''11 0x8  DDDDD AAAAA BBBB B-00 10-- 0x8'' ''l_sra'' 0 it_shift,
    or32_entry ''l.ror'' ''rD,rA,rB'' ''11 0x8  DDDDD AAAAA BBBB B-00 11-- 0x8'' ''l_ror'' 0 it_shift,
    or32_entry ''l.div'' ''rD,rA,rB'' ''11 0x8  DDDDD AAAAA BBBB B-11 ---- 0x9'' ''l_div'' 0 it_arith,
    or32_entry ''l.divu'' ''rD,rA,rB'' ''11 0x8  DDDDD AAAAA BBBB B-11 ---- 0xA'' ''l_divu'' 0 it_arith,
    or32_entry ''l.mulu'' ''rD,rA,rB'' ''11 0x8  DDDDD AAAAA BBBB B-11 ---- 0xB'' ''l_mulu'' 0 it_arith,
    or32_entry ''l.extbs'' ''rD,rA'' ''11 0x8  DDDDD AAAAA ---- --00 01-- 0xC'' ''l_extbs'' 0 it_move,
    or32_entry ''l.exths'' ''rD,rA'' ''11 0x8  DDDDD AAAAA ---- --00 00-- 0xC'' ''l_exths'' 0 it_move,
    or32_entry ''l.extws'' ''rD,rA'' ''11 0x8  DDDDD AAAAA ---- --00 00-- 0xD'' ''l_extws'' 0 it_move,
    or32_entry ''l.extbz'' ''rD,rA'' ''11 0x8  DDDDD AAAAA ---- --00 11-- 0xC'' ''l_extbz'' 0 it_move,
    or32_entry ''l.exthz'' ''rD,rA'' ''11 0x8  DDDDD AAAAA ---- --00 10-- 0xC'' ''l_exthz'' 0 it_move,
    or32_entry ''l.extwz'' ''rD,rA'' ''11 0x8  DDDDD AAAAA ---- --00 01-- 0xD'' ''l_extwz'' 0 it_move,
    or32_entry ''l.cmov'' ''rD,rA,rB'' ''11 0x8  DDDDD AAAAA BBBB B-00 ---- 0xE'' ''l_cmov'' OR32_R_FLAG it_move,
    or32_entry ''l.ff1'' ''rD,rA'' ''11 0x8  DDDDD AAAAA ---- --00 ---- 0xF'' ''l_ff1'' 0 it_arith,
    or32_entry ''l.fl1'' ''rD,rA'' ''11 0x8  DDDDD AAAAA ---- --01 ---- 0xF'' ''l_fl1'' 0 it_arith,
    or32_entry ''l.sfeq'' ''rA,rB'' ''11 0x9  00000 AAAAA BBBB B--- ---- ----'' ''l_sfeq'' OR32_W_FLAG it_compare,
    or32_entry ''l.sfne'' ''rA,rB'' ''11 0x9  00001 AAAAA BBBB B--- ---- ----'' ''l_sfne'' OR32_W_FLAG it_compare,
    or32_entry ''l.sfgtu'' ''rA,rB'' ''11 0x9  00010 AAAAA BBBB B--- ---- ----'' ''l_sfgtu'' OR32_W_FLAG it_compare,
    or32_entry ''l.sfgeu'' ''rA,rB'' ''11 0x9  00011 AAAAA BBBB B--- ---- ----'' ''l_sfgeu'' OR32_W_FLAG it_compare,
    or32_entry ''l.sfltu'' ''rA,rB'' ''11 0x9  00100 AAAAA BBBB B--- ---- ----'' ''l_sfltu'' OR32_W_FLAG it_compare,
    or32_entry ''l.sfleu'' ''rA,rB'' ''11 0x9  00101 AAAAA BBBB B--- ---- ----'' ''l_sfleu'' OR32_W_FLAG it_compare,
    or32_entry ''l.sfgts'' ''rA,rB'' ''11 0x9  01010 AAAAA BBBB B--- ---- ----'' ''l_sfgts'' OR32_W_FLAG it_compare,
    or32_entry ''l.sfges'' ''rA,rB'' ''11 0x9  01011 AAAAA BBBB B--- ---- ----'' ''l_sfges'' OR32_W_FLAG it_compare,
    or32_entry ''l.sflts'' ''rA,rB'' ''11 0x9  01100 AAAAA BBBB B--- ---- ----'' ''l_sflts'' OR32_W_FLAG it_compare,
    or32_entry ''l.sfles'' ''rA,rB'' ''11 0x9  01101 AAAAA BBBB B--- ---- ----'' ''l_sfles'' OR32_W_FLAG it_compare,
    or32_entry ''l.cust5'' ''rD,rA,rB,L,K'' ''11 0xC  DDDDD AAAAA BBBB BLLL LLLK KKKK'' ''l_invalid'' 0 it_unknown,
    or32_entry ''l.cust6'' '''' ''11 0xD  ----- ----- ---- ---- ---- ----'' ''l_invalid'' 0 it_unknown,
    or32_entry ''l.cust7'' '''' ''11 0xE  ----- ----- ---- ---- ---- ----'' ''l_invalid'' 0 it_unknown,
    or32_entry ''l.cust8'' '''' ''11 0xF  ----- ----- ---- ---- ---- ----'' ''l_invalid'' 0 it_unknown]"

definition or32_opcodes_cust :: "or32_opcode list" where
  "or32_opcodes_cust = [
    or32_entry ''l.cust5_1'' ''rD'' ''11 0xC  DDDDD ----- ---- ---- ---- ----'' ''l_invalid'' 0 it_unknown,
    or32_entry ''l.cust5_2'' ''rD,rA'' ''11 0xC  DDDDD AAAAA ---- ---- ---- ----'' ''l_invalid'' 0 it_unknown,
    or32_entry ''l.cust5_3'' ''rD,rA,rB'' ''11 0xC  DDDDD AAAAA BBBB B--- ---- ----'' ''l_invalid'' 0 it_unknown,
    or32_entry ''l.cust6_1'' ''rD'' ''11 0xD  DDDDD ----- ---- ---- ---- ----'' ''l_invalid'' 0 it_unknown,
    or32_entry ''l.cust6_2'' ''rD,rA'' ''11 0xD  DDDDD AAAAA ---- ---- ---- ----'' ''l_invalid'' 0 it_unknown,
    or32_entry ''l.cust6_3'' ''rD,rA,rB'' ''11 0xD  DDDDD AAAAA BBBB B--- ---- ----'' ''l_invalid'' 0 it_unknown,
    or32_entry ''l.cust7_1'' ''rD'' ''11 0xE  DDDDD ----- ---- ---- ---- ----'' ''l_invalid'' 0 it_unknown,
    or32_entry ''l.cust7_2'' ''rD,rA'' ''11 0xE  DDDDD AAAAA ---- ---- ---- ----'' ''l_invalid'' 0 it_unknown,
    or32_entry ''l.cust7_3'' ''rD,rA,rB'' ''11 0xE  DDDDD AAAAA BBBB B--- ---- ----'' ''l_invalid'' 0 it_unknown,
    or32_entry ''l.cust8_1'' ''rD'' ''11 0xF  DDDDD ----- ---- ---- ---- ----'' ''l_invalid'' 0 it_unknown,
    or32_entry ''l.cust8_2'' ''rD,rA'' ''11 0xF  DDDDD AAAAA ---- ---- ---- ----'' ''l_invalid'' 0 it_unknown,
    or32_entry ''l.cust8_3'' ''rD,rA,rB'' ''11 0xF  DDDDD AAAAA BBBB B--- ---- ----'' ''l_invalid'' 0 it_unknown]"

definition or1ksim_or32_opcodes :: "bool \<Rightarrow> or32_opcode list" where
  "or1ksim_or32_opcodes HAVE_UNSIGNED_XORI =
     or32_opcodes_1 @ or32_opcodes_2 @ [or32_opcode_xori HAVE_UNSIGNED_XORI]
       @ or32_opcodes_3 @ or32_opcodes_4"

definition or1ksim_insn_name :: "or32_opcode list \<Rightarrow> int \<Rightarrow> string" where
  "or1ksim_insn_name opcodes index =
     (if 0 \<le> index \<and> index < int (length opcodes) then name (opcodes ! nat index) else ''???'')"

end
