(* ===== verification/Decode.thy ===== *)
theory Decode
  imports Opcodes
begin

text \<open>
  The instruction decoder of \<^verbatim>\<open>cpu/or32/or32.c\<close>: the automaton that
  \<^verbatim>\<open>or1ksim_build_automata\<close> lays out in an array of words from the encodings of
  the instruction table, and \<^verbatim>\<open>or1ksim_insn_decode\<close>, which walks it. The array is
  a function from indices to 64-bit words (\<^verbatim>\<open>unsigned long\<close>), pointers into it are
  indices; \<^verbatim>\<open>exit (1)\<close> is \<open>Exit_called\<close>. The specification is a scan of the
  table for the entry whose fixed bits the word has.
\<close>

section \<open>Encodings\<close>

definition isalpha :: "char \<Rightarrow> bool" where
  "isalpha c = (let n = of_char c :: int in (65 \<le> n \<and> n \<le> 90) \<or> (97 \<le> n \<and> n \<le> 122))"

definition hex_value :: "char \<Rightarrow> int option" where
  "hex_value c =
     (let n = of_char c :: int in
      if 48 \<le> n \<and> n \<le> 57 then Some (n - 48)
      else if 65 \<le> n \<and> n \<le> 70 then Some (n - 55)
      else if 97 \<le> n \<and> n \<le> 102 then Some (n - 87)
      else None)"

text \<open>\<^verbatim>\<open>strtol (s, NULL, 16)\<close> on a string that starts with a hexadecimal digit.\<close>

fun strtol16 :: "u64 \<Rightarrow> string \<Rightarrow> u64" where
  "strtol16 acc [] = acc"
| "strtol16 acc (c # cs) =
     (case hex_value c of None \<Rightarrow> acc | Some d \<Rightarrow> strtol16 (16 * acc + of_int d) cs)"

fun insn_extract_loop :: "char \<Rightarrow> nat \<Rightarrow> u64 \<Rightarrow> string \<Rightarrow> u64" where
  "insn_extract_loop param_ch opc_pos ret [] = ret"
| "insn_extract_loop param_ch opc_pos ret (c # cs) =
     (if c = CHR ''0'' \<and> (case cs of [] \<Rightarrow> False | d # _ \<Rightarrow> d = CHR ''x'') then
        (let tmp = strtol16 0 (tl cs);
             opc_pos = opc_pos - 4;
             ret = (if param_ch = CHR ''0'' then ret OR push_bit opc_pos (15 - tmp)
                    else if param_ch = CHR ''1'' then ret OR push_bit opc_pos tmp
                    else ret)
         in insn_extract_loop param_ch opc_pos ret (drop 2 cs))
      else if c = CHR ''0'' \<or> c = CHR ''1'' \<or> c = CHR ''-'' \<or> isalpha c then
        (let opc_pos = opc_pos - 1;
             ret = (if param_ch = c then ret OR push_bit opc_pos 1 else ret)
         in insn_extract_loop param_ch opc_pos ret cs)
      else insn_extract_loop param_ch opc_pos ret cs)"

definition insn_extract :: "char \<Rightarrow> string \<Rightarrow> u64" where
  "insn_extract param_ch enc_initial = insn_extract_loop param_ch 32 0 enc_initial"

section \<open>Building the automaton\<close>

definition LEAF_FLAG :: u64 where
  "LEAF_FLAG = 0x80000000"

definition MAX_AUTOMATA_SIZE :: nat where
  "MAX_AUTOMATA_SIZE = 1200"

definition MAX_LEN :: nat where
  "MAX_LEN = 8"

record temp_insn_struct =
  ti_insn :: u64
  insn_mask :: u64
  in_pass :: nat

record automata_build =
  automata :: "nat \<Rightarrow> u64"
  ti :: "temp_insn_struct list"
  curpass :: nat
  nuncovered :: int

text \<open>
  The search for the longest run of decided bits: the inner loop extends the run that starts
  at bit \<open>i\<close> as long as it beats the best one so far.
\<close>

function longest_at :: "u64 \<Rightarrow> nat \<Rightarrow> nat \<Rightarrow> nat \<times> nat \<Rightarrow> nat \<times> nat" where
  "longest_at cur_mask i len best =
     (if len < min MAX_LEN (33 - i) \<and> mask len AND drop_bit i cur_mask = mask len
      then longest_at cur_mask i (Suc len) (len, i)
      else best)"
  by auto
termination by (relation "measure (\<lambda>(_, _, len, _). MAX_LEN - len)") auto

declare longest_at.simps [simp del]

definition longest_match :: "u64 \<Rightarrow> nat \<times> nat" where
  "longest_match cur_mask =
     fold (\<lambda>i best. longest_at cur_mask i (Suc (fst best)) best) [0..<32] (0, 0)"

definition pass_members :: "temp_insn_struct list \<Rightarrow> nat \<Rightarrow> nat list" where
  "pass_members tis pass = filter (\<lambda>j. in_pass (tis ! j) = pass) [0..<length tis]"

definition pass_mask :: "temp_insn_struct list \<Rightarrow> nat \<Rightarrow> u32 \<Rightarrow> u64" where
  "pass_mask tis pass m =
     fold (\<lambda>j cur_mask. cur_mask AND insn_mask (tis ! j)) (pass_members tis pass) (ucast m)"

text \<open>The decided bits below a node.\<close>

definition submask :: "u32 \<Rightarrow> nat \<Rightarrow> nat \<Rightarrow> u32" where
  "submask m first len = ucast (ucast m AND NOT (push_bit first (mask len) :: u64))"

definition mark_pass ::
  "nat \<Rightarrow> nat \<Rightarrow> nat \<Rightarrow> nat \<Rightarrow> nat \<Rightarrow> temp_insn_struct \<Rightarrow> temp_insn_struct" where
  "mark_pass pass first len i new t =
     (if in_pass t = pass \<and> drop_bit first (ti_insn t) AND mask len = of_nat i
         \<and> drop_bit first (insn_mask t) AND mask len = mask len
      then t\<lparr>in_pass := new\<rparr> else t)"

lemma bind_outcome_cong [fundef_cong]:
  "r = r' \<Longrightarrow> (\<And>a. r' = Inr a \<Longrightarrow> f a = g a) \<Longrightarrow> bind_outcome r f = bind_outcome r' g"
  by (cases r') auto

function cover_insn ::
    "nat \<Rightarrow> nat \<Rightarrow> u32 \<Rightarrow> automata_build \<Rightarrow> (nat option \<times> automata_build) outcome"
  and cover_children ::
    "nat \<Rightarrow> nat \<Rightarrow> nat \<Rightarrow> u32 \<Rightarrow> nat \<Rightarrow> nat \<Rightarrow> nat \<Rightarrow> automata_build
     \<Rightarrow> (nat option \<times> automata_build) outcome" where
  "cover_insn cur pass m s =
     (let members = pass_members (ti s) pass in
      if members = [] then Inr (None, s)
      else if length members = 1 then
        Inr (Some (Suc cur),
             s\<lparr>automata := (automata s)(cur := LEAF_FLAG OR of_nat (last members)),
               nuncovered := nuncovered s - 1\<rparr>)
      else
        (let best = longest_match (pass_mask (ti s) pass m) in
         if fst best = 0 then Inl Exit_called
         else cover_children pass (snd best) (fst best) (submask m (snd best) (fst best))
                (cur + 2) 0 (cur + 2 + 2 ^ fst best)
                (s\<lparr>automata := (automata s)(cur := of_nat (snd best),
                                           Suc cur := mask (fst best))\<rparr>)))"
| "cover_children pass best_first best_len m next i cur s =
     (if i < 2 ^ best_len then
        (let c = Suc (curpass s) in
         bind_outcome
           (cover_insn cur c m
              (s\<lparr>curpass := c, ti := map (mark_pass pass best_first best_len i c) (ti s)\<rparr>))
           (\<lambda>(r, s').
              case r of
                Some cur' \<Rightarrow>
                  cover_children pass best_first best_len m next (Suc i) cur'
                    (s'\<lparr>automata := (automata s')(next + i := of_nat cur)\<rparr>)
              | None \<Rightarrow>
                  cover_children pass best_first best_len m next (Suc i) cur
                    (s'\<lparr>automata := (automata s')(next + i := 0)\<rparr>)))
      else Inr (Some cur, s))"
  by pat_completeness auto

text \<open>Every level clears bits of the mask, so the recursion ends.\<close>

definition run_ok :: "u64 \<Rightarrow> nat \<times> nat \<Rightarrow> bool" where
  "run_ok cm best \<longleftrightarrow> fst best = 0
     \<or> (fst best < MAX_LEN \<and> snd best + fst best \<le> 32
        \<and> mask (fst best) AND drop_bit (snd best) cm = mask (fst best))"

lemma longest_at_sound:
  assumes "run_ok cm best"
  shows "run_ok cm (longest_at cm i len best)"
  using assms
proof (induction cm i len best rule: longest_at.induct)
  case (1 cm i len best)
  let ?c = "len < min MAX_LEN (33 - i) \<and> mask len AND drop_bit i cm = mask len"
  show ?case
  proof (cases ?c)
    case True
    then have "run_ok cm (len, i)" by (auto simp: run_ok_def)
    with "1.IH"[OF True] True show ?thesis by (simp add: longest_at.simps[of cm i len])
  next
    case False
    with "1.prems" show ?thesis by (subst longest_at.simps) (simp only: if_False)
  qed
qed

lemma longest_match_sound: "run_ok cm (longest_match cm)"
proof -
  have "run_ok cm (fold (\<lambda>i best. longest_at cm i (Suc (fst best)) best) is best)"
    if "run_ok cm best" for "is" best
    using that by (induction "is" arbitrary: best) (simp_all add: longest_at_sound)
  then show ?thesis by (simp add: longest_match_def run_ok_def)
qed

lemma fold_and_subset:
  "bit (fold (\<lambda>j c. c AND f j) js a) n \<longleftrightarrow> bit a n \<and> (\<forall>j \<in> set js. bit (f j :: u64) n)"
  by (induction js arbitrary: a) (auto simp: bit_simps)

lemma and_not_less:
  assumes "bit w n" "bit k n"
  shows "w AND NOT k < (w :: 'a::len word)"
proof -
  have "w AND NOT k \<noteq> w"
    using assms by (metis bit_and_iff bit_not_iff)
  then show ?thesis by (simp add: order.not_eq_order_implies_strict word_and_le2)
qed

lemma run_ok_bit:
  assumes "run_ok cm best" "k < fst best"
  shows "bit cm (snd best + k)" "snd best + k < 32"
proof -
  have "mask (fst best) AND drop_bit (snd best) cm = mask (fst best)" and le: "snd best + fst best \<le> 32"
    using assms by (auto simp: run_ok_def)
  then have "bit (mask (fst best) AND drop_bit (snd best) cm) k \<longleftrightarrow> bit (mask (fst best) :: u64) k"
    by simp
  with assms(2) le show "bit cm (snd best + k)" "snd best + k < 32"
    by (auto simp: bit_simps)
qed

lemma run_submask_less:
  assumes "run_ok cm best" "\<And>n. bit cm n \<Longrightarrow> bit m n" "fst best \<noteq> 0"
  shows "submask m (snd best) (fst best) < m"
proof -
  from run_ok_bit[OF assms(1), of 0] assms(3)
  have "bit cm (snd best)" "snd best < 32" by simp_all
  then have m: "bit m (snd best)" by (simp add: assms(2))
  have "submask m (snd best) (fst best) = m AND NOT (push_bit (snd best) (mask (fst best)))"
    by (rule bit_word_eqI) (auto simp: submask_def bit_simps)
  moreover have "bit (push_bit (snd best) (mask (fst best)) :: u32) (snd best)"
    using assms(3) \<open>snd best < 32\<close> by (simp add: bit_simps)
  ultimately show ?thesis using m by (simp add: and_not_less)
qed

lemma submask_less:
  assumes "run_ok (pass_mask tis pass m) best" "fst best \<noteq> 0"
  shows "submask m (snd best) (fst best) < m"
  by (rule run_submask_less[OF assms(1) _ assms(2)])
    (simp add: pass_mask_def fold_and_subset bit_simps)

termination cover_insn
proof (relation "inv_image (less_than <*lex*> less_than)
    (\<lambda>x. case x of Inl (cur, pass, m, s) \<Rightarrow> (unat m, 0)
       | Inr (pass, first, len, m, next, i, cur, s) \<Rightarrow> (unat m, Suc (2 ^ len - i)))",
    goal_cases)
  case (2 cur pass m s members best)
  then show ?case
    using submask_less[OF longest_match_sound] by (simp add: unat_mono word_less_nat_alt)
qed (auto simp: diff_less_mono2)


declare cover_insn.simps [simp del] cover_children.simps [simp del]

definition temp_insn :: "or32_opcode \<Rightarrow> temp_insn_struct" where
  "temp_insn opcode =
     (let ones = insn_extract (CHR ''1'') (encoding opcode);
          zeros = insn_extract (CHR ''0'') (encoding opcode)
      in \<lparr>ti_insn = ones, insn_mask = ones OR zeros, in_pass = 0\<rparr>)"

text \<open>
  The first half of \<^verbatim>\<open>or1ksim_build_automata\<close>; \<open>fresh\<close> are the contents of the
  allocated array.
\<close>

definition build_automata :: "(nat \<Rightarrow> u64) \<Rightarrow> or32_opcode list \<Rightarrow> automata_build outcome" where
  "build_automata fresh opcodes =
     bind_outcome
       (cover_insn 0 0 0xFFFFFFFF
          \<lparr>automata = fresh, ti = map temp_insn opcodes, curpass = 0,
           nuncovered = int (length opcodes)\<rparr>)
       (\<lambda>(end, s).
          case end of
            None \<Rightarrow> Inl Undefined_behaviour
          | Some cur \<Rightarrow> if cur > MAX_AUTOMATA_SIZE then Inl Exit_called else Inr s)"

section \<open>Decoding\<close>

text \<open>
  The walk of \<^verbatim>\<open>or1ksim_insn_decode\<close>: \<open>Some None\<close> when it meets an empty cell,
  \<open>Some (Some i)\<close> when it reaches the leaf of instruction \<open>i\<close>, and \<open>None\<close> only
  if the loop does not end.
\<close>

partial_function (option) decode_walk ::
  "(nat \<Rightarrow> u64) \<Rightarrow> u32 \<Rightarrow> nat \<Rightarrow> nat option option" where
  "decode_walk mem insn a =
     (if mem a AND LEAF_FLAG \<noteq> 0 then Some (Some (unat (mem a AND 0x7FFFFFFF)))
      else
        (let first = unat (ucast (mem a) :: u32);
             i = unat (ucast (drop_bit first insn) AND mem (Suc a))
         in if mem (a + 2 + i) = 0 then Some None
            else decode_walk mem insn (unat (mem (a + 2 + i)))))"

definition insn_matches :: "temp_insn_struct \<Rightarrow> u32 \<Rightarrow> bool" where
  "insn_matches t insn \<longleftrightarrow> insn_mask t AND ucast insn = ti_insn t"

definition or1ksim_insn_decode :: "automata_build \<Rightarrow> u32 \<Rightarrow> int option" where
  "or1ksim_insn_decode s insn =
     map_option
       (\<lambda>r. case r of
              None \<Rightarrow> -1
            | Some i \<Rightarrow> if insn_matches (ti s ! i) insn then int i else -1)
       (decode_walk (automata s) insn 0)"

text \<open>The specification: the first entry of the table whose fixed bits the word has.\<close>

definition linear_decode :: "temp_insn_struct list \<Rightarrow> u32 \<Rightarrow> int" where
  "linear_decode tis insn =
     (case find (\<lambda>i. insn_matches (tis ! i) insn) [0..<length tis] of
        None \<Rightarrow> -1 | Some i \<Rightarrow> int i)"

section \<open>Passes are a partition\<close>

abbreviation passes :: "automata_build \<Rightarrow> nat \<Rightarrow> nat" where
  "passes s j \<equiv> in_pass (ti s ! j)"

abbreviation same_code :: "automata_build \<Rightarrow> automata_build \<Rightarrow> bool" where
  "same_code s s' \<equiv>
     map ti_insn (ti s') = map ti_insn (ti s) \<and> map insn_mask (ti s') = map insn_mask (ti s)"

definition passes_ok :: "automata_build \<Rightarrow> bool" where
  "passes_ok s \<longleftrightarrow> (\<forall>j < length (ti s). passes s j \<le> curpass s)"

definition pass_frame :: "nat \<Rightarrow> automata_build \<Rightarrow> automata_build \<Rightarrow> bool" where
  "pass_frame p s s' \<longleftrightarrow>
     same_code s s' \<and> curpass s \<le> curpass s' \<and> passes_ok s'
     \<and> (\<forall>j < length (ti s).
           (passes s j = p \<longrightarrow> passes s' j = p \<or> passes s' j > curpass s)
         \<and> (passes s j \<noteq> p \<longrightarrow> passes s' j = passes s j))"

lemma same_code_length: "same_code s s' \<Longrightarrow> length (ti s') = length (ti s)"
  by (metis length_map)

lemma same_code_nth:
  assumes "same_code s s'" "j < length (ti s)"
  shows "ti_insn (ti s' ! j) = ti_insn (ti s ! j)" "insn_mask (ti s' ! j) = insn_mask (ti s ! j)"
  using assms by (metis length_map nth_map)+

lemma pass_frame_refl: "passes_ok s \<Longrightarrow> pass_frame p s s"
  by (simp add: pass_frame_def)

lemma mark_pass_code [simp]:
  "ti_insn (mark_pass p f l i c t) = ti_insn t" "insn_mask (mark_pass p f l i c t) = insn_mask t"
  by (simp_all add: mark_pass_def)

lemma map_mark_pass [simp]:
  "map (\<lambda>x. ti_insn (mark_pass p f l i c x)) xs = map ti_insn xs"
  "map (\<lambda>x. insn_mask (mark_pass p f l i c x)) xs = map insn_mask xs"
  by simp_all

abbreviation marked :: "nat \<Rightarrow> nat \<Rightarrow> nat \<Rightarrow> nat \<Rightarrow> automata_build \<Rightarrow> automata_build" where
  "marked p f l i s \<equiv>
     s\<lparr>curpass := Suc (curpass s), ti := map (mark_pass p f l i (Suc (curpass s))) (ti s)\<rparr>"

lemma marked_ok: "passes_ok s \<Longrightarrow> passes_ok (marked p f l i s)"
  by (auto simp: passes_ok_def mark_pass_def le_SucI)

lemma pass_frame_mark:
  assumes "passes_ok s" "p \<le> curpass s"
    and "pass_frame (Suc (curpass s)) (marked p f l i s) s2"
    and "pass_frame p s2 s'"
  shows "pass_frame p s s'"
proof -
  have code: "same_code s s2" "same_code s2 s'"
    using assms(3,4) by (simp_all add: pass_frame_def o_def)
  have len: "length (ti s2) = length (ti s)" using code(1) by (rule same_code_length)
  have cur: "Suc (curpass s) \<le> curpass s2" "curpass s2 \<le> curpass s'"
    using assms(3,4) by (simp_all add: pass_frame_def)
  have "(passes s j = p \<longrightarrow> passes s' j = p \<or> passes s' j > curpass s)
      \<and> (passes s j \<noteq> p \<longrightarrow> passes s' j = passes s j)" if j: "j < length (ti s)" for j
  proof -
    have le: "passes s j \<le> curpass s" using assms(1) j by (simp add: passes_ok_def)
    let ?c = "Suc (curpass s)"
    let ?q = "in_pass (mark_pass p f l i ?c (ti s ! j))"
    have q: "?q = passes s j \<or> (passes s j = p \<and> ?q = ?c)"
      by (simp add: mark_pass_def)
    have s2: "(?q = ?c \<longrightarrow> passes s2 j = ?c \<or> passes s2 j > ?c) \<and> (?q \<noteq> ?c \<longrightarrow> passes s2 j = ?q)"
      using assms(3) j by (simp add: pass_frame_def)
    have s': "(passes s2 j = p \<longrightarrow> passes s' j = p \<or> passes s' j > curpass s2)
        \<and> (passes s2 j \<noteq> p \<longrightarrow> passes s' j = passes s2 j)"
      using assms(4) j len by (simp add: pass_frame_def)
    show ?thesis
    proof (cases "?q = ?c")
      case True
      with s2 have "passes s2 j > curpass s" by auto
      with assms(2) s' have "passes s' j = passes s2 j" by auto
      moreover have "passes s j = p" using q True le by auto
      ultimately show ?thesis using \<open>passes s2 j > curpass s\<close> by simp
    next
      case False
      with q s2 have "passes s2 j = passes s j" by auto
      moreover have "x > curpass s" if "x > curpass s2" for x using that cur(1) by simp
      ultimately show ?thesis using s' by auto
    qed
  qed
  with code cur assms(4) show ?thesis by (simp add: pass_frame_def)
qed

text \<open>How a call that returns got there.\<close>

lemma cover_insn_cases:
  assumes "cover_insn cur p m s = Inr (r, s')"
  obtains (none) "pass_members (ti s) p = []" "r = None" "s' = s"
  | (leaf) j where "pass_members (ti s) p = [j]" "r = Some (Suc cur)"
      "s' = s\<lparr>automata := (automata s)(cur := LEAF_FLAG OR of_nat j), nuncovered := nuncovered s - 1\<rparr>"
  | (node) len first where "length (pass_members (ti s) p) > 1" "0 < len"
      "longest_match (pass_mask (ti s) p m) = (len, first)"
      "cover_children p first len (submask m first len) (cur + 2) 0 (cur + 2 + 2 ^ len)
         (s\<lparr>automata := (automata s)(cur := of_nat first, Suc cur := mask len)\<rparr>) = Inr (r, s')"
proof -
  let ?ms = "pass_members (ti s) p"
  consider "?ms = []" | j where "?ms = [j]" | "length ?ms > 1"
    by (cases ?ms; cases "tl ?ms") auto
  then show thesis
  proof cases
    case 1
    with assms show thesis by (intro none) (simp_all add: cover_insn.simps)
  next
    case (2 j)
    with assms show thesis by (intro leaf[of j]) (simp_all add: cover_insn.simps)
  next
    case 3
    obtain len first where best: "longest_match (pass_mask (ti s) p m) = (len, first)"
      by (metis surj_pair)
    from 3 have "?ms \<noteq> []" "length ?ms \<noteq> 1" by auto
    with assms best 3 show thesis
      by (intro node[of len first]) (auto simp: cover_insn.simps Let_def split: if_splits)
  qed
qed

lemma cover_children_cases:
  assumes "cover_children p f l m nxt i cur s = Inr (r, s')"
  obtains (finish) "\<not> i < 2 ^ l" "r = Some cur" "s' = s"
  | (step) r2 s2 where "i < 2 ^ l"
      "cover_insn cur (Suc (curpass s)) m (marked p f l i s) = Inr (r2, s2)"
      "cover_children p f l m nxt (Suc i) (case r2 of None \<Rightarrow> cur | Some c \<Rightarrow> c)
         (s2\<lparr>automata := (automata s2)(nxt + i := (case r2 of None \<Rightarrow> 0 | Some _ \<Rightarrow> of_nat cur))\<rparr>)
       = Inr (r, s')"
proof (cases "i < 2 ^ l")
  case True
  from assms True obtain r2 s2 where
    "cover_insn cur (Suc (curpass s)) m (marked p f l i s) = Inr (r2, s2)"
    by (subst (asm) cover_children.simps) (auto simp: Let_def bind_outcome_eq_Inr)
  with assms True show thesis
    by (intro step[of r2 s2]; cases r2) (simp_all add: cover_children.simps[of p f l m nxt i] Let_def)
next
  case False
  with assms show thesis by (intro finish) (simp_all add: cover_children.simps)
qed

lemma passes_ok_automata [simp]:
  "passes_ok (s\<lparr>automata := a\<rparr>) = passes_ok s"
  "pass_frame p (s\<lparr>automata := a\<rparr>) s' = pass_frame p s s'"
  by (simp_all add: passes_ok_def pass_frame_def)

lemma cover_frame:
  "cover_insn cur p m s = Inr (r, s') \<Longrightarrow> passes_ok s \<Longrightarrow> p \<le> curpass s \<Longrightarrow> pass_frame p s s'"
  "cover_children p f l m nxt i cur s = Inr (r, s') \<Longrightarrow> passes_ok s \<Longrightarrow> p \<le> curpass s
     \<Longrightarrow> pass_frame p s s'"
proof (induction cur p m s and p f l m nxt i cur s arbitrary: r s' and r s'
    rule: cover_insn_cover_children.induct)
  case (1 cur pass m s)
  from "1.prems"(1) show ?case
  proof (cases rule: cover_insn_cases)
    case none
    with 1 show ?thesis by (simp add: pass_frame_refl)
  next
    case (leaf j)
    with 1 show ?thesis by (simp add: pass_frame_def passes_ok_def)
  next
    case (node len first)
    then have "pass_members (ti s) pass \<noteq> []" "length (pass_members (ti s) pass) \<noteq> 1" by auto
    from "1.IH"[OF refl this refl] node(2-4) "1.prems"(2,3) show ?thesis by simp
  qed
next
  case (2 pass f l m nxt i cur s)
  from "2.prems"(1) show ?case
  proof (cases rule: cover_children_cases)
    case finish
    with 2 show ?thesis by (simp add: pass_frame_refl)
  next
    case (step r2 s2)
    have fr: "pass_frame (Suc (curpass s)) (marked pass f l i s) s2"
      using "2.IH"(1)[OF step(1) refl step(2)] marked_ok[OF "2.prems"(2)] by simp
    then have ok: "passes_ok s2" "pass \<le> curpass s2"
      using "2.prems"(3) by (simp_all add: pass_frame_def)
    have "pass_frame pass s2 s'"
    proof (cases r2)
      case None
      with "2.IH"(2)[OF step(1) refl step(2) refl None] step(3) ok show ?thesis by simp
    next
      case (Some x)
      with "2.IH"(3)[OF step(1) refl step(2) refl Some] step(3) ok show ?thesis by simp
    qed
    with "2.prems"(2,3) fr show ?thesis by (rule pass_frame_mark)
  qed
qed


section \<open>The walk reaches the matching instruction\<close>

definition members :: "automata_build \<Rightarrow> nat \<Rightarrow> nat set" where
  "members s p = {j. j < length (ti s) \<and> passes s j = p}"

definition field :: "nat \<Rightarrow> nat \<Rightarrow> u64 \<Rightarrow> nat" where
  "field first len w = unat (drop_bit first w AND mask len)"

text \<open>
  From cell \<open>a\<close> the walk ends; whichever of the candidates \<open>G\<close> satisfies \<open>M\<close> is
  the leaf it reaches, and no leaf outside \<open>G\<close> is reached.
\<close>

definition decides :: "(nat \<Rightarrow> u64) \<Rightarrow> u32 \<Rightarrow> (nat \<Rightarrow> bool) \<Rightarrow> nat \<Rightarrow> nat set \<Rightarrow> bool" where
  "decides mem w M a G \<longleftrightarrow>
     (\<exists>r. decode_walk mem w a = Some r \<and> (\<forall>j \<in> G. M j \<longrightarrow> r = Some j)
          \<and> (\<forall>j. r = Some j \<longrightarrow> j \<in> G))"

lemma set_pass_members [simp]: "set (pass_members (ti s) p) = members s p"
  by (auto simp: pass_members_def members_def)

lemma members_automata [simp]: "members (s\<lparr>automata := a\<rparr>) p = members s p"
  by (simp add: members_def)

lemma bit_of_nat_less:
  assumes "k < 2 ^ n"
  shows "\<not> bit (of_nat k :: u64) n"
  using assms by (simp add: bit_of_nat_iff bit_iff_odd[of k])

lemma decode_walk_leaf:
  assumes "mem a = LEAF_FLAG OR of_nat j" "j < 2 ^ 31"
  shows "decode_walk mem w a = Some (Some j)"
proof -
  have "bit (mem a AND LEAF_FLAG) 31"
    using assms(1) by (simp add: LEAF_FLAG_def bit_simps)
  then have "mem a AND LEAF_FLAG \<noteq> 0" by (metis bit_0_eq bot_apply bot_bool_def)
  moreover have "mem a AND 0x7FFFFFFF = take_bit 31 (of_nat j)"
  proof -
    have m: "(0x7FFFFFFF :: u64) = mask 31" by (simp add: mask_eq_exp_minus_1)
    have "take_bit 31 LEAF_FLAG = 0" by (simp add: LEAF_FLAG_def take_bit_eq_mod)
    then show ?thesis using assms(1) unfolding m
      by (simp add: take_bit_eq_mask[symmetric] take_bit_or)
  qed
  moreover have "unat (take_bit 31 (of_nat j :: u64)) = j"
    using assms(2) by (simp add: unsigned_take_bit_eq take_bit_nat_eq_self unat_of_nat)
  ultimately show ?thesis by (subst decode_walk.simps) simp
qed

lemma decode_walk_node:
  assumes "mem a = of_nat first" "first < 32" "mem (Suc a) = mask len"
  shows "decode_walk mem w a =
    (let i = field first len (ucast w) in
     if mem (a + 2 + i) = 0 then Some None else decode_walk mem w (unat (mem (a + 2 + i))))"
proof -
  have "mem a AND LEAF_FLAG = 0"
  proof (rule bit_word_eqI)
    fix n assume "n < LENGTH(64)"
    have "bit LEAF_FLAG n \<longleftrightarrow> n = 31"
      using bit_exp_iff[of 31 n, where 'a = u64] by (auto simp: LEAF_FLAG_def possible_bit_def)
    moreover have "\<not> bit (mem a) 31"
      using bit_of_nat_less[of first 31] assms(1,2) by simp
    ultimately show "bit (mem a AND LEAF_FLAG) n = bit 0 n" by (auto simp: bit_simps)
  qed
  moreover have "unat (ucast (mem a) :: u32) = first"
    using assms(1,2)
    by (simp add: unsigned_ucast_eq unsigned_take_bit_eq unat_of_nat take_bit_nat_eq_self)
  moreover have "ucast (drop_bit first w) = (drop_bit first (ucast w) :: u64)"
    by (rule bit_word_eqI) (auto simp: bit_simps dest: bit_imp_le_length)
  ultimately show ?thesis
    by (subst decode_walk.simps) (simp add: Let_def field_def assms(3))
qed

lemma field_less: "len \<le> 32 \<Longrightarrow> field first len w < 2 ^ len"
  by (simp add: field_def take_bit_eq_mask[symmetric] unsigned_take_bit_eq)

lemma field_of_nat:
  assumes "k < 2 ^ len" "len \<le> 32"
  shows "drop_bit first w AND mask len = of_nat k \<longleftrightarrow> field first len w = k"
proof -
  have "(2::nat) ^ len < 2 ^ 64" using assms(2) by (intro power_strict_increasing) simp_all
  with assms(1) have "unat (of_nat k :: u64) = k" by (simp add: unat_of_nat take_bit_nat_eq_self)
  then show ?thesis by (metis field_def word_unat_eq_iff)
qed

text \<open>A matching word has the instruction's value in every field the mask decides.\<close>

lemma matches_field:
  assumes "insn_matches t w" "drop_bit first (insn_mask t) AND mask len = mask len"
  shows "field first len (ti_insn t) = field first len (ucast w)"
proof -
  have "ti_insn t = insn_mask t AND ucast w" using assms(1) by (simp add: insn_matches_def)
  then have "drop_bit first (ti_insn t) AND mask len
      = (drop_bit first (insn_mask t) AND mask len) AND drop_bit first (ucast w)"
    by (simp add: drop_bit_and and.assoc and.commute and.left_commute)
  then have "drop_bit first (ti_insn t) AND mask len = mask len AND drop_bit first (ucast w)"
    unfolding assms(2) .
  then show ?thesis by (simp add: field_def and.commute)
qed


text \<open>What marking does to the members of a pass whose decided bits cover the field.\<close>

abbreviation covers :: "nat \<Rightarrow> nat \<Rightarrow> automata_build \<Rightarrow> nat \<Rightarrow> bool" where
  "covers first len s j \<equiv> drop_bit first (insn_mask (ti s ! j)) AND mask len = mask len"

abbreviation field_of :: "nat \<Rightarrow> nat \<Rightarrow> automata_build \<Rightarrow> nat \<Rightarrow> nat" where
  "field_of first len s j \<equiv> field first len (ti_insn (ti s ! j))"

lemma members_marked:
  assumes "passes_ok s" "i < 2 ^ len" "len \<le> 32" "\<forall>j \<in> members s p. covers first len s j"
  shows "members (marked p first len i s) (Suc (curpass s)) = {j \<in> members s p. field_of first len s j = i}"
proof (rule set_eqI)
  fix j
  have "passes s j \<noteq> Suc (curpass s)" if "j < length (ti s)"
    using assms(1) that by (auto simp: passes_ok_def)
  then show "j \<in> members (marked p first len i s) (Suc (curpass s))
      \<longleftrightarrow> j \<in> {j \<in> members s p. field_of first len s j = i}"
    using assms(2-4) by (auto simp: members_def mark_pass_def field_of_nat split: if_splits)
qed

lemma members_rest:
  assumes "passes_ok s" "p \<le> curpass s" "i < 2 ^ len" "len \<le> 32"
    "\<forall>j \<in> members s p. covers first len s j"
    "pass_frame (Suc (curpass s)) (marked p first len i s) s2"
  shows "members s2 p = {j \<in> members s p. field_of first len s j \<noteq> i}"
proof (rule set_eqI)
  fix j
  let ?c = "Suc (curpass s)"
  let ?q = "in_pass (mark_pass p first len i ?c (ti s ! j))"
  have len: "length (ti s2) = length (ti s)"
    using assms(6) same_code_length[of "marked p first len i s" s2] by (simp add: pass_frame_def)
  show "j \<in> members s2 p \<longleftrightarrow> j \<in> {j \<in> members s p. field_of first len s j \<noteq> i}"
  proof (cases "j < length (ti s)")
    case True
    have s2: "(?q = ?c \<longrightarrow> passes s2 j = ?c \<or> passes s2 j > ?c) \<and> (?q \<noteq> ?c \<longrightarrow> passes s2 j = ?q)"
      using assms(6) True by (simp add: pass_frame_def)
    have "?q = ?c \<longleftrightarrow> passes s j = p \<and> field_of first len s j = i"
      using assms(1-5) True
      by (auto simp: members_def mark_pass_def passes_ok_def field_of_nat)
    moreover have "?q \<noteq> ?c \<longrightarrow> ?q = passes s j" by (simp add: mark_pass_def)
    ultimately show ?thesis using s2 True len assms(2) by (auto simp: members_def)
  qed (use len in \<open>simp add: members_def\<close>)
qed

lemma decides_empty: "decides mem w M a G \<Longrightarrow> G \<subseteq> G' \<Longrightarrow> \<forall>j \<in> G' - G. \<not> M j \<Longrightarrow> decides mem w M a G'"
  unfolding decides_def by (metis DiffI subsetD)

lemma decides_node:
  assumes node: "mem a = of_nat first" "first < 32" "mem (Suc a) = mask len"
    and M: "\<forall>j \<in> G. M j \<longrightarrow> fld j = field first len (ucast w)"
    and cell: "let c = mem (a + 2 + field first len (ucast w));
                   K = {j \<in> G. fld j = field first len (ucast w)}
               in if c = 0 then K = {} else decides mem w M (unat c) K"
  shows "decides mem w M a G"
proof (cases "mem (a + 2 + field first len (ucast w)) = 0")
  case True
  with cell have "\<forall>j \<in> G. \<not> M j" using M by (auto simp: Let_def)
  with True show ?thesis by (simp add: decides_def decode_walk_node[OF node] Let_def)
next
  case False
  with cell have "decides mem w M (unat (mem (a + 2 + field first len (ucast w))))
      {j \<in> G. fld j = field first len (ucast w)}"
    by (simp add: Let_def)
  then have "decides mem w M (unat (mem (a + 2 + field first len (ucast w)))) G"
    by (rule decides_empty) (use M in auto)
  with False show ?thesis by (simp add: decides_def decode_walk_node[OF node] Let_def)
qed

definition agree :: "nat \<Rightarrow> nat \<Rightarrow> (nat \<Rightarrow> u64) \<Rightarrow> (nat \<Rightarrow> u64) \<Rightarrow> bool" where
  "agree lo hi mem mem' \<longleftrightarrow> (\<forall>a. lo \<le> a \<and> a < hi \<longrightarrow> mem a = mem' a)"

lemma agree_trans:
  "agree lo' hi' mem A' \<Longrightarrow> agree lo hi A' A \<Longrightarrow> lo' \<le> lo \<Longrightarrow> hi \<le> hi' \<Longrightarrow> agree lo hi mem A"
  by (simp add: agree_def)

text \<open>What one cell of a node holds when the node is complete.\<close>

definition cell_ok ::
  "u32 \<Rightarrow> (nat \<Rightarrow> bool) \<Rightarrow> nat \<Rightarrow> nat \<Rightarrow> (nat \<Rightarrow> u64) \<Rightarrow> u64 \<Rightarrow> nat set \<Rightarrow> bool" where
  "cell_ok w M lo hi A c K \<longleftrightarrow>
     (if c = 0 then K = {} else \<forall>mem. agree lo hi mem A \<longrightarrow> decides mem w M (unat c) K)"

lemma cell_ok_mono:
  "cell_ok w M lo hi A c K \<Longrightarrow> agree lo hi A' A \<Longrightarrow> lo' \<le> lo \<Longrightarrow> hi \<le> hi' \<Longrightarrow> cell_ok w M lo' hi' A' c K"
  using agree_trans unfolding cell_ok_def by metis


definition cover_pre :: "u32 \<Rightarrow> (nat \<Rightarrow> bool) \<Rightarrow> nat \<Rightarrow> automata_build \<Rightarrow> bool" where
  "cover_pre w M p s \<longleftrightarrow> passes_ok s \<and> p \<le> curpass s \<and> length (ti s) < 2 ^ 31
     \<and> (\<forall>j < length (ti s). insn_matches (ti s ! j) w = M j)"

definition insn_post ::
  "u32 \<Rightarrow> (nat \<Rightarrow> bool) \<Rightarrow> nat \<Rightarrow> nat \<Rightarrow> automata_build \<Rightarrow> nat option \<Rightarrow> automata_build \<Rightarrow> bool" where
  "insn_post w M cur p s r s' \<longleftrightarrow>
     (case r of
        None \<Rightarrow> members s p = {} \<and> automata s' = automata s
      | Some cur' \<Rightarrow>
          cur < cur' \<and> (\<forall>a. a < cur \<or> cur' \<le> a \<longrightarrow> automata s' a = automata s a)
          \<and> (cur' \<le> 2 ^ 64 \<longrightarrow>
               (\<forall>mem. agree cur cur' mem (automata s') \<longrightarrow> decides mem w M cur (members s p))))"

definition children_post ::
  "u32 \<Rightarrow> (nat \<Rightarrow> bool) \<Rightarrow> nat \<Rightarrow> nat \<Rightarrow> nat \<Rightarrow> nat \<Rightarrow> nat \<Rightarrow> nat \<Rightarrow> automata_build
   \<Rightarrow> nat option \<Rightarrow> automata_build \<Rightarrow> bool" where
  "children_post w M p f l nxt i cur s r s' \<longleftrightarrow>
     (\<exists>cur'. r = Some cur' \<and> cur \<le> cur'
        \<and> (\<forall>a. a < nxt + i \<or> (nxt + 2 ^ l \<le> a \<and> a < cur) \<or> cur' \<le> a
              \<longrightarrow> automata s' a = automata s a)
        \<and> (cur' \<le> 2 ^ 64 \<longrightarrow>
             (\<forall>k. i \<le> k \<and> k < 2 ^ l \<longrightarrow>
                cell_ok w M cur cur' (automata s') (automata s' (nxt + k))
                  {j \<in> members s p. field_of f l s j = k})))"

lemma children_step:
  assumes "i < 2 ^ l" "nxt + 2 ^ l \<le> cur" "0 < cur"
    and one: "insn_post w M cur c s1 r2 s2" and A1: "automata s1 = automata s"
    and mem1: "members s1 c = {j \<in> members s p. field_of f l s j = i}"
    and rest: "children_post w M p f l nxt (Suc i) (case r2 of None \<Rightarrow> cur | Some c \<Rightarrow> c)
        (s2\<lparr>automata := (automata s2)(nxt + i := (case r2 of None \<Rightarrow> 0 | Some _ \<Rightarrow> of_nat cur))\<rparr>) r s'"
    and mem2: "members s2 p = {j \<in> members s p. field_of f l s j \<noteq> i}"
    and code: "\<And>j. j \<in> members s p \<Longrightarrow> field_of f l s2 j = field_of f l s j"
  shows "children_post w M p f l nxt i cur s r s'"
proof -
  let ?cur2 = "case r2 of None \<Rightarrow> cur | Some c \<Rightarrow> c"
  let ?v = "case r2 of None \<Rightarrow> 0 | Some _ \<Rightarrow> (of_nat cur :: u64)"
  obtain cur' where cur': "r = Some cur'" "?cur2 \<le> cur'"
    and frame: "\<And>a. a < nxt + Suc i \<or> (nxt + 2 ^ l \<le> a \<and> a < ?cur2) \<or> cur' \<le> a
      \<Longrightarrow> automata s' a = ((automata s2)(nxt + i := ?v)) a"
    and cells: "\<And>k. cur' \<le> 2 ^ 64 \<Longrightarrow> Suc i \<le> k \<Longrightarrow> k < 2 ^ l \<Longrightarrow>
      cell_ok w M ?cur2 cur' (automata s') (automata s' (nxt + k)) {j \<in> members s2 p. field_of f l s2 j = k}"
    using rest unfolding children_post_def by auto
  have le: "cur \<le> ?cur2" using one by (auto simp: insn_post_def split: option.splits)
  have A2: "automata s2 a = automata s a" if "a < cur \<or> ?cur2 \<le> a" for a
    using one A1 that by (auto simp: insn_post_def split: option.splits)
  have "automata s' a = automata s a" if "a < nxt + i \<or> (nxt + 2 ^ l \<le> a \<and> a < cur) \<or> cur' \<le> a" for a
    using frame[of a] A2[of a] that le cur'(2) assms(1,2) by auto
  moreover have "cell_ok w M cur cur' (automata s') (automata s' (nxt + k))
      {j \<in> members s p. field_of f l s j = k}" if "cur' \<le> 2 ^ 64" "i \<le> k" "k < 2 ^ l" for k
  proof (cases "k = i")
    case False
    have "{j \<in> members s2 p. field_of f l s2 j = k} = {j \<in> members s p. field_of f l s j = k}"
      using mem2 code False by auto
    with cells[of k] that False le show ?thesis
      by (auto intro: cell_ok_mono simp: agree_def)
  next
    case True
    have v: "automata s' (nxt + i) = ?v" using frame[of "nxt + i"] by simp
    show ?thesis
    proof (cases r2)
      case None
      with one mem1 True v show ?thesis by (simp add: insn_post_def cell_ok_def)
    next
      case (Some c2)
      with that(1) cur'(2) have "c2 \<le> 2 ^ 64" "cur < c2"
        using one by (simp_all add: insn_post_def)
      then have u: "unat (of_nat cur :: u64) = cur"
        by (simp add: unat_of_nat take_bit_nat_eq_self)
      then have "(of_nat cur :: u64) \<noteq> 0" using assms(3) by (metis unsigned_0 less_irrefl)
      moreover have "agree cur c2 (automata s') (automata s2)"
        using frame Some assms(1,2) by (auto simp: agree_def)
      ultimately show ?thesis
        using one Some mem1 True v u \<open>c2 \<le> 2 ^ 64\<close> cur'(2)
        by (auto simp: insn_post_def cell_ok_def intro: agree_trans)
    qed
  qed
  ultimately show ?thesis using cur' le unfolding children_post_def by auto
qed


lemma cover_pre_frame:
  assumes "cover_pre w M p s" "pass_frame p' s s'"
  shows "cover_pre w M p s'"
  using assms same_code_length[of s s'] same_code_nth[of s s']
  by (simp add: cover_pre_def pass_frame_def insn_matches_def)

lemma cover_pre_marked:
  "cover_pre w M p s \<Longrightarrow> cover_pre w M (Suc (curpass s)) (marked p f l i s)"
  using marked_ok[of s p f l i] by (simp add: cover_pre_def insn_matches_def)

lemma members_run:
  assumes "run_ok (pass_mask (ti s) p m) (len, first)" "0 < len" "j \<in> members s p"
  shows "covers first len s j"
proof -
  have "bit (insn_mask (ti s ! j)) (first + k)" if "k < len" for k
    using run_ok_bit(1)[OF assms(1), of k] that assms(3)
    by (simp add: pass_mask_def fold_and_subset)
  then show ?thesis by (intro bit_word_eqI) (auto simp: bit_simps)
qed

lemma children_node:
  assumes pre: "cover_pre w M p s" and len: "first < 32" "len \<le> 32"
    and cov: "\<forall>j \<in> members s p. covers first len s j"
    and ch: "children_post w M p first len (cur + 2) 0 (cur + 2 + 2 ^ len)
        (s\<lparr>automata := (automata s)(cur := of_nat first, Suc cur := mask len)\<rparr>) r s'"
  shows "insn_post w M cur p s r s'"
proof -
  obtain cur' where cur': "r = Some cur'" "cur + 2 + 2 ^ len \<le> cur'"
    and frame: "\<And>a. a < cur + 2 \<or> cur' \<le> a \<Longrightarrow>
      automata s' a = ((automata s)(cur := of_nat first, Suc cur := mask len)) a"
    and cells: "\<And>k. cur' \<le> 2 ^ 64 \<Longrightarrow> k < 2 ^ len \<Longrightarrow>
      cell_ok w M (cur + 2 + 2 ^ len) cur' (automata s') (automata s' (cur + 2 + k))
        {j \<in> members s p. field_of first len s j = k}"
    using ch unfolding children_post_def by auto
  have M: "\<forall>j \<in> members s p. M j \<longrightarrow> field_of first len s j = field first len (ucast w)"
    using pre cov by (auto simp: cover_pre_def members_def intro: matches_field)
  have "decides mem w M cur (members s p)" if "cur' \<le> 2 ^ 64" "agree cur cur' mem (automata s')" for mem
  proof (rule decides_node[OF _ len(1) _ M])
    have eq: "mem a = automata s' a" if "cur \<le> a" "a < cur'" for a
      using that \<open>agree cur cur' mem (automata s')\<close> by (simp add: agree_def)
    show "mem cur = of_nat first" "mem (Suc cur) = mask len"
      using eq[of cur] eq[of "Suc cur"] frame[of cur] frame[of "Suc cur"] cur'(2) by auto
    let ?k = "field first len (ucast w)"
    have k: "?k < 2 ^ len" using field_less len(2) by blast
    have "agree (cur + 2 + 2 ^ len) cur' mem (automata s')" using eq by (simp add: agree_def)
    with cells[OF that(1) k] eq[of "cur + 2 + ?k"] k cur'(2)
    show "let c = mem (cur + 2 + ?k); K = {j \<in> members s p. field_of first len s j = ?k}
          in if c = 0 then K = {} else decides mem w M (unat c) K"
      by (simp add: cell_ok_def Let_def)
  qed
  moreover have "automata s' a = automata s a" if "a < cur \<or> cur' \<le> a" for a
    using frame[of a] that cur'(2) by auto
  ultimately show ?thesis using cur' by (simp add: insn_post_def)
qed

lemma cover_decides:
  "cover_insn cur p m s = Inr (r, s') \<Longrightarrow> cover_pre w M p s \<Longrightarrow> insn_post w M cur p s r s'"
  "cover_children p f l m nxt i cur s = Inr (r, s') \<Longrightarrow> cover_pre w M p s \<Longrightarrow>
     l \<le> 32 \<Longrightarrow> nxt + 2 ^ l \<le> cur \<Longrightarrow> 0 < cur \<Longrightarrow> \<forall>j \<in> members s p. covers f l s j \<Longrightarrow>
     children_post w M p f l nxt i cur s r s'"
proof (induction cur p m s and p f l m nxt i cur s arbitrary: r s' and r s'
    rule: cover_insn_cover_children.induct)
  case (1 cur pass m s)
  from "1.prems"(1) show ?case
  proof (cases rule: cover_insn_cases)
    case none
    then show ?thesis using set_pass_members[of s pass] by (simp add: insn_post_def)
  next
    case (leaf j)
    have j: "members s pass = {j}" using leaf(1) set_pass_members[of s pass] by simp
    then have "j \<in> members s pass" by simp
    then have "j < 2 ^ 31" using "1.prems"(2) by (simp add: members_def cover_pre_def)
    then show ?thesis
      using leaf(2,3) j decode_walk_leaf by (auto simp: insn_post_def decides_def agree_def)
  next
    case (node len first)
    then have "pass_members (ti s) pass \<noteq> []" "length (pass_members (ti s) pass) \<noteq> 1" by auto
    note IH = "1.IH"[OF refl this refl]
    have ok: "run_ok (pass_mask (ti s) pass m) (len, first)"
      using longest_match_sound[of "pass_mask (ti s) pass m"] node(3) by simp
    then have le: "first < 32" "len \<le> 32" using node(2) by (auto simp: run_ok_def)
    have cov: "\<forall>j \<in> members s pass. covers first len s j"
      using members_run[OF ok node(2)] by blast
    let ?s = "s\<lparr>automata := (automata s)(cur := of_nat first, Suc cur := mask len)\<rparr>"
    have "cover_pre w M pass ?s" using "1.prems"(2) by (simp add: cover_pre_def)
    with IH node le cov have "children_post w M pass first len (cur + 2) 0 (cur + 2 + 2 ^ len) ?s r s'"
      by simp
    then show ?thesis by (rule children_node[OF "1.prems"(2) le cov])
  qed
next
  case (2 pass f l m nxt i cur s)
  from "2.prems"(1) show ?case
  proof (cases rule: cover_children_cases)
    case finish
    then show ?thesis by (auto simp: children_post_def)
  next
    case (step r2 s2)
    let ?s1 = "marked pass f l i s"
    have ok: "passes_ok s" "pass \<le> curpass s" using "2.prems"(2) by (simp_all add: cover_pre_def)
    have pre1: "cover_pre w M (Suc (curpass s)) ?s1" using "2.prems"(2) by (rule cover_pre_marked)
    then have post: "insn_post w M cur (Suc (curpass s)) ?s1 r2 s2"
      using "2.IH"(1)[OF step(1) refl step(2)] by simp
    have fr: "pass_frame (Suc (curpass s)) ?s1 s2"
      using cover_frame(1)[OF step(2)] pre1 by (simp add: cover_pre_def)
    have mem2: "members s2 pass = {j \<in> members s pass. field_of f l s j \<noteq> i}"
      using members_rest[OF ok step(1) "2.prems"(3,6) fr] .
    have code: "field_of f l s2 j = field_of f l s j" "covers f l s2 j = covers f l s j"
      if "j \<in> members s pass" for j
    proof -
      have "same_code ?s1 s2" using fr by (simp only: pass_frame_def)
      from same_code_nth[OF this, of j] that
      show "field_of f l s2 j = field_of f l s j" "covers f l s2 j = covers f l s j"
        by (simp_all add: members_def)
    qed
    let ?s3 = "\<lambda>v. s2\<lparr>automata := (automata s2)(nxt + i := v)\<rparr>"
    have "cover_pre w M pass s2"
      using cover_pre_frame[OF _ fr, of w M pass] "2.prems"(2) pre1 by (simp add: cover_pre_def)
    then have pre3: "cover_pre w M pass (?s3 v)" for v by (simp add: cover_pre_def)
    have cov3: "\<forall>j \<in> members (?s3 v) pass. covers f l (?s3 v) j" for v
      using "2.prems"(6) code mem2 by simp
    have "children_post w M pass f l nxt (Suc i) (case r2 of None \<Rightarrow> cur | Some c \<Rightarrow> c)
        (?s3 (case r2 of None \<Rightarrow> 0 | Some _ \<Rightarrow> of_nat cur)) r s'"
    proof (cases r2)
      case None
      with "2.IH"(2)[OF step(1) refl step(2) refl None] step(3) pre3 cov3 "2.prems"(3-5)
      show ?thesis by simp
    next
      case (Some x)
      with post have "cur < x" by (simp add: insn_post_def)
      with "2.IH"(3)[OF step(1) refl step(2) refl Some] step(3) pre3 cov3 "2.prems"(3-5) Some
      show ?thesis by simp
    qed
    with members_marked[OF ok(1) step(1) "2.prems"(3,6)] mem2 code(1) post step(1) "2.prems"(4,5)
    show ?thesis by (intro children_step[where s = s and ?s1.0 = ?s1 and ?r2.0 = r2 and ?s2.0 = s2]) simp_all
  qed
qed


section \<open>The decoder is exact\<close>

text \<open>
  An automaton that could be built decodes every word to the entry of the table that matches
  it, and no word matches two entries.
\<close>

lemma passes_initial:
  "passes_ok \<lparr>automata = fresh, ti = map temp_insn ops, curpass = 0, nuncovered = n\<rparr>"
  by (simp add: passes_ok_def temp_insn_def Let_def)

lemma build_automata_decides:
  assumes "build_automata fresh ops = Inr s" "length ops < 2 ^ 31"
  shows "decides (automata s) w (\<lambda>j. insn_matches (temp_insn (ops ! j)) w) 0 {j. j < length ops}"
    and "length (ti s) = length ops"
    and "j < length ops \<Longrightarrow> insn_matches (ti s ! j) w = insn_matches (temp_insn (ops ! j)) w"
proof -
  let ?s0 = "\<lparr>automata = fresh, ti = map temp_insn ops, curpass = 0, nuncovered = int (length ops)\<rparr>"
  let ?M = "\<lambda>j. insn_matches (temp_insn (ops ! j)) w"
  obtain cur where c: "cover_insn 0 0 0xFFFFFFFF ?s0 = Inr (Some cur, s)" "cur \<le> MAX_AUTOMATA_SIZE"
    using assms(1)
    by (auto simp: build_automata_def bind_outcome_eq_Inr split: option.splits if_splits)
  have "cover_pre w ?M 0 ?s0" using assms(2) by (simp add: cover_pre_def passes_initial)
  from cover_decides(1)[OF c(1) this] c(2)
  have "decides (automata s) w ?M 0 (members ?s0 0)"
    by (simp add: insn_post_def MAX_AUTOMATA_SIZE_def agree_def)
  moreover have "members ?s0 0 = {j. j < length ops}"
    by (auto simp: members_def temp_insn_def Let_def)
  ultimately show "decides (automata s) w ?M 0 {j. j < length ops}" by simp
  have "pass_frame 0 ?s0 s" using cover_frame(1)[OF c(1) passes_initial] by simp
  then have code: "same_code ?s0 s" by (simp only: pass_frame_def)
  show "length (ti s) = length ops" using same_code_length[OF code] by simp
  show "insn_matches (ti s ! j) w = ?M j" if "j < length ops"
    using same_code_nth[OF code, of j] that by (simp add: insn_matches_def)
qed

lemma find_first:
  assumes "P j" "j < n" "\<And>k. P k \<Longrightarrow> k < n \<Longrightarrow> k = j"
  shows "find P [0..<n] = Some j"
proof (cases "find P [0..<n]")
  case None
  with assms(1,2) show ?thesis by (auto simp: find_None_iff)
next
  case (Some k)
  then have "P k" "k < n" by (auto simp: find_Some_iff)
  with assms(3) Some show ?thesis by simp
qed

lemma decode_linear:
  assumes b: "build_automata fresh ops = Inr s" "length ops < 2 ^ 31"
  shows "or1ksim_insn_decode s w = Some (linear_decode (map temp_insn ops) w)"
    and "i < length ops \<Longrightarrow> j < length ops \<Longrightarrow> insn_matches (temp_insn (ops ! i)) w \<Longrightarrow>
      insn_matches (temp_insn (ops ! j)) w \<Longrightarrow> i = j"
proof -
  let ?M = "\<lambda>j. insn_matches (temp_insn (ops ! j)) w"
  obtain r where r: "decode_walk (automata s) w 0 = Some r"
    "\<And>j. j < length ops \<Longrightarrow> ?M j \<Longrightarrow> r = Some j" "\<And>j. r = Some j \<Longrightarrow> j < length ops"
    using build_automata_decides(1)[OF b, of w] unfolding decides_def by blast
  show "i = j" if "i < length ops" "j < length ops" "?M i" "?M j"
    using r(2)[of i] r(2)[of j] that by simp
  have find: "find (\<lambda>i. insn_matches (map temp_insn ops ! i) w) [0..<length ops] = find ?M [0..<length ops]"
    by (rule find_cong) auto
  show "or1ksim_insn_decode s w = Some (linear_decode (map temp_insn ops) w)"
  proof (cases "\<exists>j < length ops. ?M j")
    case True
    then obtain j where j: "j < length ops" "?M j" by blast
    then have "r = Some j" by (rule r(2))
    moreover have "find ?M [0..<length ops] = Some j"
    proof (rule find_first)
      show "?M j" "j < length ops" by (fact j)+
      show "k = j" if "?M k" "k < length ops" for k
        using r(2)[OF that(2,1)] \<open>r = Some j\<close> by simp
    qed
    ultimately show ?thesis
      using r(1) j build_automata_decides(3)[OF b j(1), of w] find
      by (simp add: or1ksim_insn_decode_def linear_decode_def)
  next
    case False
    then have "find ?M [0..<length ops] = None" by (auto simp: find_None_iff)
    then show ?thesis
      using r(1,3) False build_automata_decides(3)[OF b, of _ w] find
      by (auto simp: or1ksim_insn_decode_def linear_decode_def split: option.splits)
  qed
qed

end
