(* ===== verification/Automata_Size.thy ===== *)
theory Automata_Size
  imports Decode
begin

text \<open>
  How large the automaton of a table is, and whether it can be built at all, as a function of
  the encodings alone: \<open>cover_size\<close> recurses as \<^verbatim>\<open>cover_insn\<close> does, without the
  array and without the marking of passes. It decides the outcome of
  \<^verbatim>\<open>or1ksim_build_automata\<close> and can be evaluated.
\<close>

type_synonym code = "u64 \<times> u64"

definition codes_mask :: "u32 \<Rightarrow> code list \<Rightarrow> u64" where
  "codes_mask m ts = fold (\<lambda>t c. c AND snd t) ts (ucast m)"

lemma codes_submask_less:
  assumes "longest_match (codes_mask m ts) = best" "fst best \<noteq> 0"
  shows "submask m (snd best) (fst best) < m"
proof -
  have "run_ok (codes_mask m ts) best" using assms(1) longest_match_sound by blast
  moreover have "bit m n" if "bit (codes_mask m ts) n" for n
    using that by (simp add: codes_mask_def fold_and_subset bit_simps)
  ultimately show ?thesis using assms(2) by (rule run_submask_less)
qed

section \<open>The size\<close>

fun sum_sizes :: "nat option list \<Rightarrow> nat option" where
  "sum_sizes [] = Some 0"
| "sum_sizes (x # xs) =
     (case x of None \<Rightarrow> None | Some n \<Rightarrow> map_option (\<lambda>k. n + k) (sum_sizes xs))"

function cover_size :: "u32 \<Rightarrow> code list \<Rightarrow> nat option" where
  "cover_size m ts =
     (if length ts \<le> 1 then Some (length ts)
      else
        (let best = longest_match (codes_mask m ts) in
         if fst best = 0 then None
         else map_option (\<lambda>n. 2 + 2 ^ fst best + n)
                (sum_sizes
                   (map (\<lambda>k. cover_size (submask m (snd best) (fst best))
                              (filter (\<lambda>t. field (snd best) (fst best) (fst t) = k) ts)) [0..<2 ^ fst best]))))"
  by auto
termination
  by (relation "measure (\<lambda>(m, ts). unat m)")
    (auto simp: word_less_nat_alt[symmetric] intro: codes_submask_less[OF refl])
declare cover_size.simps [simp del]

fun group_insert :: "'k \<Rightarrow> 'v \<Rightarrow> ('k \<times> 'v list) list \<Rightarrow> ('k \<times> 'v list) list" where
  "group_insert k v [] = [(k, [v])]"
| "group_insert k v ((k', vs) # gs) =
     (if k = k' then (k', v # vs) # gs else (k', vs) # group_insert k v gs)"

fun groups :: "('v \<Rightarrow> 'k) \<Rightarrow> 'v list \<Rightarrow> ('k \<times> 'v list) list" where
  "groups f [] = []"
| "groups f (v # vs) = group_insert (f v) v (groups f vs)"

lemma map_of_group_insert:
  "map_of (group_insert k v gs) =
     (map_of gs)(k \<mapsto> v # (case map_of gs k of None \<Rightarrow> [] | Some vs \<Rightarrow> vs))"
  by (induction gs) (auto simp: fun_eq_iff)

lemma keys_group_insert: "set (map fst (group_insert k v gs)) = insert k (set (map fst gs))"
  by (induction k v gs rule: group_insert.induct) (simp_all add: insert_commute)

lemma filter_none: "k \<notin> f ` set ts \<Longrightarrow> filter (\<lambda>t. f t = k) ts = []"
  by (induction ts) auto

lemma distinct_group_insert:
  "distinct (map fst gs) \<Longrightarrow> distinct (map fst (group_insert k v gs))"
proof (induction gs)
  case (Cons g gs)
  then show ?case using keys_group_insert[of k v gs] by (cases g) auto
qed simp

lemma groups_keys: "set (map fst (groups f vs)) = f ` set vs"
proof (induction vs)
  case (Cons v vs)
  then show ?case using keys_group_insert[of "f v" v "groups f vs"] by simp
qed simp

lemma groups_distinct: "distinct (map fst (groups f vs))"
  by (induction vs) (simp_all add: distinct_group_insert)

lemma map_of_groups:
  "map_of (groups f vs) k = (if k \<in> f ` set vs then Some (filter (\<lambda>v. f v = k) vs) else None)"
proof (induction vs)
  case (Cons v vs)
  show ?case
    using Cons filter_none[of "f v" f vs]
    by (cases "f v \<in> f ` set vs") (auto simp: map_of_group_insert)
qed simp

lemma sum_sizes_eq:
  "sum_sizes xs = (if None \<in> set xs then None else Some (sum_list (map the xs)))"
  by (induction xs) (auto split: option.splits)

lemma cover_size_Nil [simp]: "cover_size m [] = Some 0"
  by (simp add: cover_size.simps)

lemma sum_sizes_groups:
  assumes "\<And>t. t \<in> set ts \<Longrightarrow> f t < N"
  shows "sum_sizes (map (\<lambda>k. cover_size m (filter (\<lambda>t. f t = k) ts)) [0..<N])
    = sum_sizes (map (\<lambda>(k, g). cover_size m g) (groups f ts))"
proof -
  let ?F = "\<lambda>k. cover_size m (filter (\<lambda>t. f t = k) ts)"
  have g: "g = filter (\<lambda>t. f t = k) ts" "k \<in> f ` set ts" if "(k, g) \<in> set (groups f ts)" for k g
    using map_of_groups[of f ts k] map_of_is_SomeI[OF groups_distinct that]
    by (auto split: if_splits)
  define ks where "ks = map fst (groups f ts)"
  have ks: "set ks = f ` set ts" "distinct ks"
    unfolding ks_def by (rule groups_keys, rule groups_distinct)
  have eq: "map (\<lambda>(k, g). cover_size m g) (groups f ts) = map ?F ks"
    unfolding ks_def using g by auto
  have zero: "?F k = Some 0" if "k \<notin> f ` set ts" for k
    using that by (simp add: filter_none)
  have sub: "f ` set ts \<subseteq> {0..<N}" using assms(1) by auto
  have none: "None \<in> ?F ` {0..<N} \<longleftrightarrow> None \<in> ?F ` set ks"
  proof
    assume "None \<in> ?F ` {0..<N}"
    then obtain k where k: "None = ?F k" by (rule imageE)
    with zero[of k] have "k \<in> set ks" unfolding ks(1) by (metis option.distinct(1))
    then show "None \<in> ?F ` set ks" using k by (rule image_eqI[rotated])
  qed (use sub ks in blast)
  have "sum_list (map (\<lambda>k. the (?F k)) [0..<N]) = (\<Sum>k \<in> {0..<N}. the (?F k))"
    by (simp add: sum_list_distinct_conv_sum_set)
  also have "\<dots> = (\<Sum>k \<in> set ks. the (?F k))"
    using sub zero ks(1) by (intro sum.mono_neutral_right) auto
  also have "\<dots> = sum_list (map (\<lambda>k. the (?F k)) ks)"
    using ks(2) by (simp only: sum_list_distinct_conv_sum_set)
  finally show ?thesis
    unfolding sum_sizes_eq eq using none by (simp add: o_def)
qed

lemma cover_size_groups:
  assumes "longest_match (codes_mask m ts) = (len, first)" "0 < len" "1 < length ts"
  shows "cover_size m ts = map_option (\<lambda>n. 2 + 2 ^ len + n)
    (sum_sizes (map (\<lambda>(k, g). cover_size (submask m first len) g)
       (groups (\<lambda>t. field first len (fst t)) ts)))"
proof -
  have "run_ok (codes_mask m ts) (len, first)" using assms(1) longest_match_sound by metis
  then have "len \<le> 32" using assms(2) by (simp add: run_ok_def)
  then have "sum_sizes (map (\<lambda>k. cover_size (submask m first len) (filter (\<lambda>t. field first len (fst t) = k) ts)) [0..<2 ^ len])
      = sum_sizes (map (\<lambda>(k, g). cover_size (submask m first len) g) (groups (\<lambda>t. field first len (fst t)) ts))"
    by (intro sum_sizes_groups field_less)
  with assms show ?thesis by (subst cover_size.simps) (simp add: Let_def)
qed

lemma cover_size_code:
  "cover_size m ts =
     (if length ts \<le> 1 then Some (length ts)
      else (case longest_match (codes_mask m ts) of (len, first) \<Rightarrow>
        if len = 0 then None
        else map_option (\<lambda>n. 2 + 2 ^ len + n)
          (sum_sizes (map (\<lambda>(k, g). cover_size (submask m first len) g)
             (groups (\<lambda>t. field first len (fst t)) ts)))))"
proof -
  obtain len first where best: "longest_match (codes_mask m ts) = (len, first)" by (metis surj_pair)
  consider "length ts \<le> 1" | "1 < length ts" "len = 0" | "1 < length ts" "0 < len" by linarith
  then show ?thesis
  proof cases
    case 3
    then have "\<not> length ts \<le> 1" "len \<noteq> 0" by simp_all
    then show ?thesis
      by (simp only: cover_size_groups[OF best 3(2,1)] best if_False prod.case)
  qed (use best in \<open>simp_all add: cover_size.simps[of m ts]\<close>)
qed

section \<open>The size is the size of the automaton\<close>

definition codes :: "automata_build \<Rightarrow> nat \<Rightarrow> code list" where
  "codes s p = map (\<lambda>j. (ti_insn (ti s ! j), insn_mask (ti s ! j))) (pass_members (ti s) p)"

lemma pass_mask_codes: "pass_mask (ti s) p m = codes_mask m (codes s p)"
  by (simp add: pass_mask_def codes_mask_def codes_def fold_map o_def)

lemma pass_members_eq:
  "pass_members (ti s) p = filter (\<lambda>j. j \<in> members s p) [0..<length (ti s)]"
  unfolding pass_members_def members_def by (rule filter_cong) auto

lemma codes_filter:
  assumes len: "length (ti s') = length (ti s)"
    and mem: "members s' p' = {j \<in> members s p. P (ti_insn (ti s ! j))}"
    and code: "\<And>j. j \<in> members s p \<Longrightarrow>
      ti_insn (ti s' ! j) = ti_insn (ti s ! j) \<and> insn_mask (ti s' ! j) = insn_mask (ti s ! j)"
  shows "codes s' p' = filter (\<lambda>t. P (fst t)) (codes s p)"
proof -
  have "pass_members (ti s') p' = filter (\<lambda>j. P (ti_insn (ti s ! j))) (pass_members (ti s) p)"
    unfolding pass_members_eq len mem by (simp add: conj_commute)
  moreover have "j \<in> members s p" if "j \<in> set (pass_members (ti s) p)" for j
    using that by simp
  ultimately show ?thesis
    using code by (auto simp: codes_def filter_map o_def intro!: map_cong)
qed

lemma cover_size_zero: "cover_size m ts = Some 0 \<longleftrightarrow> ts = []"
  by (auto simp: cover_size.simps[of m ts] Let_def split: if_splits)

lemma sum_sizes_step:
  assumes "i < n"
  shows "sum_sizes (map f [i..<n]) =
    (case f i of None \<Rightarrow> None | Some a \<Rightarrow> map_option (\<lambda>k. a + k) (sum_sizes (map f [Suc i..<n])))"
  using assms by (simp add: upt_conv_Cons)

lemma cover_size_correct:
  "passes_ok s \<Longrightarrow> p \<le> curpass s \<Longrightarrow>
     (case cover_size m (codes s p) of
        None \<Rightarrow> cover_insn cur p m s = Inl Exit_called
      | Some n \<Rightarrow> \<exists>s'. cover_insn cur p m s = Inr (if n = 0 then None else Some (cur + n), s'))"
  "passes_ok s \<Longrightarrow> p \<le> curpass s \<Longrightarrow> l \<le> 32 \<Longrightarrow> \<forall>j \<in> members s p. covers f l s j \<Longrightarrow>
     (case sum_sizes (map (\<lambda>k. cover_size m (filter (\<lambda>t. field f l (fst t) = k) (codes s p))) [i..<2 ^ l]) of
        None \<Rightarrow> cover_children p f l m nxt i cur s = Inl Exit_called
      | Some n \<Rightarrow> \<exists>s'. cover_children p f l m nxt i cur s = Inr (Some (cur + n), s'))"
proof (induction cur p m s and p f l m nxt i cur s rule: cover_insn_cover_children.induct)
  case (1 cur p m s)
  let ?ms = "pass_members (ti s) p"
  obtain len first where best: "longest_match (codes_mask m (codes s p)) = (len, first)"
    by (metis surj_pair)
  consider "?ms = []" | j where "?ms = [j]" | "1 < length ?ms" "len = 0" | "1 < length ?ms" "0 < len"
    by (cases ?ms; cases "tl ?ms"; cases len) auto
  then show ?case
  proof cases
    case 1
    then show ?thesis by (simp add: codes_def cover_insn.simps)
  next
    case (2 j)
    then show ?thesis by (simp add: codes_def cover_insn.simps cover_size.simps)
  next
    case 3
    then have "?ms \<noteq> []" "length ?ms \<noteq> 1" by auto
    with 3 best show ?thesis
      by (simp add: cover_size.simps[of m "codes s p"] cover_insn.simps[of cur p m s] pass_mask_codes)
        (simp add: codes_def)
  next
    case 4
    then have ms: "?ms \<noteq> []" "length ?ms \<noteq> 1" "\<not> length (codes s p) \<le> 1" by (auto simp: codes_def)
    have ok: "run_ok (pass_mask (ti s) p m) (len, first)"
      using longest_match_sound[of "pass_mask (ti s) p m"] best by (simp add: pass_mask_codes)
    let ?s = "s\<lparr>automata := (automata s)(cur := of_nat first, Suc cur := mask len)\<rparr>"
    have "codes ?s p = codes s p" by (simp add: codes_def)
    moreover have "cover_insn cur p m s =
        cover_children p first len (submask m first len) (cur + 2) 0 (cur + 2 + 2 ^ len) ?s"
      using ms(1,2) best 4(2) by (simp add: cover_insn.simps[of cur p m s] pass_mask_codes)
    moreover have "cover_size m (codes s p) = map_option (\<lambda>n. 2 + 2 ^ len + n) (sum_sizes (map (\<lambda>k.
        cover_size (submask m first len) (filter (\<lambda>t. field first len (fst t) = k) (codes s p))) [0..<2 ^ len]))"
      using ms(3) best 4(2)[THEN less_not_refl2]
      by (subst cover_size.simps) (simp only: Let_def fst_conv snd_conv if_False)
    moreover have "len \<le> 32" "\<forall>j \<in> members s p. covers first len s j"
      using ok members_run[OF ok 4(2)] by (auto simp: run_ok_def 4(2))
    ultimately show ?thesis
      using "1.IH"[OF refl ms(1,2) refl] "1.prems" best 4(2)
      by (auto simp: pass_mask_codes add.assoc split: option.splits)
  qed
next
  case (2 p f l m nxt i cur s)
  show ?case
  proof (cases "i < 2 ^ l")
    case False
    then show ?thesis by (simp add: cover_children.simps)
  next
    case True
    let ?s1 = "marked p f l i s"
    let ?F = "\<lambda>k. cover_size m (filter (\<lambda>t. field f l (fst t) = k) (codes s p))"
    have codes1: "codes ?s1 (Suc (curpass s)) = filter (\<lambda>t. field f l (fst t) = i) (codes s p)"
      using members_marked[OF "2.prems"(1) True "2.prems"(3,4)]
      by (intro codes_filter) (auto simp: members_def)
    have ok1: "passes_ok ?s1" using "2.prems"(1) by (rule marked_ok)
    note IH1 = "2.IH"(1)[OF True refl, unfolded codes1]
    show ?thesis
    proof (cases "?F i")
      case None
      with IH1 ok1 True show ?thesis
        by (simp add: sum_sizes_step cover_children.simps[of p f l m nxt i] Let_def)
    next
      case (Some n)
      then obtain r s2 where c: "cover_insn cur (Suc (curpass s)) m ?s1 = Inr (r, s2)"
        and r: "r = (if n = 0 then None else Some (cur + n))"
        using IH1 ok1 by auto
      have fr: "pass_frame (Suc (curpass s)) ?s1 s2" using cover_frame(1)[OF c ok1] by simp
      then have sc: "same_code ?s1 s2" by (simp only: pass_frame_def)
      have code: "ti_insn (ti s2 ! j) = ti_insn (ti s ! j) \<and> insn_mask (ti s2 ! j) = insn_mask (ti s ! j)"
        if "j \<in> members s p" for j
        using same_code_nth[OF sc, of j] that by (simp add: members_def)
      have mem2: "members s2 p = {j \<in> members s p. field f l (ti_insn (ti s ! j)) \<noteq> i}"
        using members_rest[OF "2.prems"(1,2) True "2.prems"(3,4) fr] .
      then have codes2: "codes s2 p = filter (\<lambda>t. field f l (fst t) \<noteq> i) (codes s p)"
        using same_code_length[OF sc] code by (intro codes_filter) auto
      have rest: "map (\<lambda>k. cover_size m (filter (\<lambda>t. field f l (fst t) = k) (codes s2 p))) [Suc i..<2 ^ l]
          = map ?F [Suc i..<2 ^ l]"
        unfolding codes2 by (intro map_cong refl arg_cong[where f = "cover_size m"]) (auto intro: filter_cong)
      let ?cur = "case r of None \<Rightarrow> cur | Some c \<Rightarrow> c"
      let ?s3 = "s2\<lparr>automata := (automata s2)(nxt + i := (case r of None \<Rightarrow> 0 | Some _ \<Rightarrow> of_nat cur))\<rparr>"
      have step: "cover_children p f l m nxt i cur s = cover_children p f l m nxt (Suc i) ?cur ?s3"
        using True c by (subst cover_children.simps) (simp add: Let_def split: option.split)
      have cov: "\<forall>j \<in> members s2 p. covers f l s2 j" using "2.prems"(4) mem2 code by simp
      have s2: "passes_ok s2" "p \<le> curpass s2"
        using fr "2.prems"(2) by (simp_all add: pass_frame_def)
      have codes3: "codes (s2\<lparr>automata := a\<rparr>) p = codes s2 p" for a by (simp add: codes_def)
      have "case sum_sizes (map ?F [Suc i..<2 ^ l]) of
          None \<Rightarrow> cover_children p f l m nxt (Suc i) ?cur ?s3 = Inl Exit_called
        | Some n \<Rightarrow> \<exists>s'. cover_children p f l m nxt (Suc i) ?cur ?s3 = Inr (Some (?cur + n), s')"
      proof (cases r)
        case None
        from "2.IH"(2)[OF True refl c refl None] cov s2 "2.prems"(3) None rest
        show ?thesis by (simp add: codes3 cong: option.case_cong)
      next
        case (Some x)
        from "2.IH"(3)[OF True refl c refl Some] cov s2 "2.prems"(3) Some rest
        show ?thesis by (simp add: codes3 cong: option.case_cong)
      qed
      then show ?thesis
        using Some r step True by (auto simp: sum_sizes_step add.assoc split: option.splits if_splits)
    qed
  qed
qed


lemma codes_initial:
  "codes \<lparr>automata = fresh, ti = map temp_insn ops, curpass = 0, nuncovered = n\<rparr> 0
     = map (\<lambda>op. (ti_insn (temp_insn op), insn_mask (temp_insn op))) ops"
proof -
  have "pass_members (map temp_insn ops) 0 = [0..<length ops]"
    by (auto simp: pass_members_def temp_insn_def Let_def filter_id_conv)
  then show ?thesis by (auto simp: codes_def intro: nth_equalityI)
qed

text \<open>The outcome of building the automaton, from the size.\<close>

lemma build_automata_size:
  assumes "ops \<noteq> []"
  shows "case cover_size 0xFFFFFFFF (map (\<lambda>op. (ti_insn (temp_insn op), insn_mask (temp_insn op))) ops) of
      None \<Rightarrow> build_automata fresh ops = Inl Exit_called
    | Some n \<Rightarrow>
        if n > MAX_AUTOMATA_SIZE then build_automata fresh ops = Inl Exit_called
        else \<exists>s. build_automata fresh ops = Inr s"
proof -
  let ?s = "\<lparr>automata = fresh, ti = map temp_insn ops, curpass = 0, nuncovered = int (length ops)\<rparr>"
  let ?c = "map (\<lambda>op. (ti_insn (temp_insn op), insn_mask (temp_insn op))) ops"
  from cover_size_correct(1)[OF passes_initial[of fresh ops "int (length ops)"], where p = 0
      and m = "0xFFFFFFFF" and cur = 0]
  have "case cover_size 0xFFFFFFFF ?c of
        None \<Rightarrow> cover_insn 0 0 0xFFFFFFFF ?s = Inl Exit_called
      | Some n \<Rightarrow> \<exists>s'. cover_insn 0 0 0xFFFFFFFF ?s = Inr (if n = 0 then None else Some n, s')"
    by (auto simp: codes_initial split: option.splits)
  moreover have "cover_size 0xFFFFFFFF ?c \<noteq> Some 0" using assms by (simp add: cover_size_zero)
  ultimately show ?thesis
    by (auto simp: build_automata_def split: option.splits)
qed


section \<open>Properties\<close>

text \<open>
  C6: the automaton decodes exactly what a scan of the table decodes. Whenever
  \<^verbatim>\<open>or1ksim_build_automata\<close> succeeds on a table, \<^verbatim>\<open>or1ksim_insn_decode\<close>
  returns for every 32-bit word, with the index of the table entry whose fixed bits the word
  has, or -1 if there is none; and no word has the fixed bits of two entries.
\<close>

theorem insn_decode_exact:
  assumes "build_automata fresh ops = Inr s" and "length ops < 2 ^ 31"
  shows "or1ksim_insn_decode s w = Some (linear_decode (map temp_insn ops) w)
    \<and> (\<forall>i < length ops. \<forall>j < length ops.
         insn_matches (temp_insn (ops ! i)) w \<and> insn_matches (temp_insn (ops ! j)) w \<longrightarrow> i = j)"
  using decode_linear[OF assms] by blast

lemma isalpha_eval:
  "isalpha CHR ''N''" "isalpha CHR ''D''" "\<not> isalpha CHR '' ''"
  by (simp_all add: isalpha_def)

lemma upt_32: "[0..<32] = [0, 1, 2, 3, 4, 5, 6, 7, 8, 9, 10, 11, 12, 13, 14, 15, 16, 17, 18, 19, 20,
  21, 22, 23, 24, 25, 26, 27, 28, 29, 30, 31]"
  by (simp add: upt_rec_numeral upt_rec)

lemmas decode_eval = temp_insn_def insn_extract_def isalpha_eval hex_value_def

lemma jump_codes:
  "map (\<lambda>op. (ti_insn (temp_insn op), insn_mask (temp_insn op))) (take 2 or32_opcodes_1)
     = [(0, 0xFC000000), (0x04000000, 0xFC000000)]"
  by (simp add: or32_opcodes_1_def decode_eval)

lemma jump_size: "cover_size 0xFFFFFFFF [(0, 0xFC000000), (0x04000000, 0xFC000000)] = Some 68"
  by (simp add: cover_size_code codes_mask_def upt_32 longest_match_def longest_at.simps MAX_LEN_def
      field_def mask_eq_exp_minus_1 submask_def)

theorem insn_decode_exact_witness:
  "\<exists>s. build_automata (\<lambda>_. 0) (take 2 or32_opcodes_1) = Inr s
     \<and> or1ksim_insn_decode s 0x04000001 = Some 1"
proof -
  let ?ops = "take 2 or32_opcodes_1"
  have "?ops \<noteq> []" by (simp add: or32_opcodes_1_def)
  from build_automata_size[OF this, of "\<lambda>_. 0"]
  obtain s where s: "build_automata (\<lambda>_. 0) ?ops = Inr s"
    by (auto simp: jump_codes jump_size MAX_AUTOMATA_SIZE_def)
  have "linear_decode (map temp_insn ?ops) 0x04000001 = 1"
    by (simp add: linear_decode_def or32_opcodes_1_def decode_eval insn_matches_def upt_rec_numeral)
  with insn_decode_exact[OF s, of "0x04000001"] s show ?thesis by simp
qed


lemma ambiguous_not_built:
  assumes "a \<in> set ops" "b \<in> set ops" "a \<noteq> b" "length ops < 2 ^ 31"
    "insn_matches (temp_insn a) w" "insn_matches (temp_insn b) w"
  shows "build_automata fresh ops \<noteq> Inr s"
proof
  assume s: "build_automata fresh ops = Inr s"
  from assms(1,2) obtain i j where "i < length ops" "ops ! i = a" "j < length ops" "ops ! j = b"
    by (auto simp: in_set_conv_nth)
  with decode_linear(2)[OF s assms(4), of i j w] assms(3,5,6) show False by auto
qed

text \<open>
  The table of the configuration \<^verbatim>\<open>HAS_CUST\<close> has no automaton. The entries that
  this configuration adds after \<^verbatim>\<open>l.cust8\<close> have the fixed bits of the entries already
  there, so \<^verbatim>\<open>or1ksim_build_automata\<close> cannot succeed, whatever the array holds.
\<close>

lemma has_cust_ambiguous:
  "build_automata fresh (or1ksim_or32_opcodes HAVE_UNSIGNED_XORI @ or32_opcodes_cust) \<noteq> Inr s"
proof (rule ambiguous_not_built[where w = "0xF0000000"])
  let ?a = "or32_entry ''l.cust5'' ''rD,rA,rB,L,K'' ''11 0xC  DDDDD AAAAA BBBB BLLL LLLK KKKK'' ''l_invalid'' 0 it_unknown"
  let ?b = "or32_entry ''l.cust5_1'' ''rD'' ''11 0xC  DDDDD ----- ---- ---- ---- ----'' ''l_invalid'' 0 it_unknown"
  have "?a \<in> set or32_opcodes_4" by (simp add: or32_opcodes_4_def)
  then show "?a \<in> set (or1ksim_or32_opcodes HAVE_UNSIGNED_XORI @ or32_opcodes_cust)"
    by (simp add: or1ksim_or32_opcodes_def)
  have "?b \<in> set or32_opcodes_cust" by (simp add: or32_opcodes_cust_def)
  then show "?b \<in> set (or1ksim_or32_opcodes HAVE_UNSIGNED_XORI @ or32_opcodes_cust)" by simp
  show "?a \<noteq> ?b" by simp
  show "length (or1ksim_or32_opcodes HAVE_UNSIGNED_XORI @ or32_opcodes_cust) < 2 ^ 31"
    by (simp add: or1ksim_or32_opcodes_def or32_opcodes_1_def or32_opcodes_2_def or32_opcodes_3_def
        or32_opcodes_4_def or32_opcodes_cust_def)
  show "insn_matches (temp_insn ?a) 0xF0000000" "insn_matches (temp_insn ?b) 0xF0000000"
    by (simp_all add: insn_matches_def decode_eval isalpha_def)
qed

end
