(* ===== verification/Operands.thy ===== *)
theory Operands
  imports Decode
begin

text \<open>
  Operand descriptors: \<^verbatim>\<open>parse_params\<close> of \<^verbatim>\<open>cpu/or32/or32.c\<close>, which turns
  the operand strings of the instruction table into \<^verbatim>\<open>insn_op_struct\<close> entries, and
  \<^verbatim>\<open>eval_operand_val\<close> of \<^verbatim>\<open>cpu/or32/execute.c\<close>, which extracts an operand from
  an instruction word with them. The table \<^verbatim>\<open>op_data\<close> is a list; while it is being
  built it is kept with the last entry first, so that \<^verbatim>\<open>cur[-1]\<close> is its head.
\<close>

section \<open>Descriptors\<close>

abbreviation (input) OPTYPE_LAST :: u64 where "OPTYPE_LAST \<equiv> 0x80000000"
abbreviation (input) OPTYPE_OP :: u64 where "OPTYPE_OP \<equiv> 0x40000000"
abbreviation (input) OPTYPE_REG :: u64 where "OPTYPE_REG \<equiv> 0x20000000"
abbreviation (input) OPTYPE_SIG :: u64 where "OPTYPE_SIG \<equiv> 0x10000000"
abbreviation (input) OPTYPE_DIS :: u64 where "OPTYPE_DIS \<equiv> 0x08000000"
abbreviation (input) OPTYPE_DST :: u64 where "OPTYPE_DST \<equiv> 0x04000000"
abbreviation (input) OPTYPE_SBIT :: u64 where "OPTYPE_SBIT \<equiv> 0x00001F00"
abbreviation (input) OPTYPE_SHR :: u64 where "OPTYPE_SHR \<equiv> 0x0000001F"
abbreviation (input) OPTYPE_SBIT_SHR :: nat where "OPTYPE_SBIT_SHR \<equiv> 8"
abbreviation (input) MAX_OP_TABLE_SIZE :: nat where "MAX_OP_TABLE_SIZE \<equiv> 1200"

record insn_op_struct =
  op_type :: u64
  op_data :: nat

section \<open>Parsing\<close>

definition letter_signed :: "char \<Rightarrow> bool" where
  "letter_signed l = (case map_of or32_letters l of None \<Rightarrow> False | Some sign \<Rightarrow> sign)"

function num_ones :: "u64 \<Rightarrow> nat" where
  "num_ones v = (if v = 0 then 0 else (if v AND 1 \<noteq> 0 then 1 else 0) + num_ones (drop_bit 1 v))"
  by auto
termination
proof (relation "measure unat")
  fix v :: u64
  assume "v \<noteq> 0"
  then have "0 < unat v" by (simp add: unat_gt_0)
  then show "(drop_bit 1 v, v) \<in> measure unat" by (simp add: unat_drop_bit)
qed simp

declare num_ones.simps [simp del]

text \<open>The two inner loops over one run of ones: the zeros below it, and its length.\<close>

fun skip_zeros :: "nat \<Rightarrow> nat \<Rightarrow> u64 \<Rightarrow> nat" where
  "skip_zeros shr 0 tmp = shr"
| "skip_zeros shr (Suc n) tmp = (if tmp AND 1 \<noteq> 0 then shr else skip_zeros (Suc shr) n (drop_bit 1 tmp))"

fun count_ones :: "nat \<Rightarrow> nat \<Rightarrow> u64 \<Rightarrow> nat" where
  "count_ones k 0 tmp = k"
| "count_ones k (Suc n) tmp = (if tmp AND 1 \<noteq> 0 then count_ones (Suc k) n (drop_bit 1 tmp) else k)"

lemma skip_zeros_bit:
  "w \<noteq> 0 \<Longrightarrow> w = take_bit n w \<Longrightarrow> k \<le> skip_zeros k n w \<and> bit w (skip_zeros k n w - k)"
proof (induction n arbitrary: k w)
  case (Suc n)
  show ?case
  proof (cases "odd w")
    case True
    then show ?thesis by (simp add: bit_0 and_1_zero)
  next
    case False
    have "drop_bit 1 w = take_bit n (drop_bit 1 w)"
      using arg_cong[OF Suc.prems(2), of "drop_bit 1"] by (simp add: drop_bit_take_bit)
    moreover have "drop_bit 1 w \<noteq> 0"
    proof
      assume "drop_bit 1 w = 0"
      then have "\<not> bit w (Suc m)" for m using bit_drop_bit_eq[of 1 w] by (metis bit_0_eq bot_apply bot_bool_def comp_apply plus_1_eq_Suc)
      moreover have "\<not> bit w 0" using False by (simp add: bit_0)
      ultimately have "w = 0" by (intro bit_word_eqI) (metis bit_0_eq bot_apply bot_bool_def not0_implies_Suc)
      with Suc.prems show False by simp
    qed
    ultimately have "Suc k \<le> skip_zeros (Suc k) n (drop_bit 1 w)"
      "bit (drop_bit 1 w) (skip_zeros (Suc k) n (drop_bit 1 w) - Suc k)"
      using Suc.IH by blast+
    then show ?thesis using False by (simp add: bit_drop_bit_eq Suc_diff_Suc Suc_le_lessD and_1_zero)
  qed
qed simp

lemma count_ones_pos: "odd w \<Longrightarrow> 0 < n \<Longrightarrow> 0 < count_ones 0 n w"
proof -
  have mono: "k \<le> count_ones k n w" for k n w by (induction n arbitrary: k w) (auto intro: Suc_leD)
  assume "odd w" "0 < n"
  then show ?thesis using mono[of "Suc 0"] by (cases n) (auto simp: Suc_le_eq and_1_zero)
qed

text \<open>One descriptor per run of ones of the operand's bits, lowest run first.\<close>

function operand_runs :: "u64 \<Rightarrow> u64 \<Rightarrow> insn_op_struct list" where
  "operand_runs type arg =
     (if arg = 0 then []
      else
        (let shr = skip_zeros 0 64 arg;
             n = count_ones 0 64 (drop_bit shr arg)
         in \<lparr>op_type = type OR of_nat shr, op_data = n\<rparr>
            # operand_runs type (arg AND NOT (push_bit shr (mask n)))))"
  by auto
termination
proof (relation "measure (\<lambda>(_, arg). unat arg)")
  fix type arg :: u64 and shr n
  assume arg: "arg \<noteq> 0" and shr: "shr = skip_zeros 0 64 arg" and n: "n = count_ones 0 64 (drop_bit shr arg)"
  have b: "bit arg shr" using skip_zeros_bit[OF arg, of 64 0] shr by (simp add: take_bit_length_eq[where 'a = 64, simplified])
  then have "odd (drop_bit shr arg)" by (simp add: bit_iff_odd_drop_bit)
  then have "0 < n" unfolding n by (rule count_ones_pos) simp
  then have "bit (push_bit shr (mask n) :: u64) shr"
    using bit_imp_le_length[OF b] by (simp add: bit_simps)
  with b have "arg AND NOT (push_bit shr (mask n)) < arg" by (rule and_not_less)
  then show "((type, arg AND NOT (push_bit shr (mask n))), type, arg) \<in> measure (\<lambda>(_, arg). unat arg)"
    by (simp add: word_less_nat_alt)
qed simp

declare operand_runs.simps [simp del]

definition or_type :: "u64 \<Rightarrow> insn_op_struct \<Rightarrow> insn_op_struct" where
  "or_type t op = op\<lparr>op_type := op_type op OR t\<rparr>"

text \<open>
  The loop of \<^verbatim>\<open>parse_params\<close>; \<open>rops\<close> is the table so far, last entry first,
  \<open>num_cur_op\<close> the number of entries of the current operand.
\<close>

fun parse_args ::
  "string \<Rightarrow> u64 \<Rightarrow> nat \<Rightarrow> insn_op_struct list \<Rightarrow> string \<Rightarrow> insn_op_struct list outcome" where
  "parse_args enc type num_cur_op rops [] =
     (case rops of
        [] \<Rightarrow> Inl Undefined_behaviour
      | op # ops \<Rightarrow> Inr (or_type (type OR OPTYPE_OP OR OPTYPE_LAST) op # ops))"
| "parse_args enc type num_cur_op rops (c # cs) =
     (if c = CHR ''r'' then
        parse_args enc
          (type OR OPTYPE_REG OR
             (if (case cs of [] \<Rightarrow> False | d # _ \<Rightarrow> d = CHR ''D'') then OPTYPE_DST else 0))
          num_cur_op rops cs
      else if isalpha c then
        (let arg = insn_extract c enc;
             type = (if letter_signed c
                     then type OR OPTYPE_SIG
                            OR (push_bit OPTYPE_SBIT_SHR (of_nat (num_ones arg - 1)) AND OPTYPE_SBIT)
                     else type);
             runs = operand_runs type arg
         in parse_args enc type (length runs) (rev runs @ rops) cs)
      else if c = CHR ''('' then
        (case rops of
           [] \<Rightarrow> Inl Undefined_behaviour
         | _ # _ \<Rightarrow>
             (case map (or_type (type OR OPTYPE_DIS)) (take num_cur_op rops) @ drop num_cur_op rops of
                [] \<Rightarrow> Inl Undefined_behaviour
              | op # ops \<Rightarrow> parse_args enc 0 0 (or_type OPTYPE_OP op # ops) cs))
      else if c = CHR '','' then
        (case rops of
           [] \<Rightarrow> Inl Undefined_behaviour
         | op # ops \<Rightarrow> parse_args enc 0 num_cur_op (or_type (type OR OPTYPE_OP) op # ops) cs)
      else if c = CHR ''0'' then
        parse_args enc 0 num_cur_op (\<lparr>op_type = type, op_data = 0\<rparr> # rops) cs
      else if c = CHR '')'' then parse_args enc type num_cur_op rops cs
      else Inl Exit_called)"

definition parse_params ::
  "or32_opcode \<Rightarrow> insn_op_struct list \<Rightarrow> insn_op_struct list outcome" where
  "parse_params opcode rops =
     (if args opcode = [] then
        Inr (\<lparr>op_type = OPTYPE_REG OR OPTYPE_OP OR OPTYPE_LAST, op_data = 0\<rparr> # rops)
      else parse_args (encoding opcode) 0 0 rops (args opcode))"

text \<open>
  The second half of \<^verbatim>\<open>or1ksim_build_automata\<close>: the start of every instruction's
  descriptors, \<^verbatim>\<open>or1ksim_op_start\<close>, as an index into the finished table.
\<close>

fun build_operands ::
  "or32_opcode list \<Rightarrow> nat list \<Rightarrow> insn_op_struct list \<Rightarrow> (nat list \<times> insn_op_struct list) outcome" where
  "build_operands [] starts rops = Inr (rev starts, rev rops)"
| "build_operands (opcode # ops) starts rops =
     bind_outcome (parse_params opcode rops) (\<lambda>rops'.
       if length rops' > MAX_OP_TABLE_SIZE then Inl Exit_called
       else build_operands ops (length rops # starts) rops')"

section \<open>Extracting an operand\<close>

text \<open>
  The loop of \<^verbatim>\<open>eval_operand_val\<close> over the descriptors of one operand. It returns the
  value and the type word of the last descriptor it used; running off the table is undefined.
  All values are below \<open>2 ^ 32\<close>, the width of \<^verbatim>\<open>uorreg_t\<close>.
\<close>

fun operand_bits ::
  "u32 \<Rightarrow> u32 \<Rightarrow> nat \<Rightarrow> insn_op_struct list \<Rightarrow> (u32 \<times> u64) outcome" where
  "operand_bits insn operand nbits [] = Inl Undefined_behaviour"
| "operand_bits insn operand nbits (opd # opds) =
     (let operand = operand OR
            push_bit nbits (drop_bit (unat (op_type opd AND OPTYPE_SHR)) insn AND mask (op_data opd))
      in if op_type opd AND OPTYPE_OP \<noteq> 0 then Inr (operand, op_type opd)
         else operand_bits insn operand (nbits + op_data opd) opds)"

definition eval_operand_val :: "u32 \<Rightarrow> insn_op_struct list \<Rightarrow> u32 outcome" where
  "eval_operand_val insn opds =
     bind_outcome (operand_bits insn 0 0 opds) (\<lambda>(operand, type).
       Inr (if type AND OPTYPE_SIG \<noteq> 0 then
              (let sbit = unat (drop_bit OPTYPE_SBIT_SHR (type AND OPTYPE_SBIT))
               in if bit operand sbit then operand OR push_bit sbit (- 1) else operand)
            else operand))"


section \<open>Properties\<close>

lemma sign_extend_or:
  assumes "n < 32"
  shows "(let w = take_bit (Suc n) (v :: u32) in if bit w n then w OR push_bit n (- 1) else w)
    = signed_take_bit n v"
  using assms
  by (intro bit_word_eqI) (auto simp: Let_def bit_simps min_def not_less le_less)

text \<open>
  An immediate that lies in one field of the instruction is sign extended. If its
  descriptor names a field of \<open>n\<close> bits at position \<open>shr\<close>, marks it as signed and as
  complete, and gives bit \<open>n - 1\<close> as the sign bit, \<^verbatim>\<open>eval_operand_val\<close> returns the
  two's complement reading of the field.
\<close>

lemma eval_operand_val_signed:
  assumes "op_type d AND OPTYPE_OP \<noteq> 0" and "op_type d AND OPTYPE_SIG \<noteq> 0"
    and "unat (op_type d AND OPTYPE_SHR) = shr"
    and "unat (drop_bit OPTYPE_SBIT_SHR (op_type d AND OPTYPE_SBIT)) = n"
    and "op_data d = Suc n" and "n < 32"
  shows "eval_operand_val insn (d # ds) = Inr (signed_take_bit n (drop_bit shr insn))"
  using assms sign_extend_or[OF assms(6), of "drop_bit shr insn"]
  by (simp add: eval_operand_val_def take_bit_eq_mask Let_def)

abbreviation l_sw_entry :: or32_opcode where
  "l_sw_entry \<equiv>
     or32_entry ''l.sw'' ''I(rA),rB'' ''11 0x5  IIIII AAAAA BBBB BIII IIII IIII'' ''l_sw'' 0 it_store"

lemma l_sw_extract:
  "insn_extract CHR ''I'' ''11 0x5  IIIII AAAAA BBBB BIII IIII IIII'' = 0x3E007FF"
  "insn_extract CHR ''A'' ''11 0x5  IIIII AAAAA BBBB BIII IIII IIII'' = 0x1F0000"
  "insn_extract CHR ''B'' ''11 0x5  IIIII AAAAA BBBB BIII IIII IIII'' = 0xF800"
  by (simp_all add: insn_extract_def isalpha_def)

lemma runs_eval:
  "num_ones 0x3E007FF = 16"
  "skip_zeros 0 64 0x3E007FF = 0" "count_ones 0 64 0x3E007FF = 11"
  "skip_zeros 0 64 0x3E00000 = 21" "count_ones 0 64 0x1F = 5"
  "skip_zeros 0 64 0x1F0000 = 16" "skip_zeros 0 64 0xF800 = 11"
  by code_simp+

lemma l_sw_runs:
  "operand_runs type 0x3E007FF = [\<lparr>op_type = type, op_data = 11\<rparr>, \<lparr>op_type = type OR 21, op_data = 5\<rparr>]"
  "operand_runs type 0x1F0000 = [\<lparr>op_type = type OR 16, op_data = 5\<rparr>]"
  "operand_runs type 0xF800 = [\<lparr>op_type = type OR 11, op_data = 5\<rparr>]"
  by (simp_all add: operand_runs.simps[of type] runs_eval mask_eq_exp_minus_1)

lemma l_sw_letters:
  "isalpha CHR ''I''" "isalpha CHR ''A''" "isalpha CHR ''B''" "\<not> isalpha CHR ''(''"
  "\<not> isalpha CHR '')''" "\<not> isalpha CHR '',''"
  "letter_signed CHR ''I''" "\<not> letter_signed CHR ''A''" "\<not> letter_signed CHR ''B''"
  by (simp_all add: isalpha_def letter_signed_def or32_letters_def)

lemma l_sw_params:
  "parse_params l_sw_entry [] =
     Inr (rev [\<lparr>op_type = 0x18000F00, op_data = 11\<rparr>, \<lparr>op_type = 0x58000F15, op_data = 5\<rparr>,
               \<lparr>op_type = 0x60000010, op_data = 5\<rparr>, \<lparr>op_type = 0xE000000B, op_data = 5\<rparr>])"
  by (simp add: parse_params_def l_sw_extract l_sw_letters l_sw_runs runs_eval or_type_def)


lemma split_field_sign:
  "(let w = take_bit 11 (insn :: u32) OR push_bit 11 (take_bit 5 (drop_bit 21 insn))
    in if bit w 15 then w OR push_bit 15 (- 1) else w)
   = signed_take_bit 15 (take_bit 11 insn OR push_bit 11 (drop_bit 21 insn))"
  (is "(let w = ?w in _) = signed_take_bit 15 ?v")
proof -
  have "take_bit (Suc 15) ?v = ?w"
    by (rule bit_word_eqI) (auto simp: bit_simps)
  with sign_extend_or[of 15 ?v] show ?thesis by simp
qed

text \<open>
  C36: the operands of a store. Parsing \<^verbatim>\<open>I(rA),rB\<close> against the encoding of
  \<^verbatim>\<open>l.sw\<close> gives descriptors from which \<^verbatim>\<open>eval_operand_val\<close> extracts the
  displacement as the sign extension of the 16-bit number whose upper five bits are bits 25 to
  21 of the instruction and whose lower eleven are bits 10 to 0, and the register numbers as
  bits 20 to 16 and 15 to 11.
\<close>

theorem store_operands:
  "\<exists>ops. parse_params l_sw_entry [] = Inr (rev ops)
     \<and> eval_operand_val insn ops
         = Inr (signed_take_bit 15 (take_bit 11 insn OR push_bit 11 (drop_bit 21 insn)))
     \<and> eval_operand_val insn (drop 2 ops) = Inr (take_bit 5 (drop_bit 16 insn))
     \<and> eval_operand_val insn (drop 3 ops) = Inr (take_bit 5 (drop_bit 11 insn))"
proof -
  let ?ops = "[\<lparr>op_type = 0x18000F00, op_data = 11\<rparr>, \<lparr>op_type = 0x58000F15, op_data = 5\<rparr>,
               \<lparr>op_type = 0x60000010, op_data = 5\<rparr>, \<lparr>op_type = 0xE000000B, op_data = 5\<rparr>]"
  have "eval_operand_val insn ?ops
      = Inr (signed_take_bit 15 (take_bit 11 insn OR push_bit 11 (drop_bit 21 insn)))"
    using split_field_sign[of insn] by (simp add: eval_operand_val_def take_bit_eq_mask[symmetric] Let_def)
  moreover have "eval_operand_val insn (drop 2 ?ops) = Inr (take_bit 5 (drop_bit 16 insn))"
    "eval_operand_val insn (drop 3 ?ops) = Inr (take_bit 5 (drop_bit 11 insn))"
    by (simp_all add: eval_operand_val_def take_bit_eq_mask[symmetric])
  ultimately show ?thesis using l_sw_params by blast
qed

end
