(* ===== verification/Sched.thy ===== *)
theory Sched
  imports Prelude
begin

text \<open>
  The job scheduler, \<^verbatim>\<open>support/sched.c\<close>. The scheduler keeps a linked list of jobs,
  each with the number of clock cycles that have to pass after its predecessor is due
  (\<^verbatim>\<open>time\<close>, a delta), and a pool of free entries. Lists model the two linked lists;
  \<open>Null_deref\<close> is the outcome of following a NULL pointer. The deltas are
  \<^verbatim>\<open>int32_t\<close> in C, where overflow is undefined; they are integers here, and
  \<open>sched_add_int32\<close> below bounds every value the insertion computes.
\<close>

section \<open>State\<close>

text \<open>A function pointer is the guard of \<^verbatim>\<open>sched.c\<close> or a callback of a client.\<close>

datatype 'f job_func = Sched_guard | Job 'f

record 'f sched_entry =
  time :: int
  param :: nat
  func :: "'f job_func"

record 'f scheduler =
  free_job_queue :: "'f sched_entry list"
  job_queue :: "'f sched_entry list"

definition SCHED_HEAP_SIZE :: nat where
  "SCHED_HEAP_SIZE = 128"

definition SCHED_TIME_MAX :: int where
  "SCHED_TIME_MAX = 2147483647"

section \<open>Operations\<close>

text \<open>
  The loop of \<^verbatim>\<open>sched_add\<close>: \<open>prevs\<close> are the entries already passed (the last one
  is \<^verbatim>\<open>prev\<close>), \<open>cur\<close> the rest of the list.
\<close>

fun sched_add_walk ::
  "int \<Rightarrow> int \<Rightarrow> 'f sched_entry list \<Rightarrow> 'f sched_entry list
   \<Rightarrow> int \<times> 'f sched_entry list \<times> 'f sched_entry list" where
  "sched_add_walk job_time alltime prevs [] = (alltime, prevs, [])"
| "sched_add_walk job_time alltime prevs (c # cs) =
     (if alltime < job_time
      then sched_add_walk job_time (case cs of [] \<Rightarrow> alltime | d # _ \<Rightarrow> alltime + time d)
             (prevs @ [c]) cs
      else (alltime, prevs, c # cs))"

text \<open>
  Linking the new entry in: \<open>new_time\<close> as in the two branches on \<^verbatim>\<open>prev\<close>, and
  \<^verbatim>\<open>cur->time -= new_job->time\<close> when there is a successor. The branch without
  \<^verbatim>\<open>prev\<close> has a successor, since the list is not empty.
\<close>

definition sched_insert ::
  "'f job_func \<Rightarrow> nat \<Rightarrow> int \<Rightarrow> 'f sched_entry list \<Rightarrow> 'f sched_entry list" where
  "sched_insert job_func job_param job_time q =
     (let (alltime, prevs, cur) =
            sched_add_walk job_time (case q of [] \<Rightarrow> 0 | c # _ \<Rightarrow> time c) [] q;
          cur_time = (case cur of [] \<Rightarrow> 0 | c # _ \<Rightarrow> time c);
          new_time = (if prevs \<noteq> [] then job_time - (alltime - cur_time)
                      else if job_time \<ge> 0 then job_time else cur_time)
      in prevs @ \<lparr>time = new_time, param = job_param, func = job_func\<rparr>
           # (case cur of [] \<Rightarrow> [] | c # cs \<Rightarrow> c\<lparr>time := time c - new_time\<rparr> # cs))"

definition sched_add ::
  "'f job_func \<Rightarrow> nat \<Rightarrow> int \<Rightarrow> 'f scheduler \<Rightarrow> 'f scheduler outcome" where
  "sched_add job_func job_param job_time s =
     (case job_queue s of
        [] \<Rightarrow> Inl Null_deref
      | _ # _ \<Rightarrow>
          (case free_job_queue s of
             [] \<Rightarrow> Inl Null_deref
           | _ # fs \<Rightarrow>
               Inr (s\<lparr>free_job_queue := fs,
                      job_queue := sched_insert job_func job_param job_time (job_queue s)\<rparr>)))"

definition sched_guard :: "nat \<Rightarrow> 'f scheduler \<Rightarrow> 'f scheduler outcome" where
  "sched_guard dat s =
     (if job_queue s \<noteq> [] then sched_add Sched_guard dat SCHED_TIME_MAX s
      else (case free_job_queue s of
              [] \<Rightarrow> Inl Null_deref
            | e # fs \<Rightarrow>
                Inr (s\<lparr>free_job_queue := fs,
                       job_queue := [e\<lparr>func := Sched_guard, time := SCHED_TIME_MAX\<rparr>]\<rparr>)))"

definition sched_reset :: "'f scheduler \<Rightarrow> 'f scheduler outcome" where
  "sched_reset s =
     sched_guard 0 (s\<lparr>free_job_queue := rev (job_queue s) @ free_job_queue s, job_queue := []\<rparr>)"

text \<open>\<open>fresh\<close> gives the contents of the blocks \<^verbatim>\<open>malloc\<close> returns.\<close>

definition sched_init :: "(nat \<Rightarrow> 'f sched_entry) \<Rightarrow> 'f scheduler outcome" where
  "sched_init fresh =
     sched_guard 0 \<lparr>free_job_queue = rev (map fresh [0..<SCHED_HEAP_SIZE]), job_queue = []\<rparr>"

text \<open>One pass of the loop of \<^verbatim>\<open>do_scheduler\<close>, up to the call of the job.\<close>

definition do_scheduler_unlink ::
  "'f scheduler \<Rightarrow> ('f sched_entry \<times> 'f scheduler) outcome" where
  "do_scheduler_unlink s =
     (case job_queue s of
        tmp # n # rest \<Rightarrow>
          Inr (tmp, s\<lparr>free_job_queue := tmp # free_job_queue s,
                      job_queue := n\<lparr>time := time n + time tmp\<rparr> # rest\<rparr>)
      | _ \<Rightarrow> Inl Null_deref)"

fun sched_remove ::
  "'f job_func \<Rightarrow> nat \<Rightarrow> 'f sched_entry list
   \<Rightarrow> ('f sched_entry \<times> 'f sched_entry list) option" where
  "sched_remove job_func dat [] = None"
| "sched_remove job_func dat (c # cs) =
     (if func c = job_func \<and> param c = dat
      then Some (c, case cs of [] \<Rightarrow> [] | d # ds \<Rightarrow> d\<lparr>time := time d + time c\<rparr> # ds)
      else map_option (\<lambda>(x, cs'). (x, c # cs')) (sched_remove job_func dat cs))"

definition sched_find_remove ::
  "'f job_func \<Rightarrow> nat \<Rightarrow> 'f scheduler \<Rightarrow> 'f scheduler" where
  "sched_find_remove job_func dat s =
     (case sched_remove job_func dat (job_queue s) of
        None \<Rightarrow> s
      | Some (c, q) \<Rightarrow> s\<lparr>job_queue := q, free_job_queue := c # free_job_queue s\<rparr>)"

fun overdue_cycles :: "int \<Rightarrow> 'f sched_entry list \<Rightarrow> int" where
  "overdue_cycles cycles [] = cycles"
| "overdue_cycles cycles (c # cs) =
     (if time c < 0 then overdue_cycles (cycles - time c) cs else cycles)"

definition sched_next_insn ::
  "'f job_func \<Rightarrow> nat \<Rightarrow> 'f scheduler \<Rightarrow> 'f scheduler outcome" where
  "sched_next_insn f dat s = sched_add f dat (overdue_cycles 1 (job_queue s)) s"

section \<open>The abstract view: due times\<close>

text \<open>
  What the list means: every job with the number of cycles from now at which it is due,
  in the order in which the jobs will run.
\<close>

fun due_from :: "int \<Rightarrow> 'f sched_entry list \<Rightarrow> (int \<times> 'f job_func \<times> nat) list" where
  "due_from t [] = []"
| "due_from t (e # es) = (t + time e, func e, param e) # due_from (t + time e) es"

definition due :: "'f sched_entry list \<Rightarrow> (int \<times> 'f job_func \<times> nat) list" where
  "due q = due_from 0 q"

text \<open>The specification of insertion: before the first job that is not due earlier.\<close>

definition insert_due ::
  "int \<Rightarrow> 'f job_func \<times> nat \<Rightarrow> (int \<times> 'f job_func \<times> nat) list
   \<Rightarrow> (int \<times> 'f job_func \<times> nat) list" where
  "insert_due t j xs =
     takeWhile (\<lambda>x. fst x < t) xs @ (t, j) # dropWhile (\<lambda>x. fst x < t) xs"

text \<open>
  A job added for the past of every queued job gets the due time of the first one, as the
  branch \<^verbatim>\<open>job_time >= 0 ? job_time : cur->time\<close> does.
\<close>

definition effective_time :: "int \<Rightarrow> 'f sched_entry list \<Rightarrow> int" where
  "effective_time t q = (if t < 0 \<and> t \<le> time (hd q) then time (hd q) else t)"

text \<open>The queue invariant: only the first delta may be negative.\<close>

definition deltas_ok :: "'f sched_entry list \<Rightarrow> bool" where
  "deltas_ok q \<longleftrightarrow> (\<forall>e \<in> set (tl q). 0 \<le> time e)"


section \<open>Insertion refines the due-time list\<close>

abbreviation total :: "'f sched_entry list \<Rightarrow> int" where
  "total q \<equiv> sum_list (map time q)"

abbreviation hd_time :: "'f sched_entry list \<Rightarrow> int" where
  "hd_time q \<equiv> (case q of [] \<Rightarrow> 0 | c # _ \<Rightarrow> time c)"

lemma due_from_append [simp]:
  "due_from t (xs @ ys) = due_from t xs @ due_from (t + total xs) ys"
  by (induction xs arbitrary: t) (auto simp: add.assoc)

lemma length_due_from [simp]: "length (due_from t q) = length q"
  by (induction q arbitrary: t) auto

lemma map_snd_due_from: "map snd (due_from t q) = map (\<lambda>e. (func e, param e)) q"
  by (induction q arbitrary: t) auto

lemma snd_set_due_from: "snd ` set (due_from t q) = (\<lambda>e. (func e, param e)) ` set q"
  by (metis list.set_map map_snd_due_from)

lemma due_from_last: "xs \<noteq> [] \<Longrightarrow> t + total xs \<in> fst ` set (due_from t xs)"
  by (induction xs arbitrary: t) (force simp: add.assoc)+

text \<open>
  Where the walk stops: it splits the list at the first entry that is due no earlier than
  the new job.
\<close>

lemma sched_add_walk_split:
  assumes "alltime = base + hd_time cs"
  shows "\<exists>xs ys. sched_add_walk t alltime ps cs = (base + total xs + hd_time ys, ps @ xs, ys)
           \<and> cs = xs @ ys \<and> (\<forall>d \<in> fst ` set (due_from base xs). d < t)
           \<and> (ys \<noteq> [] \<longrightarrow> t \<le> base + total xs + hd_time ys)"
  using assms
proof (induction t alltime ps cs arbitrary: base rule: sched_add_walk.induct)
  case (1 job_time alltime prevs)
  then show ?case by simp
next
  case (2 t alltime ps c cs)
  show ?case
  proof (cases "alltime < t")
    case True
    let ?all = "case cs of [] \<Rightarrow> alltime | d # _ \<Rightarrow> alltime + time d"
    have "?all = (base + time c) + hd_time cs"
      using "2.prems" by (cases cs) auto
    from "2.IH"[OF True this] obtain xs ys where IH:
      "sched_add_walk t ?all (ps @ [c]) cs
         = (base + time c + total xs + hd_time ys, (ps @ [c]) @ xs, ys)"
      "cs = xs @ ys" "\<forall>d \<in> fst ` set (due_from (base + time c) xs). d < t"
      "ys \<noteq> [] \<longrightarrow> t \<le> base + time c + total xs + hd_time ys"
      by blast
    then have "sched_add_walk t alltime ps (c # cs)
         = (base + total (c # xs) + hd_time ys, ps @ (c # xs), ys)"
      using True by (simp add: add.assoc)
    moreover have "\<forall>d \<in> fst ` set (due_from base (c # xs)). d < t"
      using IH(3) True "2.prems" by auto
    ultimately show ?thesis using IH(2,4) by (intro exI[of _ "c # xs"] exI[of _ ys]) auto
  next
    case False
    then show ?thesis using "2.prems" by (intro exI[of _ "[]"] exI[of _ "c # cs"]) auto
  qed
qed

lemma sched_insert_cases:
  assumes "q \<noteq> []"
  obtains xs ys n where
    "sched_insert f p t q =
       xs @ \<lparr>time = n, param = p, func = f\<rparr>
         # (case ys of [] \<Rightarrow> [] | c # cs \<Rightarrow> c\<lparr>time := time c - n\<rparr> # cs)"
    "q = xs @ ys" "\<forall>d \<in> fst ` set (due_from 0 xs). d < t"
    "total xs + n = effective_time t q"
    "ys \<noteq> [] \<longrightarrow> effective_time t q \<le> total xs + hd_time ys"
proof -
  obtain xs ys where w:
    "sched_add_walk t (hd_time q) [] q = (total xs + hd_time ys, xs, ys)"
    "q = xs @ ys" "\<forall>d \<in> fst ` set (due_from 0 xs). d < t"
    "ys \<noteq> [] \<longrightarrow> t \<le> total xs + hd_time ys"
    using sched_add_walk_split[of "hd_time q" 0 q t "[]"] by auto
  define n where "n = (if xs \<noteq> [] then t - total xs else if t \<ge> 0 then t else hd_time ys)"
  have eff: "total xs + n = effective_time t q"
  proof (cases xs)
    case Nil
    with w assms have "t \<le> hd_time ys" "q = ys" by auto
    with Nil assms show ?thesis by (cases ys) (auto simp: n_def effective_time_def)
  next
    case (Cons x xs')
    with w(2,3) have "hd q = x" "time x < t" by auto
    with Cons show ?thesis by (auto simp: n_def effective_time_def)
  qed
  have le: "ys \<noteq> [] \<longrightarrow> effective_time t q \<le> total xs + hd_time ys"
    using w(4) eff by (auto simp: n_def split: if_splits)
  have ins: "sched_insert f p t q =
       xs @ \<lparr>time = n, param = p, func = f\<rparr>
         # (case ys of [] \<Rightarrow> [] | c # cs \<Rightarrow> c\<lparr>time := time c - n\<rparr> # cs)"
    using w(1) by (cases ys) (simp_all add: sched_insert_def n_def Let_def)
  show ?thesis by (rule that[OF ins w(2,3) eff le])
qed

lemma sched_insert_due:
  assumes "q \<noteq> []"
  shows "due (sched_insert f p t q) = insert_due (effective_time t q) (f, p) (due q)"
proof -
  obtain xs ys n where *:
    "sched_insert f p t q =
       xs @ \<lparr>time = n, param = p, func = f\<rparr>
         # (case ys of [] \<Rightarrow> [] | c # cs \<Rightarrow> c\<lparr>time := time c - n\<rparr> # cs)"
    "q = xs @ ys" "\<forall>d \<in> fst ` set (due_from 0 xs). d < t"
    "total xs + n = effective_time t q"
    "ys \<noteq> [] \<longrightarrow> effective_time t q \<le> total xs + hd_time ys"
    by (rule sched_insert_cases[OF assms])
  let ?e = "effective_time t q"
  have ge: "t \<le> ?e" by (simp add: effective_time_def)
  have lt: "fst x < ?e" if "x \<in> set (due_from 0 xs)" for x
    using *(3) that ge by force
  have split: "takeWhile (\<lambda>x. fst x < ?e) (due q) = due_from 0 xs"
    "dropWhile (\<lambda>x. fst x < ?e) (due q) = due_from (total xs) ys"
    using *(2,5) lt by (cases ys; simp add: due_def takeWhile_append2 dropWhile_append2)+
  have "due (sched_insert f p t q) = due_from 0 xs @ (?e, f, p) # due_from (total xs) ys"
    using *(1) *(4)[symmetric] by (cases ys) (auto simp: due_def)
  then show ?thesis by (simp add: insert_due_def split)
qed

lemma sched_insert_deltas_ok:
  assumes "q \<noteq> []" and ok: "deltas_ok q"
  shows "deltas_ok (sched_insert f p t q)"
proof -
  obtain xs ys n where *:
    "sched_insert f p t q =
       xs @ \<lparr>time = n, param = p, func = f\<rparr>
         # (case ys of [] \<Rightarrow> [] | c # cs \<Rightarrow> c\<lparr>time := time c - n\<rparr> # cs)"
    "q = xs @ ys" "\<forall>d \<in> fst ` set (due_from 0 xs). d < t"
    "total xs + n = effective_time t q"
    "ys \<noteq> [] \<longrightarrow> effective_time t q \<le> total xs + hd_time ys"
    by (rule sched_insert_cases[OF assms(1)])
  have n: "0 < n" if "xs \<noteq> []"
  proof -
    have "total xs < t" using *(3) due_from_last[OF that, of 0] by auto
    moreover have "t \<le> effective_time t q" by (simp add: effective_time_def)
    ultimately show ?thesis using *(4) by linarith
  qed
  show ?thesis
    using ok n *(1,2,4,5) by (cases xs; cases ys) (auto simp: deltas_ok_def)
qed


section \<open>Removal and firing\<close>

definition remove_due ::
  "'f job_func \<times> nat \<Rightarrow> (int \<times> 'f job_func \<times> nat) list \<Rightarrow> (int \<times> 'f job_func \<times> nat) list" where
  "remove_due j xs = takeWhile (\<lambda>x. snd x \<noteq> j) xs @ tl (dropWhile (\<lambda>x. snd x \<noteq> j) xs)"

text \<open>The queue after \<^verbatim>\<open>sched_find_remove\<close>.\<close>

definition remove_queue ::
  "'f job_func \<Rightarrow> nat \<Rightarrow> 'f sched_entry list \<Rightarrow> 'f sched_entry list" where
  "remove_queue f p q = (case sched_remove f p q of None \<Rightarrow> q | Some (_, q') \<Rightarrow> q')"

lemma sched_remove_None:
  "sched_remove f p q = None \<longleftrightarrow> (f, p) \<notin> (\<lambda>e. (func e, param e)) ` set q"
  by (induction q) (auto split: if_splits)

lemma sched_remove_split:
  "sched_remove f p q = Some (c, q') \<Longrightarrow>
     \<exists>xs ys. q = xs @ c # ys \<and> func c = f \<and> param c = p
       \<and> (\<forall>x \<in> set xs. (func x, param x) \<noteq> (f, p))
       \<and> q' = xs @ (case ys of [] \<Rightarrow> [] | d # ds \<Rightarrow> d\<lparr>time := time d + time c\<rparr> # ds)"
proof (induction q arbitrary: q')
  case (Cons e es)
  show ?case
  proof (cases "func e = f \<and> param e = p")
    case True
    with Cons.prems show ?thesis by (intro exI[of _ "[]"] exI[of _ es]) auto
  next
    case False
    with Cons.prems obtain q'' where q'': "sched_remove f p es = Some (c, q'')" "q' = e # q''"
      by auto
    from Cons.IH[OF q''(1)] obtain xs ys where "es = xs @ c # ys" "func c = f" "param c = p"
      "\<forall>x \<in> set xs. (func x, param x) \<noteq> (f, p)"
      "q'' = xs @ (case ys of [] \<Rightarrow> [] | d # ds \<Rightarrow> d\<lparr>time := time d + time c\<rparr> # ds)"
      by blast
    with False q''(2) show ?thesis by (intro exI[of _ "e # xs"] exI[of _ ys]) auto
  qed
qed simp

lemma remove_due_append:
  "j \<notin> snd ` set xs \<Longrightarrow> remove_due j (xs @ (d, j) # ys) = xs @ ys"
  by (induction xs) (auto simp: remove_due_def)

lemma sched_remove_due_from:
  assumes "sched_remove f p q = Some (c, q')"
  shows "due_from t q' = remove_due (f, p) (due_from t q)"
proof -
  obtain xs ys where *: "q = xs @ c # ys" "func c = f" "param c = p"
    "\<forall>x \<in> set xs. (func x, param x) \<noteq> (f, p)"
    "q' = xs @ (case ys of [] \<Rightarrow> [] | d # ds \<Rightarrow> d\<lparr>time := time d + time c\<rparr> # ds)"
    using sched_remove_split[OF assms] by blast
  have "(f, p) \<notin> snd ` set (due_from t xs)"
    using *(4) by (auto simp: snd_set_due_from)
  then have "remove_due (f, p) (due_from t q) = due_from t xs @ due_from (t + total xs + time c) ys"
    using *(1-3) by (simp add: remove_due_append)
  then show ?thesis by (cases ys) (simp_all add: *(5) algebra_simps)
qed

lemma remove_due_absent: "j \<notin> snd ` set xs \<Longrightarrow> remove_due j xs = xs"
  by (induction xs) (auto simp: remove_due_def)

lemma remove_queue_due: "due (remove_queue f p q) = remove_due (f, p) (due q)"
proof (cases "sched_remove f p q")
  case None
  then have "(f, p) \<notin> snd ` set (due q)"
    unfolding sched_remove_None due_def snd_set_due_from .
  with None show ?thesis by (simp add: remove_queue_def remove_due_absent)
next
  case (Some a)
  then show ?thesis
    by (cases a) (simp add: remove_queue_def due_def sched_remove_due_from)
qed

lemma remove_queue_deltas_ok:
  assumes "deltas_ok q"
  shows "deltas_ok (remove_queue f p q)"
proof (cases "sched_remove f p q")
  case None
  with assms show ?thesis by (simp add: remove_queue_def)
next
  case (Some a)
  then obtain c q' where a: "a = (c, q')" "sched_remove f p q = Some (c, q')" by (cases a) auto
  from sched_remove_split[OF a(2)] obtain xs ys where "q = xs @ c # ys"
    "q' = xs @ (case ys of [] \<Rightarrow> [] | d # ds \<Rightarrow> d\<lparr>time := time d + time c\<rparr> # ds)"
    by blast
  with assms a Some show ?thesis
    by (cases xs; cases ys) (auto simp: remove_queue_def deltas_ok_def)
qed

lemma due_advance:
  "due (c\<lparr>time := time c - n\<rparr> # cs) = map (\<lambda>(d, j). (d - n, j)) (due (c # cs))"
proof -
  have "due_from (t - n) cs = map (\<lambda>(d, j). (d - n, j)) (due_from t cs)" for t
    by (induction cs arbitrary: t) (auto simp: algebra_simps)
  from this[of "time c"] show ?thesis by (simp add: due_def)
qed

text \<open>Taking the first job off leaves the due times of all others as they were.\<close>

lemma do_scheduler_unlink_due:
  "do_scheduler_unlink s = Inr (tmp, s') \<Longrightarrow>
     due (job_queue s) = (time tmp, func tmp, param tmp) # due (job_queue s')"
  by (auto simp: do_scheduler_unlink_def due_def add.commute split: list.splits)

lemma due_sorted:
  assumes "deltas_ok q"
  shows "sorted (map fst (due q))"
proof -
  have from_ok: "sorted (map fst (due_from t q)) \<and> (\<forall>d \<in> fst ` set (due_from t q). t \<le> d)"
    if "\<forall>e \<in> set q. 0 \<le> time e" for t and q :: "'a sched_entry list"
    using that
  proof (induction q arbitrary: t)
    case (Cons e es)
    then have "sorted (map fst (due_from (t + time e) es))"
      "\<forall>d \<in> fst ` set (due_from (t + time e) es). t + time e \<le> d"
      by auto
    with Cons.prems show ?case by fastforce
  qed simp
  show ?thesis
  proof (cases q)
    case (Cons c cs)
    with assms from_ok[of cs "time c"] show ?thesis by (auto simp: due_def deltas_ok_def)
  qed (simp add: due_def)
qed

section \<open>The queue as an interface\<close>

text \<open>
  What a client of the scheduler relies on: a view of the pending jobs with their due
  times, and what adding and removing a job does to it.
\<close>

locale timed_queue =
  fixes add :: "'j \<Rightarrow> int \<Rightarrow> 'q \<Rightarrow> 'q"
    and remove :: "'j \<Rightarrow> 'q \<Rightarrow> 'q"
    and view :: "'q \<Rightarrow> (int \<times> 'j) list"
    and inv :: "'q \<Rightarrow> bool"
  assumes view_add: "inv q \<Longrightarrow> 0 \<le> t \<Longrightarrow>
      view (add j t q) = takeWhile (\<lambda>x. fst x < t) (view q) @ (t, j) # dropWhile (\<lambda>x. fst x < t) (view q)"
    and view_remove: "inv q \<Longrightarrow>
      view (remove j q) = takeWhile (\<lambda>x. snd x \<noteq> j) (view q) @ tl (dropWhile (\<lambda>x. snd x \<noteq> j) (view q))"
    and view_sorted: "inv q \<Longrightarrow> sorted (map fst (view q))"
    and inv_add: "inv q \<Longrightarrow> 0 \<le> t \<Longrightarrow> inv (add j t q)"
    and inv_remove: "inv q \<Longrightarrow> inv (remove j q)"
begin

definition pending :: "'j \<Rightarrow> 'q \<Rightarrow> int list" where
  "pending j q = map fst (filter (\<lambda>x. snd x = j) (view q))"

lemma pending_add_other:
  assumes "inv q" "0 \<le> t" "i \<noteq> j"
  shows "pending i (add j t q) = pending i q"
proof -
  have "filter (\<lambda>x. snd x = i) (view q)
      = filter (\<lambda>x. snd x = i) (takeWhile (\<lambda>x. fst x < t) (view q))
        @ filter (\<lambda>x. snd x = i) (dropWhile (\<lambda>x. fst x < t) (view q))"
    by (simp flip: filter_append)
  with assms show ?thesis by (simp add: pending_def view_add)
qed

lemma pending_remove_other:
  assumes "inv q" "i \<noteq> j"
  shows "pending i (remove j q) = pending i q"
proof -
  have *: "filter (\<lambda>x. snd x = i) (takeWhile (\<lambda>x. snd x \<noteq> j) xs @ tl (dropWhile (\<lambda>x. snd x \<noteq> j) xs))
      = filter (\<lambda>x. snd x = i) xs" for xs :: "(int \<times> 'j) list"
    using assms(2) by (induction xs) auto
  show ?thesis unfolding pending_def view_remove[OF assms(1)] * ..
qed

lemma pending_remove:
  assumes "inv q"
  shows "pending j (remove j q) = tl (pending j q)"
proof -
  have *: "map fst (filter (\<lambda>x. snd x = j)
        (takeWhile (\<lambda>x. snd x \<noteq> j) xs @ tl (dropWhile (\<lambda>x. snd x \<noteq> j) xs)))
      = tl (map fst (filter (\<lambda>x. snd x = j) xs))" for xs :: "(int \<times> 'j) list"
    by (induction xs) auto
  show ?thesis unfolding pending_def view_remove[OF assms] by (rule *)
qed

lemma pending_add_first:
  assumes "inv q" "0 \<le> t" "pending j q = []"
  shows "pending j (add j t q) = [t]"
proof -
  have none: "\<forall>x \<in> set (view q). snd x \<noteq> j"
    using assms(3) by (auto simp: pending_def filter_empty_conv)
  have "filter (\<lambda>x. snd x = j) (takeWhile (\<lambda>x. fst x < t) (view q)) = []"
    "filter (\<lambda>x. snd x = j) (dropWhile (\<lambda>x. fst x < t) (view q)) = []"
    using none by (auto simp: filter_empty_conv dest: set_takeWhileD set_dropWhileD)
  with assms(1,2) show ?thesis by (simp add: pending_def view_add)
qed

text \<open>Removing a job that is pending at most once and adding it again re-arms it.\<close>

lemma rearm:
  assumes "inv q" "0 \<le> t" "length (pending j q) \<le> 1"
  shows "pending j (add j t (remove j q)) = [t]"
proof -
  have "pending j (remove j q) = []"
    using assms(3) by (simp add: pending_remove[OF assms(1)]) (cases "pending j q"; auto)
  with inv_remove[OF assms(1)] assms(2) show ?thesis by (rule pending_add_first)
qed

text \<open>A job is never overtaken by one that is due later.\<close>

lemma first_is_earliest:
  assumes "inv q" "view q = x # xs" "y \<in> set xs"
  shows "fst x \<le> fst y"
  using view_sorted[OF assms(1)] assms(2,3) by auto

end

text \<open>The model's queue provides the interface.\<close>

lemma sched_insert_Nil:
  "0 \<le> t \<Longrightarrow> sched_insert f p t [] = [\<lparr>time = t, param = p, func = f\<rparr>]"
  by (simp add: sched_insert_def)

lemma sched_insert_nonneg_due:
  "0 \<le> t \<Longrightarrow> due (sched_insert f p t q) = insert_due t (f, p) (due q)"
proof (cases "q = []")
  case True
  then show "0 \<le> t \<Longrightarrow> due (sched_insert f p t q) = insert_due t (f, p) (due q)"
    by (simp add: sched_insert_Nil insert_due_def due_def)
next
  case False
  then show "0 \<le> t \<Longrightarrow> due (sched_insert f p t q) = insert_due t (f, p) (due q)"
    by (simp add: sched_insert_due effective_time_def)
qed

lemma sched_insert_nonneg_ok: "deltas_ok q \<Longrightarrow> 0 \<le> t \<Longrightarrow> deltas_ok (sched_insert f p t q)"
  by (cases q) (simp_all add: sched_insert_Nil sched_insert_deltas_ok, simp add: deltas_ok_def)

interpretation tq: timed_queue
  "\<lambda>j t q. sched_insert (fst j) (snd j) t q" "\<lambda>j q. remove_queue (fst j) (snd j) q" due deltas_ok
  by unfold_locales
    (simp_all add: sched_insert_nonneg_due sched_insert_nonneg_ok insert_due_def
      remove_queue_due remove_due_def remove_queue_deltas_ok due_sorted)

section \<open>Reachable schedulers\<close>

text \<open>
  The steps the simulator takes on the scheduler: a client adds or removes a job, the main
  loop lets cycles pass (\<^verbatim>\<open>scheduler.job_queue->time -= ...\<close> in
  \<^verbatim>\<open>exec_main\<close>), \<^verbatim>\<open>do_scheduler\<close> takes the first job off and runs it (what a
  client's job does to the scheduler are further steps; the guard's own work is here), or the
  simulator is reset.
\<close>

inductive sched_step :: "'f scheduler \<Rightarrow> 'f scheduler \<Rightarrow> bool" where
  step_add: "sched_add (Job f) p t s = Inr s' \<Longrightarrow> sched_step s s'"
| step_remove: "sched_step s (sched_find_remove (Job f) p s)"
| step_advance: "job_queue s = c # cs \<Longrightarrow> 0 \<le> n \<Longrightarrow>
    sched_step s (s\<lparr>job_queue := c\<lparr>time := time c - n\<rparr> # cs\<rparr>)"
| step_fire: "do_scheduler_unlink s = Inr (tmp, s') \<Longrightarrow> func tmp = Job f \<Longrightarrow> sched_step s s'"
| step_guard: "do_scheduler_unlink s = Inr (tmp, s') \<Longrightarrow> func tmp = Sched_guard \<Longrightarrow>
    sched_guard (param tmp) s' = Inr s'' \<Longrightarrow> sched_step s s''"
| step_reset: "sched_reset s = Inr s' \<Longrightarrow> sched_step s s'"

inductive sched_reachable :: "'f scheduler \<Rightarrow> bool" where
  reach_init: "sched_init fresh = Inr s \<Longrightarrow> sched_reachable s"
| reach_step: "sched_reachable s \<Longrightarrow> sched_step s s' \<Longrightarrow> sched_reachable s'"

definition guards :: "(int \<times> 'f job_func \<times> nat) list \<Rightarrow> nat" where
  "guards xs = length (filter (\<lambda>x. fst (snd x) = Sched_guard) xs)"

definition sched_inv :: "'f scheduler \<Rightarrow> bool" where
  "sched_inv s \<longleftrightarrow> deltas_ok (job_queue s)
     \<and> length (job_queue s) + length (free_job_queue s) = SCHED_HEAP_SIZE
     \<and> guards (due (job_queue s)) = 1"

lemma guards_insert [simp]:
  "guards (insert_due t (f, p) xs) = guards xs + (if f = Sched_guard then 1 else 0)"
proof -
  have "guards xs = guards (takeWhile (\<lambda>x. fst x < t) xs) + guards (dropWhile (\<lambda>x. fst x < t) xs)"
    unfolding guards_def by (metis filter_append length_append takeWhile_dropWhile_id)
  then show ?thesis by (simp add: guards_def insert_due_def)
qed

lemma guards_remove [simp]: "guards (remove_due (Job f, p) xs) = guards xs"
  by (induction xs) (auto simp: guards_def remove_due_def)

lemma length_insert_due [simp]: "length (insert_due t j xs) = Suc (length xs)"
  by (metis add_Suc_right insert_due_def length_Cons length_append takeWhile_dropWhile_id)

lemma length_due [simp]: "length (due q) = length q"
  by (simp add: due_def)

lemma length_sched_insert [simp]:
  "q \<noteq> [] \<Longrightarrow> length (sched_insert f p t q) = Suc (length q)"
  by (metis length_due length_insert_due sched_insert_due)

lemma sched_inv_nonempty: "sched_inv s \<Longrightarrow> job_queue s \<noteq> []"
  by (auto simp: sched_inv_def guards_def due_def)

lemma sched_add_shape:
  assumes "sched_add f p t s = Inr s'"
  shows "job_queue s \<noteq> []" "job_queue s' = sched_insert f p t (job_queue s)"
    "length (free_job_queue s) = Suc (length (free_job_queue s'))"
  using assms by (auto simp: sched_add_def split: list.splits)

lemma sched_add_inv:
  assumes "sched_add f p t s = Inr s'" "deltas_ok (job_queue s)"
    "length (job_queue s) + length (free_job_queue s) = SCHED_HEAP_SIZE"
    "guards (due (job_queue s)) + (if f = Sched_guard then 1 else 0) = 1"
  shows "sched_inv s'"
  using sched_add_shape[OF assms(1)] assms(2-4)
  by (simp add: sched_inv_def sched_insert_deltas_ok sched_insert_due)

lemma sched_find_remove_inv:
  assumes "sched_inv s"
  shows "sched_inv (sched_find_remove (Job f) p s)"
proof (cases "sched_remove (Job f) p (job_queue s)")
  case None
  with assms show ?thesis by (simp add: sched_find_remove_def)
next
  case (Some a)
  then obtain c q where a: "sched_remove (Job f) p (job_queue s) = Some (c, q)" by (cases a) auto
  then have q: "remove_queue (Job f) p (job_queue s) = q" by (simp add: remove_queue_def)
  obtain xs ys where "job_queue s = xs @ c # ys"
    "q = xs @ (case ys of [] \<Rightarrow> [] | d # ds \<Rightarrow> d\<lparr>time := time d + time c\<rparr> # ds)"
    using sched_remove_split[OF a] by blast
  then have "length (job_queue s) = Suc (length q)" by (cases ys) simp_all
  with assms a remove_queue_deltas_ok[of "job_queue s" "Job f" p]
    remove_queue_due[of "Job f" p "job_queue s"] q
  show ?thesis by (simp add: sched_find_remove_def sched_inv_def)
qed

lemma guard_empty_inv:
  "job_queue s = [] \<Longrightarrow> length (free_job_queue s) = SCHED_HEAP_SIZE \<Longrightarrow>
     \<exists>s'. sched_guard d s = Inr s' \<and> sched_inv s'"
  by (cases "free_job_queue s")
    (auto simp: sched_guard_def sched_inv_def SCHED_HEAP_SIZE_def deltas_ok_def guards_def due_def)

lemma sched_step_inv:
  assumes "sched_step s s'" "sched_inv s"
  shows "sched_inv s'"
  using assms
proof (induction rule: sched_step.induct)
  case (step_add f p t s s')
  then show ?case by (intro sched_add_inv) (auto simp: sched_inv_def)
next
  case (step_remove s f p)
  then show ?case by (rule sched_find_remove_inv)
next
  case (step_advance s c cs n)
  then show ?case
    by (simp add: sched_inv_def deltas_ok_def guards_def due_advance filter_map o_def
        case_prod_unfold)
next
  case (step_fire s tmp s' f)
  then show ?case
    using do_scheduler_unlink_due[OF step_fire.hyps(1)]
    by (auto simp: sched_inv_def guards_def deltas_ok_def do_scheduler_unlink_def split: list.splits)
next
  case (step_guard s tmp s' s'')
  have due: "guards (due (job_queue s')) = 0" and ok: "deltas_ok (job_queue s')"
    "length (job_queue s') + length (free_job_queue s') = SCHED_HEAP_SIZE" "job_queue s' \<noteq> []"
    using step_guard do_scheduler_unlink_due[OF step_guard.hyps(1)]
    by (auto simp: sched_inv_def guards_def deltas_ok_def do_scheduler_unlink_def split: list.splits)
  with step_guard.hyps(3) show ?case
    by (intro sched_add_inv[of Sched_guard]) (auto simp: sched_guard_def)
next
  case (step_reset s s')
  then show ?case
    using guard_empty_inv[of "s\<lparr>free_job_queue := rev (job_queue s) @ free_job_queue s, job_queue := []\<rparr>" 0]
    by (auto simp: sched_reset_def sched_inv_def)
qed

lemma sched_reachable_inv: "sched_reachable s \<Longrightarrow> sched_inv s"
proof (induction rule: sched_reachable.induct)
  case (reach_init fresh s)
  then show ?case
    using guard_empty_inv[of "\<lparr>free_job_queue = rev (map fresh [0..<SCHED_HEAP_SIZE]), job_queue = []\<rparr>" 0]
    by (auto simp: sched_init_def)
next
  case (reach_step s s')
  then show ?case by (blast intro: sched_step_inv)
qed

lemma sched_add_returns:
  assumes "job_queue s \<noteq> []" "free_job_queue s \<noteq> []"
  shows "\<exists>s'. sched_add f p t s = Inr s' \<and> free_job_queue s' = tl (free_job_queue s)
    \<and> due (job_queue s') = insert_due (effective_time t (job_queue s)) (f, p) (due (job_queue s))"
  using assms sched_insert_due[OF assms(1)]
  by (cases "job_queue s"; cases "free_job_queue s") (auto simp: sched_add_def)

lemma set_insert_due: "set (insert_due t j xs) = insert (t, j) (set xs)"
  by (metis Un_insert_right insert_due_def list.simps(15) set_append takeWhile_dropWhile_id)

section \<open>Properties\<close>

text \<open>
  C10: adding a job refines insertion into the list of due times. When the queue is not empty
  and a free entry is left, \<^verbatim>\<open>sched_add\<close> returns, takes one entry from the pool, and the
  new job is due exactly \<open>t\<close> cycles from now, placed before every job that is not due
  earlier, while every other job keeps the cycle it was due at. (A time in the past of the
  whole queue becomes the due time of the first job.)
\<close>

theorem sched_add_refines:
  assumes "job_queue s \<noteq> []" and "free_job_queue s \<noteq> []"
  shows "\<exists>s'. sched_add f p t s = Inr s'
    \<and> free_job_queue s' = tl (free_job_queue s)
    \<and> due (job_queue s') = insert_due (effective_time t (job_queue s)) (f, p) (due (job_queue s))"
  using assms by (rule sched_add_returns)

theorem sched_add_refines_witness:
  "\<exists>s'. sched_add (Job ()) 7 4
       \<lparr>free_job_queue = [\<lparr>time = 0, param = 0, func = Sched_guard\<rparr>],
        job_queue = [\<lparr>time = 3, param = 0, func = Job ()\<rparr>, \<lparr>time = 5, param = 0, func = Sched_guard\<rparr>]\<rparr>
     = Inr s' \<and> due (job_queue s') = [(3, Job (), 0), (4, Job (), 7), (8, Sched_guard, 0)]"
  using sched_add_refines[of "\<lparr>free_job_queue = [\<lparr>time = 0, param = 0, func = Sched_guard\<rparr>],
        job_queue = [\<lparr>time = 3, param = 0, func = Job ()\<rparr>, \<lparr>time = 5, param = 0, func = Sched_guard\<rparr>]\<rparr>"
      "Job ()" 7 4]
  by (auto simp: due_def insert_due_def effective_time_def)

text \<open>
  C12: removing a job removes its first occurrence from the list of due times and nothing
  else: every job that stays keeps the cycle it was due at, because the delta of the removed
  job is given to its successor.
\<close>

theorem sched_find_remove_refines:
  "due (job_queue (sched_find_remove f p s)) = remove_due (f, p) (due (job_queue s))"
  using remove_queue_due[of f p "job_queue s"]
  by (auto simp: sched_find_remove_def remove_queue_def split: option.splits)

text \<open>
  C17: the invariant of the scheduler. In every state reachable from \<^verbatim>\<open>sched_init\<close>, the
  jobs are queued in the order of their due times, exactly one guard is queued, and the queue
  and the pool together hold the 128 entries that were allocated.
\<close>

theorem sched_reachable_invariant:
  assumes "sched_reachable s"
  shows "sorted (map fst (due (job_queue s))) \<and> guards (due (job_queue s)) = 1
    \<and> length (job_queue s) + length (free_job_queue s) = SCHED_HEAP_SIZE"
  using sched_reachable_inv[OF assms] by (auto simp: sched_inv_def due_sorted)

lemma sched_init_returns:
  "\<exists>s :: 'f scheduler. sched_init (\<lambda>_. \<lparr>time = 0, param = 0, func = Sched_guard\<rparr>) = Inr s
     \<and> job_queue s = [\<lparr>time = SCHED_TIME_MAX, param = 0, func = Sched_guard\<rparr>]"
proof -
  have "rev (map (\<lambda>_. c) [0..<SCHED_HEAP_SIZE]) = c # replicate 127 c" for c :: "'f sched_entry"
  proof -
    have "rev (map (\<lambda>_. c) [0..<SCHED_HEAP_SIZE]) = replicate (Suc 127) c"
      by (simp only: rev_map map_replicate_const length_rev length_upt SCHED_HEAP_SIZE_def) simp
    then show ?thesis by (simp only: replicate_Suc)
  qed
  then show ?thesis by (simp add: sched_init_def sched_guard_def)
qed

theorem sched_reachable_invariant_witness:
  "\<exists>s :: unit scheduler. sched_reachable s
     \<and> length (job_queue s) + length (free_job_queue s) = SCHED_HEAP_SIZE"
proof -
  obtain s :: "unit scheduler" where
    "sched_init (\<lambda>_. \<lparr>time = 0, param = 0, func = Sched_guard\<rparr>) = Inr s"
    using sched_init_returns by blast
  then have "sched_reachable s" by (rule reach_init)
  with sched_reachable_invariant[OF this] show ?thesis by blast
qed

text \<open>
  C37: the one way in which \<^verbatim>\<open>do_scheduler\<close> follows a NULL pointer. In a reachable state,
  taking the first job off the queue faults exactly when the guard is the only job: the loop
  adds the delta of the removed job to \<^verbatim>\<open>scheduler.job_queue->time\<close> before it calls the
  guard, whose branch for an empty queue therefore never runs.
\<close>

theorem do_scheduler_idle_fault:
  assumes "sched_reachable s"
  shows "do_scheduler_unlink s = Inl Null_deref
    \<longleftrightarrow> (\<exists>e. job_queue s = [e] \<and> func e = Sched_guard)"
proof -
  have "sched_inv s" by (rule sched_reachable_inv[OF assms])
  then have "job_queue s \<noteq> []" "guards (due (job_queue s)) = 1"
    by (simp_all add: sched_inv_nonempty) (simp add: sched_inv_def)
  then show ?thesis
    by (auto simp: do_scheduler_unlink_def guards_def due_def split: list.splits if_splits)
qed

theorem do_scheduler_idle_fault_witness:
  "\<exists>s :: unit scheduler. sched_reachable s \<and> time (hd (job_queue s)) \<le> 0
     \<and> do_scheduler_unlink s = Inl Null_deref"
proof -
  obtain s :: "unit scheduler" where
    s: "sched_init (\<lambda>_. \<lparr>time = 0, param = 0, func = Sched_guard\<rparr>) = Inr s"
    "job_queue s = [\<lparr>time = SCHED_TIME_MAX, param = 0, func = Sched_guard\<rparr>]"
    using sched_init_returns by blast
  let ?s = "s\<lparr>job_queue := [\<lparr>time = 0, param = 0, func = Sched_guard\<rparr>]\<rparr>"
  have "sched_step s ?s"
    using step_advance[OF s(2), of SCHED_TIME_MAX] by (simp add: SCHED_TIME_MAX_def)
  with s(1) have "sched_reachable ?s" by (blast intro: sched_reachable.intros)
  with do_scheduler_idle_fault[OF this] show ?thesis by (intro exI[of _ ?s]) simp
qed

lemma due_bounds_deltas:
  assumes "\<forall>e \<in> set q. 0 \<le> time e" "\<forall>d \<in> fst ` set (due_from t q). d \<le> m" "0 \<le> t"
  shows "\<forall>e \<in> set q. time e \<le> m"
  using assms
proof (induction q arbitrary: t)
  case (Cons e es)
  then have "0 \<le> time e" "t + time e \<le> m" "0 \<le> t + time e" by auto
  moreover from this Cons.prems have "\<forall>e \<in> set es. time e \<le> m"
    by (intro Cons.IH[of "t + time e"]) auto
  ultimately show ?case using Cons.prems(3) by auto
qed simp

text \<open>
  The arithmetic of an insertion stays in \<^verbatim>\<open>int32_t\<close>. If every queued job is due at
  a non-negative time that fits, so is the new one, and so are all the deltas stored.
\<close>

lemma sched_add_int32:
  assumes "sched_add f p t s = Inr s'" and "deltas_ok (job_queue s)"
    and "\<forall>d \<in> fst ` set (due (job_queue s)). 0 \<le> d \<and> d \<le> SCHED_TIME_MAX"
    and "0 \<le> t" and "t \<le> SCHED_TIME_MAX"
  shows "(\<forall>d \<in> fst ` set (due (job_queue s')). 0 \<le> d \<and> d \<le> SCHED_TIME_MAX)
    \<and> (\<forall>e \<in> set (job_queue s'). 0 \<le> time e \<and> time e \<le> SCHED_TIME_MAX)"
proof -
  note shape = sched_add_shape[OF assms(1)]
  have due: "\<forall>d \<in> fst ` set (due (job_queue s')). 0 \<le> d \<and> d \<le> SCHED_TIME_MAX"
    using assms(3-5) shape(2) by (auto simp: sched_insert_nonneg_due set_insert_due)
  have "deltas_ok (job_queue s')"
    using shape(2) assms(2,4) by (simp add: sched_insert_nonneg_ok)
  with due have "\<forall>e \<in> set (job_queue s'). 0 \<le> time e"
    by (cases "job_queue s'") (auto simp: deltas_ok_def due_def)
  with due due_bounds_deltas[of "job_queue s'" 0 SCHED_TIME_MAX] show ?thesis
    by (auto simp: due_def)
qed

text \<open>
  When a job scheduled for the next instruction is due. With no overdue job in front it
  is due in one cycle; behind an overdue job it is due later, by as many cycles as that job
  is overdue.
\<close>

lemma sched_next_insn_due:
  assumes "deltas_ok (job_queue s)" and "job_queue s \<noteq> []" and "free_job_queue s \<noteq> []"
  shows "\<exists>s'. sched_next_insn f p s = Inr s'
    \<and> due (job_queue s') =
        insert_due (1 + (if time (hd (job_queue s)) < 0 then - time (hd (job_queue s)) else 0))
          (f, p) (due (job_queue s))"
proof -
  let ?q = "job_queue s"
  have tail: "overdue_cycles n cs = n" if "\<forall>e \<in> set cs. 0 \<le> time e" for n and cs :: "'a sched_entry list"
    using that by (cases cs) auto
  have "overdue_cycles 1 ?q = 1 + (if time (hd ?q) < 0 then - time (hd ?q) else 0)" (is "_ = ?t")
    using assms(1,2) tail by (cases ?q) (auto simp: deltas_ok_def)
  moreover have "effective_time ?t ?q = ?t"
    by (auto simp: effective_time_def)
  ultimately show ?thesis
    using sched_add_returns[OF assms(2,3), of f p ?t] by (auto simp: sched_next_insn_def)
qed

end
