(* ===== verification/Machine.thy ===== *)
theory Machine
  imports Sched
begin

text \<open>
  The state of the simulated processor, shared by every component of the core: the
  \<^verbatim>\<open>cpu_state\<close> structure of \<^verbatim>\<open>cpu/common/execute.h\<close>, the counters of
  \<^verbatim>\<open>runtime\<close> and the switches of \<^verbatim>\<open>config\<close> of \<^verbatim>\<open>sim-config.h\<close>, and
  the file-level variables of the components that only need the processor (exceptions,
  interrupt controller, tick timer, memory management, debug unit). Components with state of
  their own extend the record. The special purpose registers are an array indexed by the
  numbers of \<^verbatim>\<open>cpu/or1k/spr-defs.h\<close>, whose register numbers and field masks are
  abbreviations, so that simplification decides them. Counters of \<^verbatim>\<open>long long\<close> and
  \<^verbatim>\<open>int\<close> type are integers.
\<close>

section \<open>Special purpose registers\<close>

abbreviation (input) SPR_VR :: nat where "SPR_VR \<equiv> 0"
abbreviation (input) SPR_UPR :: nat where "SPR_UPR \<equiv> 1"
abbreviation (input) SPR_CPUCFGR :: nat where "SPR_CPUCFGR \<equiv> 2"
abbreviation (input) SPR_DMMUCFGR :: nat where "SPR_DMMUCFGR \<equiv> 3"
abbreviation (input) SPR_IMMUCFGR :: nat where "SPR_IMMUCFGR \<equiv> 4"
abbreviation (input) SPR_DCCFGR :: nat where "SPR_DCCFGR \<equiv> 5"
abbreviation (input) SPR_ICCFGR :: nat where "SPR_ICCFGR \<equiv> 6"
abbreviation (input) SPR_AECR :: nat where "SPR_AECR \<equiv> 0xc"
abbreviation (input) SPR_AESR :: nat where "SPR_AESR \<equiv> 0xd"
abbreviation (input) SPR_NPC :: nat where "SPR_NPC \<equiv> 0x10"
abbreviation (input) SPR_SR :: nat where "SPR_SR \<equiv> 0x11"
abbreviation (input) SPR_PPC :: nat where "SPR_PPC \<equiv> 0x12"
abbreviation (input) SPR_FPCSR :: nat where "SPR_FPCSR \<equiv> 0x14"
abbreviation (input) SPR_EPCR_BASE :: nat where "SPR_EPCR_BASE \<equiv> 0x20"
abbreviation (input) SPR_EEAR_BASE :: nat where "SPR_EEAR_BASE \<equiv> 0x30"
abbreviation (input) SPR_ESR_BASE :: nat where "SPR_ESR_BASE \<equiv> 0x40"
abbreviation (input) SPR_DCCR :: nat where "SPR_DCCR \<equiv> 0x1800"
abbreviation (input) SPR_DCBPR :: nat where "SPR_DCBPR \<equiv> 0x1801"
abbreviation (input) SPR_DCBFR :: nat where "SPR_DCBFR \<equiv> 0x1802"
abbreviation (input) SPR_DCBIR :: nat where "SPR_DCBIR \<equiv> 0x1803"
abbreviation (input) SPR_DCBWR :: nat where "SPR_DCBWR \<equiv> 0x1804"
abbreviation (input) SPR_DCBLR :: nat where "SPR_DCBLR \<equiv> 0x1805"
abbreviation (input) SPR_ICCR :: nat where "SPR_ICCR \<equiv> 0x2000"
abbreviation (input) SPR_ICBPR :: nat where "SPR_ICBPR \<equiv> 0x2001"
abbreviation (input) SPR_ICBIR :: nat where "SPR_ICBIR \<equiv> 0x2002"
abbreviation (input) SPR_ICBLR :: nat where "SPR_ICBLR \<equiv> 0x2003"
abbreviation (input) SPR_MACLO :: nat where "SPR_MACLO \<equiv> 0x2801"
abbreviation (input) SPR_MACHI :: nat where "SPR_MACHI \<equiv> 0x2802"
abbreviation (input) SPR_DMR1 :: nat where "SPR_DMR1 \<equiv> 0x3010"
abbreviation (input) SPR_DMR2 :: nat where "SPR_DMR2 \<equiv> 0x3011"
abbreviation (input) SPR_DWCR0 :: nat where "SPR_DWCR0 \<equiv> 0x3012"
abbreviation (input) SPR_DWCR1 :: nat where "SPR_DWCR1 \<equiv> 0x3013"
abbreviation (input) SPR_DSR :: nat where "SPR_DSR \<equiv> 0x3014"
abbreviation (input) SPR_DRR :: nat where "SPR_DRR \<equiv> 0x3015"
abbreviation (input) SPR_PMR :: nat where "SPR_PMR \<equiv> 0x4000"
abbreviation (input) SPR_PICMR :: nat where "SPR_PICMR \<equiv> 0x4800"
abbreviation (input) SPR_PICSR :: nat where "SPR_PICSR \<equiv> 0x4802"
abbreviation (input) SPR_TTMR :: nat where "SPR_TTMR \<equiv> 0x5000"
abbreviation (input) SPR_TTCR :: nat where "SPR_TTCR \<equiv> 0x5001"

abbreviation (input) SPR_SR_SM :: u32 where "SPR_SR_SM \<equiv> 0x1"
abbreviation (input) SPR_SR_TEE :: u32 where "SPR_SR_TEE \<equiv> 0x2"
abbreviation (input) SPR_SR_IEE :: u32 where "SPR_SR_IEE \<equiv> 0x4"
abbreviation (input) SPR_SR_DCE :: u32 where "SPR_SR_DCE \<equiv> 0x8"
abbreviation (input) SPR_SR_ICE :: u32 where "SPR_SR_ICE \<equiv> 0x10"
abbreviation (input) SPR_SR_DME :: u32 where "SPR_SR_DME \<equiv> 0x20"
abbreviation (input) SPR_SR_IME :: u32 where "SPR_SR_IME \<equiv> 0x40"
abbreviation (input) SPR_SR_LEE :: u32 where "SPR_SR_LEE \<equiv> 0x80"
abbreviation (input) SPR_SR_CE :: u32 where "SPR_SR_CE \<equiv> 0x100"
abbreviation (input) SPR_SR_F :: u32 where "SPR_SR_F \<equiv> 0x200"
abbreviation (input) SPR_SR_CY :: u32 where "SPR_SR_CY \<equiv> 0x400"
abbreviation (input) SPR_SR_OV :: u32 where "SPR_SR_OV \<equiv> 0x800"
abbreviation (input) SPR_SR_OVE :: u32 where "SPR_SR_OVE \<equiv> 0x1000"
abbreviation (input) SPR_SR_DSX :: u32 where "SPR_SR_DSX \<equiv> 0x2000"
abbreviation (input) SPR_SR_EPH :: u32 where "SPR_SR_EPH \<equiv> 0x4000"
abbreviation (input) SPR_SR_FO :: u32 where "SPR_SR_FO \<equiv> 0x8000"
abbreviation (input) SPR_SR_SUMRA :: u32 where "SPR_SR_SUMRA \<equiv> 0x10000"
abbreviation (input) SPR_UPR_DCP :: u32 where "SPR_UPR_DCP \<equiv> 0x2"
abbreviation (input) SPR_UPR_ICP :: u32 where "SPR_UPR_ICP \<equiv> 0x4"
abbreviation (input) SPR_UPR_DMP :: u32 where "SPR_UPR_DMP \<equiv> 0x8"
abbreviation (input) SPR_UPR_IMP :: u32 where "SPR_UPR_IMP \<equiv> 0x10"
abbreviation (input) SPR_UPR_PCUP :: u32 where "SPR_UPR_PCUP \<equiv> 0x80"
abbreviation (input) SPR_UPR_PMP :: u32 where "SPR_UPR_PMP \<equiv> 0x100"
abbreviation (input) SPR_UPR_PICP :: u32 where "SPR_UPR_PICP \<equiv> 0x200"
abbreviation (input) SPR_UPR_TTP :: u32 where "SPR_UPR_TTP \<equiv> 0x400"
abbreviation (input) SPR_CPUCFGR_ND :: u32 where "SPR_CPUCFGR_ND \<equiv> 0x400"
abbreviation (input) SPR_CPUCFGR_AECSRP :: u32 where "SPR_CPUCFGR_AECSRP \<equiv> 0x4000"
abbreviation (input) SPR_AECR_CYADDE :: u32 where "SPR_AECR_CYADDE \<equiv> 0x1"
abbreviation (input) SPR_AECR_OVADDE :: u32 where "SPR_AECR_OVADDE \<equiv> 0x2"
abbreviation (input) SPR_AECR_CYMULE :: u32 where "SPR_AECR_CYMULE \<equiv> 0x4"
abbreviation (input) SPR_AECR_OVMULE :: u32 where "SPR_AECR_OVMULE \<equiv> 0x8"
abbreviation (input) SPR_AECR_DBZE :: u32 where "SPR_AECR_DBZE \<equiv> 0x10"
abbreviation (input) SPR_AECR_CYMACADDE :: u32 where "SPR_AECR_CYMACADDE \<equiv> 0x20"
abbreviation (input) SPR_AECR_OVMACADDE :: u32 where "SPR_AECR_OVMACADDE \<equiv> 0x40"
abbreviation (input) SPR_AESR_CYADDE :: u32 where "SPR_AESR_CYADDE \<equiv> 0x1"
abbreviation (input) SPR_AESR_OVADDE :: u32 where "SPR_AESR_OVADDE \<equiv> 0x2"
abbreviation (input) SPR_AESR_CYMULE :: u32 where "SPR_AESR_CYMULE \<equiv> 0x4"
abbreviation (input) SPR_AESR_OVMULE :: u32 where "SPR_AESR_OVMULE \<equiv> 0x8"
abbreviation (input) SPR_AESR_DBZE :: u32 where "SPR_AESR_DBZE \<equiv> 0x10"
abbreviation (input) SPR_AESR_CYMACADDE :: u32 where "SPR_AESR_CYMACADDE \<equiv> 0x20"
abbreviation (input) SPR_AESR_OVMACADDE :: u32 where "SPR_AESR_OVMACADDE \<equiv> 0x40"
abbreviation (input) SPR_DTLBMR_V :: u32 where "SPR_DTLBMR_V \<equiv> 0x1"
abbreviation (input) SPR_DTLBMR_PL1 :: u32 where "SPR_DTLBMR_PL1 \<equiv> 0x2"
abbreviation (input) SPR_DTLBMR_CID :: u32 where "SPR_DTLBMR_CID \<equiv> 0x3c"
abbreviation (input) SPR_DTLBMR_LRU :: u32 where "SPR_DTLBMR_LRU \<equiv> 0xc0"
abbreviation (input) SPR_DTLBTR_CC :: u32 where "SPR_DTLBTR_CC \<equiv> 0x1"
abbreviation (input) SPR_DTLBTR_CI :: u32 where "SPR_DTLBTR_CI \<equiv> 0x2"
abbreviation (input) SPR_DTLBTR_WBC :: u32 where "SPR_DTLBTR_WBC \<equiv> 0x4"
abbreviation (input) SPR_DTLBTR_WOM :: u32 where "SPR_DTLBTR_WOM \<equiv> 0x8"
abbreviation (input) SPR_DTLBTR_A :: u32 where "SPR_DTLBTR_A \<equiv> 0x10"
abbreviation (input) SPR_DTLBTR_D :: u32 where "SPR_DTLBTR_D \<equiv> 0x20"
abbreviation (input) SPR_DTLBTR_URE :: u32 where "SPR_DTLBTR_URE \<equiv> 0x40"
abbreviation (input) SPR_DTLBTR_UWE :: u32 where "SPR_DTLBTR_UWE \<equiv> 0x80"
abbreviation (input) SPR_DTLBTR_SRE :: u32 where "SPR_DTLBTR_SRE \<equiv> 0x100"
abbreviation (input) SPR_DTLBTR_SWE :: u32 where "SPR_DTLBTR_SWE \<equiv> 0x200"
abbreviation (input) SPR_DTLBTR_PPN :: u32 where "SPR_DTLBTR_PPN \<equiv> 0xffffe000"
abbreviation (input) SPR_ITLBMR_V :: u32 where "SPR_ITLBMR_V \<equiv> 0x1"
abbreviation (input) SPR_ITLBMR_PL1 :: u32 where "SPR_ITLBMR_PL1 \<equiv> 0x2"
abbreviation (input) SPR_ITLBMR_CID :: u32 where "SPR_ITLBMR_CID \<equiv> 0x3c"
abbreviation (input) SPR_ITLBMR_LRU :: u32 where "SPR_ITLBMR_LRU \<equiv> 0xc0"
abbreviation (input) SPR_ITLBTR_CC :: u32 where "SPR_ITLBTR_CC \<equiv> 0x1"
abbreviation (input) SPR_ITLBTR_CI :: u32 where "SPR_ITLBTR_CI \<equiv> 0x2"
abbreviation (input) SPR_ITLBTR_WBC :: u32 where "SPR_ITLBTR_WBC \<equiv> 0x4"
abbreviation (input) SPR_ITLBTR_WOM :: u32 where "SPR_ITLBTR_WOM \<equiv> 0x8"
abbreviation (input) SPR_ITLBTR_A :: u32 where "SPR_ITLBTR_A \<equiv> 0x10"
abbreviation (input) SPR_ITLBTR_D :: u32 where "SPR_ITLBTR_D \<equiv> 0x20"
abbreviation (input) SPR_ITLBTR_SXE :: u32 where "SPR_ITLBTR_SXE \<equiv> 0x40"
abbreviation (input) SPR_ITLBTR_UXE :: u32 where "SPR_ITLBTR_UXE \<equiv> 0x80"
abbreviation (input) SPR_ITLBTR_PPN :: u32 where "SPR_ITLBTR_PPN \<equiv> 0xffffe000"
abbreviation (input) SPR_DSR_RSTE :: u32 where "SPR_DSR_RSTE \<equiv> 0x1"
abbreviation (input) SPR_DSR_BUSEE :: u32 where "SPR_DSR_BUSEE \<equiv> 0x2"
abbreviation (input) SPR_DSR_DPFE :: u32 where "SPR_DSR_DPFE \<equiv> 0x4"
abbreviation (input) SPR_DSR_IPFE :: u32 where "SPR_DSR_IPFE \<equiv> 0x8"
abbreviation (input) SPR_DSR_TTE :: u32 where "SPR_DSR_TTE \<equiv> 0x10"
abbreviation (input) SPR_DSR_AE :: u32 where "SPR_DSR_AE \<equiv> 0x20"
abbreviation (input) SPR_DSR_IIE :: u32 where "SPR_DSR_IIE \<equiv> 0x40"
abbreviation (input) SPR_DSR_IE :: u32 where "SPR_DSR_IE \<equiv> 0x80"
abbreviation (input) SPR_DSR_DME :: u32 where "SPR_DSR_DME \<equiv> 0x100"
abbreviation (input) SPR_DSR_IME :: u32 where "SPR_DSR_IME \<equiv> 0x200"
abbreviation (input) SPR_DSR_RE :: u32 where "SPR_DSR_RE \<equiv> 0x400"
abbreviation (input) SPR_DSR_SCE :: u32 where "SPR_DSR_SCE \<equiv> 0x800"
abbreviation (input) SPR_DSR_TE :: u32 where "SPR_DSR_TE \<equiv> 0x2000"
abbreviation (input) SPR_DMR1_ST :: u32 where "SPR_DMR1_ST \<equiv> 0x400000"
abbreviation (input) SPR_DMR2_AWTC :: u32 where "SPR_DMR2_AWTC \<equiv> 0xffc"
abbreviation (input) SPR_DMR2_WGB :: u32 where "SPR_DMR2_WGB \<equiv> 0x3ff000"
abbreviation (input) SPR_PCMR_CP :: u32 where "SPR_PCMR_CP \<equiv> 0x1"
abbreviation (input) SPR_PCMR_CISM :: u32 where "SPR_PCMR_CISM \<equiv> 0x4"
abbreviation (input) SPR_PCMR_CIUM :: u32 where "SPR_PCMR_CIUM \<equiv> 0x8"
abbreviation (input) SPR_PCMR_LA :: u32 where "SPR_PCMR_LA \<equiv> 0x10"
abbreviation (input) SPR_PCMR_SA :: u32 where "SPR_PCMR_SA \<equiv> 0x20"
abbreviation (input) SPR_PCMR_IF :: u32 where "SPR_PCMR_IF \<equiv> 0x40"
abbreviation (input) SPR_PCMR_DCM :: u32 where "SPR_PCMR_DCM \<equiv> 0x80"
abbreviation (input) SPR_PCMR_ICM :: u32 where "SPR_PCMR_ICM \<equiv> 0x100"
abbreviation (input) SPR_PCMR_DTLBM :: u32 where "SPR_PCMR_DTLBM \<equiv> 0x1000"
abbreviation (input) SPR_PCMR_ITLBM :: u32 where "SPR_PCMR_ITLBM \<equiv> 0x2000"
abbreviation (input) SPR_PMR_DME :: u32 where "SPR_PMR_DME \<equiv> 0x10"
abbreviation (input) SPR_PMR_SME :: u32 where "SPR_PMR_SME \<equiv> 0x20"
abbreviation (input) SPR_PMR_SUME :: u32 where "SPR_PMR_SUME \<equiv> 0x80"
abbreviation (input) SPR_TTMR_TP :: u32 where "SPR_TTMR_TP \<equiv> 0xfffffff"
abbreviation (input) SPR_TTMR_IP :: u32 where "SPR_TTMR_IP \<equiv> 0x10000000"
abbreviation (input) SPR_TTMR_IE :: u32 where "SPR_TTMR_IE \<equiv> 0x20000000"
abbreviation (input) SPR_TTMR_RT :: u32 where "SPR_TTMR_RT \<equiv> 0x40000000"
abbreviation (input) SPR_TTMR_SR :: u32 where "SPR_TTMR_SR \<equiv> 0x80000000"
abbreviation (input) SPR_TTMR_CR :: u32 where "SPR_TTMR_CR \<equiv> 0xc0000000"
abbreviation (input) SPR_TTMR_M :: u32 where "SPR_TTMR_M \<equiv> 0xc0000000"

abbreviation (input) SPR_DTLBMR_BASE :: "nat \<Rightarrow> nat" where "SPR_DTLBMR_BASE way \<equiv> 0xA00 + way * 0x100"
abbreviation (input) SPR_DTLBTR_LAST :: "nat \<Rightarrow> nat" where "SPR_DTLBTR_LAST way \<equiv> 0xAFF + way * 0x100"
abbreviation (input) SPR_ITLBMR_BASE :: "nat \<Rightarrow> nat" where "SPR_ITLBMR_BASE way \<equiv> 0x1200 + way * 0x100"
abbreviation (input) SPR_ITLBTR_LAST :: "nat \<Rightarrow> nat" where "SPR_ITLBTR_LAST way \<equiv> 0x12FF + way * 0x100"
abbreviation (input) SPR_DVR :: "nat \<Rightarrow> nat" where "SPR_DVR n \<equiv> 0x3000 + n"
abbreviation (input) SPR_DCR :: "nat \<Rightarrow> nat" where "SPR_DCR n \<equiv> 0x3008 + n"
abbreviation (input) SPR_PCCR :: "nat \<Rightarrow> nat" where "SPR_PCCR n \<equiv> 0x3800 + n"
abbreviation (input) SPR_PCMR :: "nat \<Rightarrow> nat" where "SPR_PCMR n \<equiv> 0x3808 + n"

section \<open>Exception vectors\<close>

abbreviation (input) EXCEPT_RESET :: u32 where "EXCEPT_RESET \<equiv> 0x100"
abbreviation (input) EXCEPT_BUSERR :: u32 where "EXCEPT_BUSERR \<equiv> 0x200"
abbreviation (input) EXCEPT_DPF :: u32 where "EXCEPT_DPF \<equiv> 0x300"
abbreviation (input) EXCEPT_IPF :: u32 where "EXCEPT_IPF \<equiv> 0x400"
abbreviation (input) EXCEPT_TICK :: u32 where "EXCEPT_TICK \<equiv> 0x500"
abbreviation (input) EXCEPT_ALIGN :: u32 where "EXCEPT_ALIGN \<equiv> 0x600"
abbreviation (input) EXCEPT_ILLEGAL :: u32 where "EXCEPT_ILLEGAL \<equiv> 0x700"
abbreviation (input) EXCEPT_INT :: u32 where "EXCEPT_INT \<equiv> 0x800"
abbreviation (input) EXCEPT_DTLBMISS :: u32 where "EXCEPT_DTLBMISS \<equiv> 0x900"
abbreviation (input) EXCEPT_ITLBMISS :: u32 where "EXCEPT_ITLBMISS \<equiv> 0xa00"
abbreviation (input) EXCEPT_RANGE :: u32 where "EXCEPT_RANGE \<equiv> 0xb00"
abbreviation (input) EXCEPT_SYSCALL :: u32 where "EXCEPT_SYSCALL \<equiv> 0xc00"
abbreviation (input) EXCEPT_FPE :: u32 where "EXCEPT_FPE \<equiv> 0xd00"
abbreviation (input) EXCEPT_TRAP :: u32 where "EXCEPT_TRAP \<equiv> 0xe00"

section \<open>Configuration\<close>

text \<open>The fields of \<^verbatim>\<open>struct config\<close> that the modelled code reads.\<close>

record config =
  pic_enabled :: bool
  pic_edge_trigger :: bool
  pic_use_nmi :: bool
  pm_enabled :: bool
  pcu_enabled :: bool
  debug_enabled :: bool
  rsp_enabled :: bool
  strict_npc :: bool
  is_library :: bool
  hardfloat :: bool
  sbuf_len :: nat

section \<open>Memory management units\<close>

text \<open>\<^verbatim>\<open>struct dmmu\<close> and \<^verbatim>\<open>struct immu\<close> have the same fields.\<close>

record mmu =
  mmu_enabled :: bool
  nways :: nat
  nsets :: nat
  pagesize :: nat
  pagesize_log2 :: nat
  page_offset_mask :: u32
  page_mask :: u32
  vpn_mask :: u32
  lru_reload :: u32
  set_mask :: u32
  entrysize :: nat
  ustates :: nat
  mmu_missdelay :: int
  mmu_hitdelay :: int

section \<open>The processor\<close>

text \<open>
  The functions passed to the scheduler: those of the core, and those of the peripherals with the
  number of the device, and of its channel, for their \<^verbatim>\<open>dat\<close> pointer.
\<close>

datatype uart_job = Uart_int_cti | Uart_char_clock | Uart_send_break | Uart_tx_send | Uart_recv_char
  | Uart_check_char | Uart_recv_break | Uart_recv_break_start | Uart_recv_break_stop | Uart_vapi_cmd

datatype client_job = Pic_rep_int | Tick_raise_except | Tick_restart | Tick_one_shot
  | Uart_job uart_job nat | Gpio_clock nat | Gpio_do_int nat | Dma_channel_clock nat nat

record machine =
  reg :: "nat \<Rightarrow> u32"
  sprs :: "nat \<Rightarrow> u32"
  insn_ea :: u32
  delay_insn :: bool
  npc_not_valid :: bool
  pc :: u32
  pc_delay :: u32
  loadlock_active :: bool
  loadlock_addr :: u32
  pcnext :: u32
  next_delay_insn :: bool
  except_pending :: bool
  cycles :: int
  mem_cycles :: int
  loadcycles :: int
  storecycles :: int
  instructions :: int
  stalled :: bool
  halted :: bool
  development :: "nat \<Rightarrow> u64"
  in_reset :: bool
  rsp_sigval :: int
  sched :: "client_job scheduler"
  tick_counting :: u32
  cycle_count_at_tick_start :: int
  data_ci :: u32
  insn_ci :: u32
  dmmu_state :: mmu
  immu_state :: mmu
  cfg :: config

abbreviation set_spr :: "nat \<Rightarrow> u32 \<Rightarrow> 'z machine_scheme \<Rightarrow> 'z machine_scheme" where
  "set_spr n v s \<equiv> s\<lparr>sprs := (sprs s)(n := v)\<rparr>"

text \<open>\<^verbatim>\<open>sprs[n] |= m\<close> and \<^verbatim>\<open>sprs[n] &= ~m\<close>.\<close>

abbreviation or_spr :: "nat \<Rightarrow> u32 \<Rightarrow> 'z machine_scheme \<Rightarrow> 'z machine_scheme" where
  "or_spr n m s \<equiv> set_spr n (sprs s n OR m) s"

abbreviation clear_spr :: "nat \<Rightarrow> u32 \<Rightarrow> 'z machine_scheme \<Rightarrow> 'z machine_scheme" where
  "clear_spr n m s \<equiv> set_spr n (sprs s n AND NOT m) s"

text \<open>A flag of a register is tested as \<^verbatim>\<open>sprs[n] & m\<close>.\<close>

abbreviation spr_has :: "'z machine_scheme \<Rightarrow> nat \<Rightarrow> u32 \<Rightarrow> bool" where
  "spr_has s n m \<equiv> sprs s n AND m \<noteq> 0"

text \<open>The scheduler operations on the processor's queue.\<close>

definition SCHED_ADD :: "client_job \<Rightarrow> int \<Rightarrow> 'z machine_scheme \<Rightarrow> 'z machine_scheme outcome" where
  "SCHED_ADD f t s = bind_outcome (sched_add (Job f) 0 t (sched s)) (\<lambda>q. Inr (s\<lparr>sched := q\<rparr>))"

definition SCHED_FIND_REMOVE :: "client_job \<Rightarrow> 'z machine_scheme \<Rightarrow> 'z machine_scheme" where
  "SCHED_FIND_REMOVE f s = s\<lparr>sched := sched_find_remove (Job f) 0 (sched s)\<rparr>"


section \<open>The state before configuration\<close>

text \<open>Every static variable of a C program starts as zero; the queues are empty.\<close>

definition zero_config :: config where
  "zero_config = \<lparr>pic_enabled = False, pic_edge_trigger = False, pic_use_nmi = False,
     pm_enabled = False, pcu_enabled = False, debug_enabled = False, rsp_enabled = False,
     strict_npc = False, is_library = False, hardfloat = False, sbuf_len = 0\<rparr>"

definition zero_mmu :: mmu where
  "zero_mmu = \<lparr>mmu_enabled = False, nways = 0, nsets = 0, pagesize = 0, pagesize_log2 = 0,
     page_offset_mask = 0, page_mask = 0, vpn_mask = 0, lru_reload = 0, set_mask = 0, entrysize = 0, ustates = 0,
     mmu_missdelay = 0, mmu_hitdelay = 0\<rparr>"

definition zero_machine :: machine where
  "zero_machine = \<lparr>reg = (\<lambda>_. 0), sprs = (\<lambda>_. 0), insn_ea = 0, delay_insn = False,
     npc_not_valid = False, pc = 0, pc_delay = 0, loadlock_active = False, loadlock_addr = 0,
     pcnext = 0, next_delay_insn = False, except_pending = False, cycles = 0, mem_cycles = 0,
     loadcycles = 0, storecycles = 0, instructions = 0, stalled = False, halted = False,
     development = (\<lambda>_. 0), in_reset = False, rsp_sigval = 0,
     sched = \<lparr>free_job_queue = [], job_queue = []\<rparr>, tick_counting = 0,
     cycle_count_at_tick_start = 0, data_ci = 0, insn_ci = 0, dmmu_state = zero_mmu,
     immu_state = zero_mmu, cfg = zero_config\<rparr>"

end
