(* ===== verification/DebugUnit.thy ===== *)
theory DebugUnit
  imports Machine
begin

text \<open>
  The debug unit, \<^verbatim>\<open>debug/debug-unit.c\<close>: stalling the processor, matchpoints and
  watchpoints, the decision whether an exception goes to the debugger instead of the
  processor, and the registers of the development interface. \<^verbatim>\<open>unsigned char\<close> flags
  are 8-bit words and the watchpoint counters 16-bit words, as in the code, because the code
  depends on what is cut off. Also \<^verbatim>\<open>rsp_exception\<close> of
  \<^verbatim>\<open>debug/rsp-server.c\<close>, which the debug unit notifies.
\<close>

section \<open>Stall state\<close>

abbreviation (input) RISCOP_STALL :: u64 where "RISCOP_STALL \<equiv> 1"
abbreviation (input) RISCOP_RESET :: u64 where "RISCOP_RESET \<equiv> 2"
abbreviation (input) DEVELOPINT_RISCOP :: nat where "DEVELOPINT_RISCOP \<equiv> 4"
abbreviation (input) DEVELOPINT_MAX :: nat where "DEVELOPINT_MAX \<equiv> 27"

definition set_stall_state :: "bool \<Rightarrow> 'z machine_scheme \<Rightarrow> 'z machine_scheme" where
  "set_stall_state state s =
     (let s = s\<lparr>development := (development s)(DEVELOPINT_RISCOP :=
                  (development s DEVELOPINT_RISCOP AND NOT RISCOP_STALL)
                    OR (if state then RISCOP_STALL else 0)),
                stalled := state\<rparr>
      in if \<not> state then s\<lparr>npc_not_valid := False, halted := False\<rparr> else s)"

definition du_reset :: "'z machine_scheme \<Rightarrow> 'z machine_scheme" where
  "du_reset s =
     set_stall_state False
       (s\<lparr>development := (\<lambda>i. if i \<le> DEVELOPINT_MAX then 0 else development s i)\<rparr>)"

section \<open>Matchpoints\<close>

datatype debug_unit_action =
  DebugInstructionFetch | DebugLoadAddress | DebugStoreAddress | DebugLoadData | DebugStoreData

abbreviation (input) SPR_DCR_DP :: u32 where "SPR_DCR_DP \<equiv> 0x1"
abbreviation (input) SPR_DCR_CC :: u32 where "SPR_DCR_CC \<equiv> 0xe"
abbreviation (input) SPR_DCR_SC :: u32 where "SPR_DCR_SC \<equiv> 0x10"
abbreviation (input) SPR_DCR_CT :: u32 where "SPR_DCR_CT \<equiv> 0xe0"
abbreviation (input) SPR_DWCR_COUNT :: u32 where "SPR_DWCR_COUNT \<equiv> 0x0000ffff"
abbreviation (input) SPR_DWCR_MATCH :: u32 where "SPR_DWCR_MATCH \<equiv> 0xffff0000"
abbreviation (input) SPR_DMR2_WCE0 :: u32 where "SPR_DMR2_WCE0 \<equiv> 0x1"
abbreviation (input) SPR_DMR2_WCE1 :: u32 where "SPR_DMR2_WCE1 \<equiv> 0x2"
abbreviation (input) SPR_DMR2_AWTC_OFF :: nat where "SPR_DMR2_AWTC_OFF \<equiv> 2"
abbreviation (input) SPR_DMR2_WGB_OFF :: nat where "SPR_DMR2_WGB_OFF \<equiv> 12"
abbreviation (input) SPR_DMR2_WBS_OFF :: nat where "SPR_DMR2_WBS_OFF \<equiv> 22"

text \<open>Does the compare-to field select this action?\<close>

definition compare_to :: "u32 \<Rightarrow> debug_unit_action \<Rightarrow> bool" where
  "compare_to dcr_ct action =
     (if dcr_ct = 0x20 then action = DebugInstructionFetch
      else if dcr_ct = 0x40 then action = DebugLoadAddress
      else if dcr_ct = 0x60 then action = DebugStoreAddress
      else if dcr_ct = 0x80 then action = DebugLoadData
      else if dcr_ct = 0xa0 then action = DebugStoreData
      else if dcr_ct = 0xc0 then action = DebugLoadAddress \<or> action = DebugStoreAddress
      else if dcr_ct = 0xe0 then action = DebugLoadData \<or> action = DebugStoreData
      else False)"

text \<open>
  The comparison. Both operands are \<^verbatim>\<open>long\<close>: the register is zero extended to 64
  bits, in the signed case too. The result is an \<^verbatim>\<open>unsigned char\<close>, so a masked
  comparison keeps only the low eight bits.
\<close>

definition compare_cond :: "u32 \<Rightarrow> bool \<Rightarrow> u64 \<Rightarrow> u64 \<Rightarrow> u8" where
  "compare_cond dcr_cc sc op1 op2 =
     (let less = (\<lambda>a b. if sc then a <s b else a < b);
          flag = (\<lambda>b. if b then 1 else 0)
      in if dcr_cc = 0x0 then ucast (op1 AND op2)
         else if dcr_cc = 0x2 then flag (op1 = op2)
         else if dcr_cc = 0x4 then flag (less op1 op2)
         else if dcr_cc = 0x6 then flag (\<not> less op2 op1)
         else if dcr_cc = 0x8 then flag (less op2 op1)
         else if dcr_cc = 0xa then flag (\<not> less op1 op2)
         else if dcr_cc = 0xc then flag (op1 \<noteq> op2)
         else 0)"

definition matchpoint :: "'z machine_scheme \<Rightarrow> debug_unit_action \<Rightarrow> u64 \<Rightarrow> nat \<Rightarrow> u8" where
  "matchpoint s action udata i =
     (let dcr = sprs s (SPR_DCR i) in
      if dcr AND SPR_DCR_DP \<noteq> SPR_DCR_DP then 0
      else if \<not> compare_to (dcr AND SPR_DCR_CT) action then 0
      else compare_cond (dcr AND SPR_DCR_CC) (dcr AND SPR_DCR_SC = SPR_DCR_SC)
             udata (ucast (sprs s (SPR_DVR i))))"

section \<open>Watchpoints\<close>

text \<open>
  One step of the chain: the two bits of \<^verbatim>\<open>DMR1\<close> for the watchpoint select the
  matchpoint alone, its conjunction or its disjunction with the watchpoint before; the value
  11 is reserved and leaves the watchpoint clear. There is no external watchpoint, so
  watchpoint 0 has only the first choice.
\<close>

definition chain :: "u32 \<Rightarrow> nat \<Rightarrow> u8 \<Rightarrow> u8 \<Rightarrow> u8" where
  "chain dmr1 i mp prev =
     (let cw = drop_bit (2 * i) dmr1 AND 3 in
      if cw = 0 then mp
      else if cw = 1 then (if mp \<noteq> 0 \<and> prev \<noteq> 0 then 1 else 0)
      else if cw = 2 then (if mp \<noteq> 0 \<or> prev \<noteq> 0 then 1 else 0)
      else 0)"

fun watchpoint :: "u32 \<Rightarrow> (nat \<Rightarrow> u8) \<Rightarrow> nat \<Rightarrow> u8" where
  "watchpoint dmr1 mp 0 = (if dmr1 AND 3 = 0 then mp 0 else 0)"
| "watchpoint dmr1 mp (Suc i) = chain dmr1 (Suc i) (mp (Suc i)) (watchpoint dmr1 mp i)"

text \<open>The two counters over the eight watchpoints; \<^verbatim>\<open>short int\<close> wraps at 16 bits.\<close>

definition count_watchpoints ::
  "u32 \<Rightarrow> (nat \<Rightarrow> u8) \<Rightarrow> bool \<Rightarrow> bool \<Rightarrow> u16 \<times> u16 \<Rightarrow> u16 \<times> u16" where
  "count_watchpoints dmr2 wp enabled0 enabled1 =
     fold (\<lambda>i (counter0, counter1).
             if drop_bit (SPR_DMR2_AWTC_OFF + i) dmr2 AND 1 \<noteq> 1
             then (if enabled0 \<and> wp i \<noteq> 0 then (counter0 + 1, counter1) else (counter0, counter1))
             else (if enabled1 \<and> wp i \<noteq> 0 then (counter0, counter1 + 1) else (counter0, counter1)))
       [0..<8]"

text \<open>Storing a counter: the \<^verbatim>\<open>short\<close> is sign extended before the OR.\<close>

definition store_count :: "u32 \<Rightarrow> u16 \<Rightarrow> u32" where
  "store_count dwcr counter = (dwcr AND NOT SPR_DWCR_COUNT) OR scast counter"

definition count_matched :: "u32 \<Rightarrow> u8" where
  "count_matched dwcr =
     (if dwcr AND SPR_DWCR_COUNT = drop_bit 16 (dwcr AND SPR_DWCR_MATCH) then 1 else 0)"

definition mark_breakpoints :: "(nat \<Rightarrow> u8) \<Rightarrow> u32 \<Rightarrow> u32 \<times> bool" where
  "mark_breakpoints wp dmr2 =
     fold (\<lambda>i (dmr2, found).
             if drop_bit (SPR_DMR2_WGB_OFF + i) dmr2 AND 1 = 1 \<and> wp i \<noteq> 0
             then (dmr2 OR push_bit (SPR_DMR2_WBS_OFF + i) 1, True) else (dmr2, found))
       [0..<10] (dmr2, False)"

text \<open>The state once the counters have been increased, and the ten watchpoints then.\<close>

definition update_counters :: "(nat \<Rightarrow> u8) \<Rightarrow> 'z machine_scheme \<Rightarrow> 'z machine_scheme" where
  "update_counters wp s =
     (let dmr2 = sprs s SPR_DMR2;
          enabled0 = (dmr2 AND SPR_DMR2_WCE0 = SPR_DMR2_WCE0);
          enabled1 = (dmr2 AND SPR_DMR2_WCE1 = SPR_DMR2_WCE1)
      in if enabled0 \<or> enabled1 then
           (let (counter0, counter1) =
                  count_watchpoints dmr2 wp enabled0 enabled1
                    (ucast (sprs s SPR_DWCR0), ucast (sprs s SPR_DWCR1));
                s = set_spr SPR_DWCR0 (store_count (sprs s SPR_DWCR0) counter0) s
            in set_spr SPR_DWCR1 (store_count (sprs s SPR_DWCR1) counter1) s)
         else s)"

definition all_watchpoints :: "u32 \<Rightarrow> (nat \<Rightarrow> u8) \<Rightarrow> 'z machine_scheme \<Rightarrow> nat \<Rightarrow> u8" where
  "all_watchpoints dmr1 wp s =
     (let wp8 = chain dmr1 8 (count_matched (sprs s SPR_DWCR0)) (wp 7);
          wp9 = chain dmr1 9 (count_matched (sprs s SPR_DWCR1)) wp8
      in wp(8 := wp8, 9 := wp9))"

definition calculate_watchpoints ::
  "debug_unit_action \<Rightarrow> u64 \<Rightarrow> 'z machine_scheme \<Rightarrow> bool \<times> 'z machine_scheme" where
  "calculate_watchpoints action udata s =
     (let mp = matchpoint s action udata in
      if \<forall>i \<in> set [0..<8]. mp i = 0 then (False, s)
      else
        (let wp = watchpoint (sprs s SPR_DMR1) mp;
             s' = update_counters wp s;
             (dmr2, found) =
               mark_breakpoints (all_watchpoints (sprs s SPR_DMR1) wp s') (sprs s SPR_DMR2)
         in (found, set_spr SPR_DMR2 dmr2 s')))"

definition check_debug_unit ::
  "debug_unit_action \<Rightarrow> u64 \<Rightarrow> 'z machine_scheme \<Rightarrow> bool \<times> 'z machine_scheme" where
  "check_debug_unit action udata s =
     (if \<not> debug_enabled (cfg s) \<or> in_reset s then (False, s)
      else if spr_has s SPR_DMR2 (SPR_DMR2_WGB OR SPR_DMR2_AWTC) then
        calculate_watchpoints action udata s
      else (False, s))"

section \<open>Exceptions taken by the debugger\<close>

definition rsp_exception :: "u32 \<Rightarrow> 'z machine_scheme \<Rightarrow> 'z machine_scheme" where
  "rsp_exception except s =
     (case map_of [(EXCEPT_RESET, 32), (EXCEPT_BUSERR, 10), (EXCEPT_DPF, 11), (EXCEPT_IPF, 11),
                   (EXCEPT_TICK, 14), (EXCEPT_ALIGN, 10), (EXCEPT_ILLEGAL, 4), (EXCEPT_INT, 2),
                   (EXCEPT_DTLBMISS, 11), (EXCEPT_ITLBMISS, 11), (EXCEPT_RANGE, 8),
                   (EXCEPT_SYSCALL, 31), (EXCEPT_FPE, 8), (EXCEPT_TRAP, 5)] except of
        None \<Rightarrow> s
      | Some sigval \<Rightarrow> s\<lparr>rsp_sigval := sigval\<rparr>)"

text \<open>The bit of \<^verbatim>\<open>DSR\<close> that gives an exception to the debugger.\<close>

definition dsr_bit :: "u32 \<Rightarrow> u32" where
  "dsr_bit except =
     (case map_of [(EXCEPT_RESET, SPR_DSR_RSTE), (EXCEPT_BUSERR, SPR_DSR_BUSEE),
                   (EXCEPT_DPF, SPR_DSR_DPFE), (EXCEPT_IPF, SPR_DSR_IPFE),
                   (EXCEPT_TICK, SPR_DSR_TTE), (EXCEPT_ALIGN, SPR_DSR_AE),
                   (EXCEPT_ILLEGAL, SPR_DSR_IIE), (EXCEPT_INT, SPR_DSR_IE),
                   (EXCEPT_DTLBMISS, SPR_DSR_DME), (EXCEPT_ITLBMISS, SPR_DSR_IME),
                   (EXCEPT_RANGE, SPR_DSR_RE), (EXCEPT_SYSCALL, SPR_DSR_SCE),
                   (EXCEPT_TRAP, SPR_DSR_TE)] except of
        None \<Rightarrow> 0
      | Some m \<Rightarrow> m)"

definition debug_ignore_exception :: "u32 \<Rightarrow> 'z machine_scheme \<Rightarrow> bool \<times> 'z machine_scheme" where
  "debug_ignore_exception except s =
     (let result = sprs s SPR_DSR AND dsr_bit except;
          s = set_stall_state (result \<noteq> 0) (or_spr SPR_DRR result s)
      in (result \<noteq> 0,
          if rsp_enabled (cfg s) \<and> result \<noteq> 0 then rsp_exception except s else s))"


section \<open>Properties\<close>

lemma and_one_bit: "(w AND 1 = 1) \<longleftrightarrow> bit (w :: 'a::len word) 0"
  by (simp add: bit_0 and_one_eq odd_iff_mod_2_eq_one)

lemma mark_fold:
  assumes "\<forall>i \<in> set xs. i < 10"
  shows "(\<forall>n < 22. bit (fst (fold (\<lambda>i (dmr2, found).
             if drop_bit (SPR_DMR2_WGB_OFF + i) dmr2 AND 1 = 1 \<and> wp i \<noteq> 0
             then (dmr2 OR push_bit (SPR_DMR2_WBS_OFF + i) 1, True) else (dmr2, found)) xs (d, f))) n
           = bit d n)
    \<and> (snd (fold (\<lambda>i (dmr2, found).
             if drop_bit (SPR_DMR2_WGB_OFF + i) dmr2 AND 1 = 1 \<and> wp i \<noteq> 0
             then (dmr2 OR push_bit (SPR_DMR2_WBS_OFF + i) 1, True) else (dmr2, found)) xs (d :: u32, f))
         \<longleftrightarrow> f \<or> (\<exists>i \<in> set xs. bit d (SPR_DMR2_WGB_OFF + i) \<and> wp i \<noteq> (0 :: u8)))"
  using assms
proof (induction xs arbitrary: d f)
  case (Cons i xs)
  have set: "drop_bit (SPR_DMR2_WGB_OFF + i) d AND 1 = 1 \<longleftrightarrow> bit d (SPR_DMR2_WGB_OFF + i)"
    by (simp only: and_one_bit bit_drop_bit_eq) simp
  show ?case
  proof (cases "bit d (SPR_DMR2_WGB_OFF + i) \<and> wp i \<noteq> 0")
    case True
    let ?d = "d OR push_bit (SPR_DMR2_WBS_OFF + i) 1"
    have low: "bit ?d n = bit d n" if "n < 22" for n
      using that by (auto simp: bit_simps)
    have wgb: "bit ?d (SPR_DMR2_WGB_OFF + k) = bit d (SPR_DMR2_WGB_OFF + k)" if "k \<in> set xs" for k
      using that Cons.prems low[of "SPR_DMR2_WGB_OFF + k"] by auto
    from True set Cons.IH[of ?d True] Cons.prems low show ?thesis by simp
  next
    case False
    with set Cons.IH[of d f] Cons.prems show ?thesis by auto
  qed
qed simp

lemma mark_breakpoints_found:
  "snd (mark_breakpoints wp dmr2) \<longleftrightarrow> (\<exists>i < 10. bit dmr2 (SPR_DMR2_WGB_OFF + i) \<and> wp i \<noteq> 0)"
  using mark_fold[of "[0..<10]" wp dmr2 False] unfolding mark_breakpoints_def by auto

text \<open>
  A watchpoint counter that reaches 0x8000 overwrites its match value. Storing the counter
  ORs the sign extension of a 16-bit \<^verbatim>\<open>short\<close> into the register, so the match value in
  the upper half becomes 0xffff from a count of 0x8000 on and survives below it. The count itself
  is stored exactly.
\<close>

lemma store_count_keeps_match:
  "store_count dwcr counter AND SPR_DWCR_MATCH
      = (if bit counter 15 then SPR_DWCR_MATCH else dwcr AND SPR_DWCR_MATCH)
   \<and> store_count dwcr counter AND SPR_DWCR_COUNT = ucast counter"
proof -
  have m: "SPR_DWCR_MATCH = NOT (mask 16)" "SPR_DWCR_COUNT = mask 16"
    by (simp_all add: mask_eq_exp_minus_1)
  have "store_count dwcr counter AND SPR_DWCR_MATCH
      = (if bit counter 15 then SPR_DWCR_MATCH else dwcr AND SPR_DWCR_MATCH)"
    unfolding store_count_def m
    by (rule bit_word_eqI) (auto simp: bit_simps not_less dest: bit_imp_le_length)
  moreover have "store_count dwcr counter AND SPR_DWCR_COUNT = ucast counter"
    unfolding store_count_def m
  proof (rule bit_word_eqI)
    fix n assume "n < LENGTH(32)"
    consider "n < 15" | "n = 15" | "16 \<le> n" by linarith
    then show "bit ((dwcr AND NOT (mask 16) OR scast counter) AND mask 16) n = bit (ucast counter :: u32) n"
      by cases (auto simp: bit_simps min_def dest: bit_imp_le_length)
  qed
  ultimately show ?thesis by blast
qed

text \<open>
  A check changes no state but the two watchpoint counters and \<^verbatim>\<open>DMR2\<close>.
\<close>

lemma check_debug_unit_frame:
  "snd (check_debug_unit action udata s) = s\<lparr>sprs := sprs (snd (check_debug_unit action udata s))\<rparr>"
  "n \<notin> {SPR_DWCR0, SPR_DWCR1, SPR_DMR2} \<Longrightarrow> sprs (snd (check_debug_unit action udata s)) n = sprs s n"
  by (simp_all add: check_debug_unit_def calculate_watchpoints_def update_counters_def Let_def
      case_prod_unfold)

text \<open>
  What the debug unit is to do, over truth values and numbers. A matchpoint that is present hits when it
  observes the action and its comparison holds. The register is compared as an unsigned value, and a masked
  comparison looks at the low eight bits.
\<close>

definition dcr_observes :: "debug_unit_action \<Rightarrow> nat set" where
  "dcr_observes action = (case action of DebugInstructionFetch \<Rightarrow> {1} | DebugLoadAddress \<Rightarrow> {2, 6}
     | DebugStoreAddress \<Rightarrow> {3, 6} | DebugLoadData \<Rightarrow> {4, 7} | DebugStoreData \<Rightarrow> {5, 7})"

definition dcr_compares :: "nat \<Rightarrow> bool \<Rightarrow> u64 \<Rightarrow> u32 \<Rightarrow> bool" where
  "dcr_compares k sc data dvr =
     (let x = (if sc then sint data else uint data); y = uint dvr
      in k = 0 \<and> (\<exists>n<8. bit data n \<and> bit dvr n) \<or> k = 1 \<and> x = y \<or> k = 2 \<and> x < y \<or> k = 3 \<and> x \<le> y
         \<or> k = 4 \<and> x > y \<or> k = 5 \<and> x \<ge> y \<or> k = 6 \<and> x \<noteq> y)"

definition mp_hit :: "u32 \<Rightarrow> u32 \<Rightarrow> debug_unit_action \<Rightarrow> u64 \<Rightarrow> bool" where
  "mp_hit dcr dvr action data \<longleftrightarrow> bit dcr 0 \<and> unat dcr div 2 ^ 5 mod 8 \<in> dcr_observes action
     \<and> dcr_compares (unat dcr div 2 mod 8) (bit dcr 4) data dvr"

text \<open>Watchpoint \<open>i\<close> is set from what it watches and the watchpoint before it, by its two bits of \<^verbatim>\<open>DMR1\<close>.\<close>

definition wp_link :: "u32 \<Rightarrow> nat \<Rightarrow> bool \<Rightarrow> bool \<Rightarrow> bool" where
  "wp_link dmr1 i m prev = (let k = unat dmr1 div 4 ^ i mod 4
     in k = 0 \<and> m \<or> k = 1 \<and> m \<and> prev \<or> k = 2 \<and> (m \<or> prev))"

fun wp_set :: "u32 \<Rightarrow> (nat \<Rightarrow> bool) \<Rightarrow> nat \<Rightarrow> bool" where
  "wp_set dmr1 m 0 = (unat dmr1 mod 4 = 0 \<and> m 0)"
| "wp_set dmr1 m (Suc i) = wp_link dmr1 (Suc i) (m (Suc i)) (wp_set dmr1 m i)"

text \<open>
  The first eight watchpoints are events for the counter they are assigned to. The count of counter \<open>c\<close>
  after the access, and the value it is compared with: a count from 2^15 on replaces it.
\<close>

definition wp_events :: "u32 \<Rightarrow> (nat \<Rightarrow> bool) \<Rightarrow> nat \<Rightarrow> nat" where
  "wp_events dmr2 w c = length (filter (\<lambda>i. w i \<and> bit dmr2 (2 + i) = (c = 1)) [0..<8])"

definition count_after :: "u32 \<Rightarrow> (nat \<Rightarrow> bool) \<Rightarrow> nat \<Rightarrow> u32 \<Rightarrow> nat" where
  "count_after dmr2 w c dwcr = (unat dwcr mod 2 ^ 16 + (if bit dmr2 c then wp_events dmr2 w c else 0)) mod 2 ^ 16"

definition match_after :: "u32 \<Rightarrow> nat \<Rightarrow> u32 \<Rightarrow> nat" where
  "match_after dmr2 n dwcr = (if (bit dmr2 0 \<or> bit dmr2 1) \<and> 2 ^ 15 \<le> n then 0xffff else unat dwcr div 2 ^ 16)"

lemma and_mod: "unat (w AND mask n) = unat (w :: 'a::len word) mod 2 ^ n"
  unfolding take_bit_eq_mask[symmetric] unsigned_take_bit_eq by (rule take_bit_eq_mod)

lemma flag_bit: "w AND 2 ^ n = 2 ^ n \<longleftrightarrow> bit w n" if "n < 32" for w :: u32
proof
  assume "w AND 2 ^ n = 2 ^ n"
  then have "bit (w AND 2 ^ n) n = bit (2 ^ n :: u32) n" by simp
  with that show "bit w n" by (simp add: bit_and_iff bit_exp_iff)
next
  assume "bit w n"
  then show "w AND 2 ^ n = 2 ^ n" by (intro bit_word_eqI) (auto simp: bit_and_iff bit_exp_iff)
qed

lemma field_eq: "w AND push_bit k (mask n) = push_bit k (v AND mask n) \<longleftrightarrow> unat (w :: u32) div 2 ^ k mod 2 ^ n = unat v mod 2 ^ n"
  if "k + n \<le> 32" for v :: u32
proof -
  have w: "w AND push_bit k (mask n) = push_bit k (drop_bit k w AND mask n)"
    by (rule bit_word_eqI) (auto simp: bit_simps)
  have inj: "push_bit k (x AND mask n) = push_bit k (y AND mask n) \<longleftrightarrow> x AND mask n = y AND mask n" for x y :: u32
  proof
    assume eq: "push_bit k (x AND mask n) = push_bit k (y AND mask n)"
    show "x AND mask n = y AND mask n"
    proof (rule bit_word_eqI)
      fix j assume "j < LENGTH(32)"
      show "bit (x AND mask n) j = bit (y AND mask n) j"
      proof (cases "j < n")
        case True
        have "bit (push_bit k (x AND mask n)) (k + j) = bit (push_bit k (y AND mask n)) (k + j)" by (simp only: eq)
        with True that show ?thesis by (simp add: bit_simps)
      qed (simp add: bit_simps)
    qed
  qed simp
  have "unat (drop_bit k w AND mask n) = unat w div 2 ^ k mod 2 ^ n" by (simp only: and_mod unat_drop_bit)
  then show ?thesis unfolding w inj word_unat_eq_iff[of "drop_bit k w AND mask n"] by (simp only: and_mod)
qed

lemma compare_to_observes: "compare_to (dcr AND SPR_DCR_CT) action \<longleftrightarrow> unat dcr div 2 ^ 5 mod 8 \<in> dcr_observes action"
proof -
  have "dcr AND 0xe0 = push_bit 5 (k AND mask 3) \<longleftrightarrow> unat dcr div 2 ^ 5 mod 8 = unat k mod 8" for k
    using field_eq[of 5 3 dcr k] by (simp add: mask_eq_exp_minus_1)
  from this[of 1] this[of 2] this[of 3] this[of 4] this[of 5] this[of 6] this[of 7]
  have ct: "dcr AND 0xe0 = 0x20 \<longleftrightarrow> unat dcr div 2 ^ 5 mod 8 = 1" "dcr AND 0xe0 = 0x40 \<longleftrightarrow> unat dcr div 2 ^ 5 mod 8 = 2"
    "dcr AND 0xe0 = 0x60 \<longleftrightarrow> unat dcr div 2 ^ 5 mod 8 = 3" "dcr AND 0xe0 = 0x80 \<longleftrightarrow> unat dcr div 2 ^ 5 mod 8 = 4"
    "dcr AND 0xe0 = 0xa0 \<longleftrightarrow> unat dcr div 2 ^ 5 mod 8 = 5" "dcr AND 0xe0 = 0xc0 \<longleftrightarrow> unat dcr div 2 ^ 5 mod 8 = 6"
    "dcr AND 0xe0 = 0xe0 \<longleftrightarrow> unat dcr div 2 ^ 5 mod 8 = 7"
    by (simp_all add: mask_eq_exp_minus_1)
  show ?thesis unfolding compare_to_def ct by (cases action) (auto simp: dcr_observes_def)
qed

lemma compare_cond_compares:
  "compare_cond (dcr AND SPR_DCR_CC) sc data (ucast dvr) \<noteq> 0 \<longleftrightarrow> dcr_compares (unat dcr div 2 mod 8) sc data dvr"
proof -
  have "dcr AND 0xe = push_bit 1 (k AND mask 3) \<longleftrightarrow> unat dcr div 2 mod 8 = unat k mod 8" for k
    using field_eq[of 1 3 dcr k] by (simp add: mask_eq_exp_minus_1)
  from this[of 0] this[of 1] this[of 2] this[of 3] this[of 4] this[of 5] this[of 6]
  have cc: "dcr AND 0xe = 0 \<longleftrightarrow> unat dcr div 2 mod 8 = 0" "dcr AND 0xe = 2 \<longleftrightarrow> unat dcr div 2 mod 8 = 1"
    "dcr AND 0xe = 4 \<longleftrightarrow> unat dcr div 2 mod 8 = 2" "dcr AND 0xe = 6 \<longleftrightarrow> unat dcr div 2 mod 8 = 3"
    "dcr AND 0xe = 8 \<longleftrightarrow> unat dcr div 2 mod 8 = 4" "dcr AND 0xe = 0xa \<longleftrightarrow> unat dcr div 2 mod 8 = 5"
    "dcr AND 0xe = 0xc \<longleftrightarrow> unat dcr div 2 mod 8 = 6"
    by (simp_all add: mask_eq_exp_minus_1)
  have low: "(ucast (data AND ucast dvr) :: u8) \<noteq> 0 \<longleftrightarrow> (\<exists>n<8. bit data n \<and> bit dvr n)"
    unfolding bit_eq_iff by (auto simp: bit_simps)
  have u: "uint (ucast dvr :: u64) = uint dvr" by (simp add: uint_up_ucast is_up)
  have "uint dvr < 2 ^ 32" using uint_lt2p[of dvr] by simp
  then have s: "sint (ucast dvr :: u64) = uint dvr"
    by (subst sint_uint, subst u, intro signed_take_bit_int_eq_self) (simp_all add: order_trans[of _ 0])
  have eq: "data = ucast dvr \<longleftrightarrow> uint data = uint dvr" using u by (metis word_uint_eq_iff)
  have "sint v = sint w \<longleftrightarrow> v = w" for v w :: u64 by (auto intro: signed_word_eqI)
  from this[of data "ucast dvr"] have eqs: "data = ucast dvr \<longleftrightarrow> sint data = uint dvr" unfolding s by simp
  show ?thesis
  proof (cases sc)
    case True
    then show ?thesis unfolding compare_cond_def dcr_compares_def Let_def cc by (auto simp: low word_sless_alt s eqs)
  next
    case False
    then show ?thesis unfolding compare_cond_def dcr_compares_def Let_def cc by (auto simp: low word_less_def u eq)
  qed
qed


lemma matchpoint_hit:
  "matchpoint s action udata i \<noteq> 0 \<longleftrightarrow> mp_hit (sprs s (SPR_DCR i)) (sprs s (SPR_DVR i)) action udata"
proof -
  have present: "w AND 1 = 1 \<longleftrightarrow> bit w 0" for w :: u32 by (rule and_one_bit)
  have signed: "w AND 0x10 = 0x10 \<longleftrightarrow> bit w 4" for w :: u32 using flag_bit[of 4 w] by simp
  show ?thesis
    unfolding matchpoint_def mp_hit_def Let_def present signed compare_to_observes
    using compare_cond_compares by auto
qed

lemma chain_link: "chain dmr1 i mp prev \<noteq> 0 \<longleftrightarrow> wp_link dmr1 i (mp \<noteq> 0) (prev \<noteq> 0)"
proof -
  have "unat (drop_bit (2 * i) dmr1 AND mask 2) = unat dmr1 div 4 ^ i mod 4"
    by (simp only: and_mod unat_drop_bit power_mult) simp
  then have k: "unat (drop_bit (2 * i) dmr1 AND 3) = unat dmr1 div 4 ^ i mod 4" by (simp add: mask_eq_exp_minus_1)
  show ?thesis unfolding chain_def wp_link_def Let_def k[symmetric] by (auto simp: word_unat_eq_iff)
qed

lemma watchpoint_wp_set: "watchpoint dmr1 mp i \<noteq> 0 \<longleftrightarrow> wp_set dmr1 (\<lambda>i. mp i \<noteq> 0) i"
proof (induction i)
  case 0
  have "unat (dmr1 AND mask 2) = unat dmr1 mod 4" by (simp only: and_mod) simp
  then have "unat (dmr1 AND 3) = unat dmr1 mod 4" by (simp add: mask_eq_exp_minus_1)
  then show ?case by (auto simp: word_unat_eq_iff)
next
  case (Suc i)
  then show ?case by (simp only: watchpoint.simps wp_set.simps chain_link)
qed

lemma wp_set_cong: "(\<And>j. j \<le> i \<Longrightarrow> m j = m' j) \<Longrightarrow> wp_set dmr1 m i = wp_set dmr1 m' i"
  by (induction i) auto

text \<open>The fold over the watchpoints counts.\<close>

lemma count_watchpoints_result:
  "count_watchpoints dmr2 wp e0 e1 (c0, c1) =
     (c0 + of_nat (if e0 then wp_events dmr2 (\<lambda>i. wp i \<noteq> 0) 0 else 0), c1 + of_nat (if e1 then wp_events dmr2 (\<lambda>i. wp i \<noteq> 0) 1 else 0))"
proof -
  have awtc: "drop_bit (SPR_DMR2_AWTC_OFF + i) dmr2 AND 1 \<noteq> 1 \<longleftrightarrow> \<not> bit dmr2 (2 + i)" for i
    by (simp only: and_one_bit bit_drop_bit_eq) simp
  have "fold (\<lambda>i (counter0, counter1).
             if drop_bit (SPR_DMR2_AWTC_OFF + i) dmr2 AND 1 \<noteq> 1
             then (if e0 \<and> wp i \<noteq> 0 then (counter0 + 1, counter1) else (counter0, counter1))
             else (if e1 \<and> wp i \<noteq> 0 then (counter0, counter1 + 1) else (counter0, counter1))) xs (c0, c1) =
     (c0 + of_nat (if e0 then length (filter (\<lambda>i. wp i \<noteq> 0 \<and> \<not> bit dmr2 (2 + i)) xs) else 0),
      c1 + of_nat (if e1 then length (filter (\<lambda>i. wp i \<noteq> 0 \<and> bit dmr2 (2 + i)) xs) else 0))" for xs
    unfolding awtc by (induction xs arbitrary: c0 c1) auto
  from this[of "[0..<8]"] show ?thesis unfolding count_watchpoints_def wp_events_def by (simp only: simp_thms one_neq_zero zero_neq_one)
qed

text \<open>The two halves of a stored counter.\<close>

lemma store_count_halves:
  fixes dwcr :: u32 and k :: nat
  defines "n \<equiv> (unat dwcr mod 2 ^ 16 + k) mod 2 ^ 16"
  shows "unat (store_count dwcr (ucast dwcr + of_nat k)) mod 2 ^ 16 = n"
    "unat (store_count dwcr (ucast dwcr + of_nat k)) div 2 ^ 16 = (if 2 ^ 15 \<le> n then 0xffff else unat dwcr div 2 ^ 16)"
proof -
  let ?c = "ucast dwcr + of_nat k :: u16"
  have c: "unat ?c = n"
    by (simp add: n_def unat_word_ariths unsigned_ucast_eq take_bit_eq_mod unat_of_nat mod_simps)
  have top: "bit ?c 15 \<longleftrightarrow> 2 ^ 15 \<le> n"
  proof -
    have "n < 65536" by (simp add: n_def)
    then have "n div 32768 < 2" by (simp add: less_mult_imp_div_less)
    then have "odd (n div 32768) \<longleftrightarrow> n div 32768 \<noteq> 0" by (cases "n div 32768") auto
    also have "\<dots> \<longleftrightarrow> 32768 \<le> n" by (simp add: div_eq_0_iff not_less)
    finally have "odd (n div 32768) \<longleftrightarrow> 32768 \<le> n" .
    then have "bit n 15 \<longleftrightarrow> 2 ^ 15 \<le> n" by (simp add: bit_iff_odd)
    then show ?thesis by (simp flip: c add: bit_unsigned_iff)
  qed
  have m: "SPR_DWCR_MATCH = push_bit 16 (mask 16)" "SPR_DWCR_COUNT = mask 16" by (simp_all add: mask_eq_exp_minus_1)
  have low: "unat (w AND SPR_DWCR_COUNT) = unat w mod 2 ^ 16" for w :: u32 unfolding m by (rule and_mod)
  have high: "unat (drop_bit 16 (w AND SPR_DWCR_MATCH)) = unat w div 2 ^ 16" for w :: u32
  proof -
    have "drop_bit 16 (w AND SPR_DWCR_MATCH) = drop_bit 16 w" unfolding m by (rule bit_word_eqI) (auto simp: bit_simps dest: bit_imp_le_length)
    then show ?thesis by (simp only: unat_drop_bit)
  qed
  have "unat (ucast ?c :: u32) = n" using c by (simp add: unsigned_ucast_eq take_bit_eq_mod n_def)
  then show "unat (store_count dwcr ?c) mod 2 ^ 16 = n"
    unfolding low[symmetric] store_count_keeps_match[THEN conjunct2] .
  have "unat (store_count dwcr ?c) div 2 ^ 16 = unat (drop_bit 16 (store_count dwcr ?c AND SPR_DWCR_MATCH))" by (simp only: high)
  also have "\<dots> = unat (drop_bit 16 (if 2 ^ 15 \<le> n then SPR_DWCR_MATCH else dwcr AND SPR_DWCR_MATCH))"
    by (simp only: store_count_keeps_match[THEN conjunct1] top)
  also have "\<dots> = (if 2 ^ 15 \<le> n then 0xffff else unat dwcr div 2 ^ 16)" by (simp only: high if_distrib) simp
  finally show "unat (store_count dwcr ?c) div 2 ^ 16 = (if 2 ^ 15 \<le> n then 0xffff else unat dwcr div 2 ^ 16)" .
qed

lemma count_matched_halves: "count_matched dwcr \<noteq> 0 \<longleftrightarrow> unat dwcr mod 2 ^ 16 = unat dwcr div 2 ^ 16"
proof -
  have "unat (dwcr AND mask 16) = unat dwcr mod 2 ^ 16" by (rule and_mod)
  moreover have "drop_bit 16 (dwcr AND push_bit 16 (mask 16)) = drop_bit 16 dwcr"
    by (rule bit_word_eqI) (auto simp: bit_simps dest: bit_imp_le_length)
  ultimately show ?thesis by (simp add: count_matched_def word_unat_eq_iff unat_drop_bit mask_eq_exp_minus_1)
qed


text \<open>The state after the counters, and the status bits.\<close>

lemma update_counters_halves:
  fixes s :: "'z machine_scheme" and wp :: "nat \<Rightarrow> u8"
  assumes "c < 2"
  defines "s' \<equiv> update_counters wp s"
    and "n \<equiv> count_after (sprs s SPR_DMR2) (\<lambda>i. wp i \<noteq> 0) c (sprs s (SPR_DWCR0 + c))"
  shows "unat (sprs s' (SPR_DWCR0 + c)) mod 2 ^ 16 = n \<and> unat (sprs s' (SPR_DWCR0 + c)) div 2 ^ 16 = match_after (sprs s SPR_DMR2) n (sprs s (SPR_DWCR0 + c))"
proof -
  let ?d = "sprs s SPR_DMR2"
  have en: "?d AND 1 = 1 \<longleftrightarrow> bit ?d 0" by (rule and_one_bit)
  have en1: "?d AND 2 = 2 \<longleftrightarrow> bit ?d 1"
    using flag_bit[of 1 ?d] by simp
  define w where "w = sprs s (SPR_DWCR0 + c)"
  define k where "k = (if bit ?d c then wp_events ?d (\<lambda>i. wp i \<noteq> 0) c else 0)"
  have "c = 0 \<or> c = 1" using assms(1) by linarith
  then have "sprs s' (SPR_DWCR0 + c) = (if bit ?d 0 \<or> bit ?d 1 then store_count w (ucast w + of_nat k) else w)"
    unfolding s'_def update_counters_def Let_def en en1 count_watchpoints_result k_def w_def by (elim disjE) simp_all
  moreover have "k = 0" if "\<not> (bit ?d 0 \<or> bit ?d 1)" using that \<open>c = 0 \<or> c = 1\<close> by (auto simp: k_def)
  ultimately show ?thesis
    using store_count_halves[of w k] unfolding n_def count_after_def match_after_def k_def[symmetric] w_def[symmetric] by simp
qed



lemma all_watchpoints_wp_set:
  assumes "i < 10"
  shows "all_watchpoints dmr1 (watchpoint dmr1 mp) s i \<noteq> 0
    \<longleftrightarrow> wp_set dmr1 (\<lambda>i. if i < 8 then mp i \<noteq> 0 else count_matched (sprs s (SPR_DWCR0 + (i - 8))) \<noteq> 0) i"
proof -
  let ?m = "\<lambda>i. if i < 8 then mp i \<noteq> 0 else count_matched (sprs s (SPR_DWCR0 + (i - 8))) \<noteq> 0"
  have low: "wp_set dmr1 ?m i \<longleftrightarrow> watchpoint dmr1 mp i \<noteq> 0" if "i < 8" for i
    unfolding watchpoint_wp_set using that by (intro wp_set_cong) simp
  have up: "wp_set dmr1 ?m 8 = wp_link dmr1 8 (?m 8) (wp_set dmr1 ?m 7)" "wp_set dmr1 ?m 9 = wp_link dmr1 9 (?m 9) (wp_set dmr1 ?m 8)"
    using wp_set.simps(2)[of dmr1 ?m 7] wp_set.simps(2)[of dmr1 ?m 8] by simp_all
  consider "i < 8" | "i = 8" | "i = 9" using assms by linarith
  then show ?thesis
  proof cases
    case 1
    then show ?thesis using low by (simp add: all_watchpoints_def Let_def)
  next
    case 2
    then show ?thesis using low[of 7] up(1) by (simp add: all_watchpoints_def Let_def chain_link)
  next
    case 3
    then show ?thesis using low[of 7] up by (simp add: all_watchpoints_def Let_def chain_link)
  qed
qed

lemma mark_breakpoints_bits:
  "bit (fst (mark_breakpoints wp dmr2)) n \<longleftrightarrow> bit dmr2 n \<or> (\<exists>i<10. n = 22 + i \<and> bit dmr2 (12 + i) \<and> wp i \<noteq> 0)"
proof -
  have "bit (fst (fold (\<lambda>i (dmr2, found).
             if drop_bit (SPR_DMR2_WGB_OFF + i) dmr2 AND 1 = 1 \<and> wp i \<noteq> 0
             then (dmr2 OR push_bit (SPR_DMR2_WBS_OFF + i) 1, True) else (dmr2, found)) xs (d, f))) n
      \<longleftrightarrow> bit d n \<or> (\<exists>i\<in>set xs. n = 22 + i \<and> bit d (12 + i) \<and> wp i \<noteq> 0)" if "set xs \<subseteq> {..<10}" for xs and d :: u32 and f
    using that
  proof (induction xs arbitrary: d f)
    case (Cons i xs)
    have awtc: "drop_bit (SPR_DMR2_WGB_OFF + i) d AND 1 = 1 \<longleftrightarrow> bit d (12 + i)"
      by (simp only: and_one_bit bit_drop_bit_eq) simp
    let ?d = "d OR 2 ^ (SPR_DMR2_WBS_OFF + i)"
    have i: "i < 10" "\<forall>k\<in>set xs. k < 10" using Cons.prems by auto
    have new: "bit ?d m \<longleftrightarrow> bit d m \<or> m = 22 + i" for m using i(1) by (auto simp: bit_or_iff bit_exp_iff)
    show ?case
    proof (cases "bit d (12 + i) \<and> wp i \<noteq> 0")
      case True
      have "(\<exists>k\<in>set xs. n = 22 + k \<and> bit ?d (12 + k) \<and> wp k \<noteq> 0) \<longleftrightarrow> (\<exists>k\<in>set xs. n = 22 + k \<and> bit d (12 + k) \<and> wp k \<noteq> 0)"
        using i by (auto simp: new)
      then show ?thesis using Cons.IH[of ?d True] Cons.prems True awtc by (auto simp: new)
    next
      case False
      then show ?thesis using Cons.IH[of d f] Cons.prems awtc by auto
    qed
  qed simp
  from this[of "[0..<10]" dmr2 False] show ?thesis
    unfolding mark_breakpoints_def by (simp only: set_upt atLeastLessThan_iff) (auto simp: lessThan_atLeast0)
qed

text \<open>
  C35: what a check does. Nothing happens unless the unit is enabled and out of reset, one of the fields
  \<^verbatim>\<open>WGB\<close> and \<^verbatim>\<open>AWTC\<close> of \<^verbatim>\<open>DMR2\<close> is not zero, and a matchpoint hits. (The comment there
  speaks of watchpoints enabled to count; the code does not look at the counter enables but at the assignment
  to the second counter.) Then the first eight watchpoints follow from the hits by the chain of
  \<^verbatim>\<open>DMR1\<close>, alone, in conjunction or in disjunction with the watchpoint before; the enabled counters
  grow by the number of set watchpoints assigned to them, modulo 2^16; the last two watchpoints follow from the
  new counts that have reached their match values, in the same chain; a breakpoint is reported exactly when a
  watchpoint is set that may break; and \<^verbatim>\<open>DMR2\<close> records those watchpoints in its status bits.
  Where the code falls short the specification says so: a masked comparison sees only the low eight bits, a
  signed comparison takes the data as signed but the register as unsigned, and a count of 2^15 or more
  overwrites the match value of its register. Nothing else changes.
\<close>

theorem check_debug_unit_exact:
  fixes s :: "'z machine_scheme"
  shows "let dmr1 = sprs s SPR_DMR1; dmr2 = sprs s SPR_DMR2;
      hits = (\<lambda>i. mp_hit (sprs s (SPR_DCR i)) (sprs s (SPR_DVR i)) action udata);
      count = (\<lambda>c. count_after dmr2 (wp_set dmr1 hits) c (sprs s (SPR_DWCR0 + c)));
      match = (\<lambda>c. match_after dmr2 (count c) (sprs s (SPR_DWCR0 + c)));
      w = wp_set dmr1 (\<lambda>i. if i < 8 then hits i else count (i - 8) = match (i - 8));
      found = fst (check_debug_unit action udata s); t = snd (check_debug_unit action udata s)
    in if debug_enabled (cfg s) \<and> \<not> in_reset s \<and> spr_has s SPR_DMR2 (SPR_DMR2_WGB OR SPR_DMR2_AWTC) \<and> (\<exists>i<8. hits i)
       then (found \<longleftrightarrow> (\<exists>i<10. bit dmr2 (12 + i) \<and> w i))
         \<and> (\<forall>n. bit (sprs t SPR_DMR2) n \<longleftrightarrow> bit dmr2 n \<or> (\<exists>i<10. n = 22 + i \<and> bit dmr2 (12 + i) \<and> w i))
         \<and> (\<forall>c\<in>{0, 1}. unat (sprs t (SPR_DWCR0 + c)) = match c * 2 ^ 16 + count c)
         \<and> t = s\<lparr>sprs := (sprs s)(SPR_DMR2 := sprs t SPR_DMR2, SPR_DWCR0 := sprs t SPR_DWCR0, SPR_DWCR1 := sprs t SPR_DWCR1)\<rparr>
       else \<not> found \<and> t = s"
proof -
  define active where "active \<longleftrightarrow> debug_enabled (cfg s) \<and> \<not> in_reset s \<and> spr_has s SPR_DMR2 (SPR_DMR2_WGB OR SPR_DMR2_AWTC)"
  define hits where "hits i = mp_hit (sprs s (SPR_DCR i)) (sprs s (SPR_DVR i)) action udata" for i
  define mp where "mp = matchpoint s action udata"
  have mp: "mp i \<noteq> 0 \<longleftrightarrow> hits i" for i by (simp add: mp_def hits_def matchpoint_hit)
  define u where "u = update_counters (watchpoint (sprs s SPR_DMR1) mp) s"
  define count where "count c = count_after (sprs s SPR_DMR2) (wp_set (sprs s SPR_DMR1) hits) c (sprs s (SPR_DWCR0 + c))" for c
  define mt where "mt c = match_after (sprs s SPR_DMR2) (count c) (sprs s (SPR_DWCR0 + c))" for c
  define w where "w = wp_set (sprs s SPR_DMR1) (\<lambda>i. if i < 8 then hits i else count (i - 8) = mt (i - 8))"
  have ww: "(\<lambda>i. watchpoint (sprs s SPR_DMR1) mp i \<noteq> 0) = wp_set (sprs s SPR_DMR1) hits"
    by (simp add: fun_eq_iff watchpoint_wp_set mp)
  have halves: "unat (sprs u (SPR_DWCR0 + c)) mod 2 ^ 16 = count c" "unat (sprs u (SPR_DWCR0 + c)) div 2 ^ 16 = mt c" if "c < 2" for c
    using update_counters_halves[OF that, of "watchpoint (sprs s SPR_DMR1) mp" s] unfolding ww u_def mt_def count_def by simp_all
  have counters: "unat (sprs u (SPR_DWCR0 + c)) = mt c * 2 ^ 16 + count c" if "c < 2" for c
    using div_mult_mod_eq[of "unat (sprs u (SPR_DWCR0 + c))" "2 ^ 16"] unfolding halves[OF that] by simp
  have all: "all_watchpoints (sprs s SPR_DMR1) (watchpoint (sprs s SPR_DMR1) mp) u i \<noteq> 0 \<longleftrightarrow> w i" if "i < 10" for i
    unfolding all_watchpoints_wp_set[OF that] w_def
  proof (rule wp_set_cong)
    fix j assume "j \<le> i"
    then have "j - 8 < 2" using that by simp
    note h = halves[OF this]
    show "(if j < 8 then mp j \<noteq> 0 else count_matched (sprs u (SPR_DWCR0 + (j - 8))) \<noteq> 0) = (if j < 8 then hits j else count (j - 8) = mt (j - 8))"
      unfolding count_matched_halves h mp by (rule refl)
  qed
  have keep: "sprs u n = sprs s n" if "n \<notin> {SPR_DWCR0, SPR_DWCR1}" for n
    using that by (simp add: u_def update_counters_def Let_def case_prod_unfold)
  have "u\<lparr>sprs := f\<rparr> = s\<lparr>sprs := f\<rparr>" for f by (simp add: u_def update_counters_def Let_def case_prod_unfold)
  moreover have "(sprs u)(SPR_DMR2 := x) = (sprs s)(SPR_DMR2 := x, SPR_DWCR0 := sprs u SPR_DWCR0, SPR_DWCR1 := sprs u SPR_DWCR1)" for x
    using keep by (auto simp: fun_eq_iff)
  ultimately have frame: "set_spr SPR_DMR2 x u = s\<lparr>sprs := (sprs s)(SPR_DMR2 := x, SPR_DWCR0 := sprs u SPR_DWCR0, SPR_DWCR1 := sprs u SPR_DWCR1)\<rparr>" for x
    by (simp only:)
  have none: "(\<forall>i\<in>set [0..<8]. mp i = 0) \<longleftrightarrow> \<not> (\<exists>i<8. hits i)" by (auto simp flip: mp)
  define m where "m = mark_breakpoints (all_watchpoints (sprs s SPR_DMR1) (watchpoint (sprs s SPR_DMR1) mp) u) (sprs s SPR_DMR2)"
  have check: "check_debug_unit action udata s = (if active \<and> (\<exists>i<8. hits i) then (snd m, set_spr SPR_DMR2 (fst m) u) else (False, s))"
    unfolding check_debug_unit_def calculate_watchpoints_def mp_def[symmetric] Let_def u_def[symmetric] m_def[symmetric] case_prod_unfold none
    by (cases "\<exists>i<8. hits i"; cases "debug_enabled (cfg s)"; cases "in_reset s";
        cases "spr_has s SPR_DMR2 (SPR_DMR2_WGB OR SPR_DMR2_AWTC)") (simp_all only: active_def if_True if_False simp_thms)
  have found: "snd m \<longleftrightarrow> (\<exists>i<10. bit (sprs s SPR_DMR2) (12 + i) \<and> w i)"
    unfolding m_def mark_breakpoints_found using all by blast
  have status: "bit (fst m) n \<longleftrightarrow> bit (sprs s SPR_DMR2) n \<or> (\<exists>i<10. n = 22 + i \<and> bit (sprs s SPR_DMR2) (12 + i) \<and> w i)" for n
    unfolding m_def mark_breakpoints_bits using all by blast
  have two: "\<forall>c\<in>{0, 1}. unat (sprs u (SPR_DWCR0 + c)) = mt c * 2 ^ 16 + count c" using counters[of 0] counters[of 1] by simp
  show ?thesis
  proof (cases "active \<and> (\<exists>i<8. hits i)")
    case True
    note cond = True[unfolded active_def conj_assoc]
    show ?thesis
      unfolding Let_def hits_def[symmetric] count_def[symmetric] mt_def[symmetric] w_def[symmetric] check if_P[OF True] if_P[OF cond]
      using found status two frame[of "fst m"] by simp
  next
    case False
    note cond = False[unfolded active_def conj_assoc]
    show ?thesis
      unfolding Let_def hits_def[symmetric] count_def[symmetric] mt_def[symmetric] w_def[symmetric] check if_not_P[OF False] if_not_P[OF cond] by simp
  qed
qed

abbreviation fetch_break :: machine where
  "fetch_break \<equiv> zero_machine\<lparr>cfg := zero_config\<lparr>debug_enabled := True\<rparr>,
     sprs := (\<lambda>_. 0)(SPR_DCR 0 := 0x23, SPR_DVR 0 := 0x100, SPR_DCR 1 := 0x27, SPR_DVR 1 := 0x200,
       SPR_DMR1 := 0x4, SPR_DMR2 := 0x2001)\<rparr>"

theorem check_debug_unit_exact_witness:
  "let r = check_debug_unit DebugInstructionFetch 0x100 fetch_break in fst r \<and> unat (sprs (snd r) SPR_DWCR0) = 2"
proof -
  have cfg: "debug_enabled (cfg fetch_break)" "\<not> in_reset fetch_break"
    "spr_has fetch_break SPR_DMR2 (SPR_DMR2_WGB OR SPR_DMR2_AWTC)"
    by (simp_all add: zero_machine_def zero_config_def)
  define hits where "hits i = mp_hit (sprs fetch_break (SPR_DCR i)) (sprs fetch_break (SPR_DVR i)) DebugInstructionFetch 0x100" for i
  have h: "hits i \<longleftrightarrow> i < 2" if "i < 8" for i
  proof -
    have "i \<in> {0, 1, 2, 3, 4, 5, 6, 7}" using that by auto
    then show ?thesis by (auto simp: hits_def mp_hit_def dcr_observes_def dcr_compares_def bit_simps bit_numeral_rec)
  qed
  have set: "wp_set 4 hits i \<longleftrightarrow> i < 2" if "i < 8" for i
  proof (cases i)
    case 0
    then show ?thesis by (simp add: h)
  next
    case (Suc j)
    show ?thesis
    proof (cases "j = 0")
      case True
      then show ?thesis by (simp add: Suc wp_link_def h)
    next
      case False
      then have "(4 :: nat) ^ 2 \<le> 4 ^ Suc j" by (intro power_increasing) simp_all
      then have "(4 :: nat) div 4 ^ Suc j = 0" by (intro div_less) simp
      then show ?thesis using that False h[OF that] by (simp add: Suc wp_link_def)
    qed
  qed
  have "filter (\<lambda>i. wp_set 4 hits i \<and> bit (0x2001 :: u32) (2 + i) = (0 = (1 :: nat))) [0..<8] = filter (\<lambda>i. i < 2) [0..<8]"
    by (intro filter_cong refl) (auto simp: set bit_numeral_rec less_2_cases_iff)
  then have "wp_events 0x2001 (wp_set 4 hits) 0 = length (filter (\<lambda>i. i < 2) [0..<8])" by (simp only: wp_events_def)
  then have "wp_events 0x2001 (wp_set 4 hits) 0 = 2" by (simp add: upt_rec)
  then have count: "count_after 0x2001 (wp_set 4 hits) 0 0 = 2" by (simp add: count_after_def)
  have "\<exists>i<8. hits i" using h[of 0] by (intro exI[of _ 0]) simp
  with cfg have e: "debug_enabled (cfg fetch_break) \<and> \<not> in_reset fetch_break
      \<and> spr_has fetch_break SPR_DMR2 (SPR_DMR2_WGB OR SPR_DMR2_AWTC) \<and> (\<exists>i<8. hits i)" by blast
  have sp: "sprs fetch_break SPR_DMR1 = 4" "sprs fetch_break SPR_DMR2 = 0x2001" "sprs fetch_break (SPR_DWCR0 + 0) = 0" by simp_all
  note r = check_debug_unit_exact[of fetch_break DebugInstructionFetch "0x100", unfolded Let_def, folded hits_def, unfolded if_P[OF e]]
  have "\<exists>i<10. bit (0x2001 :: u32) (12 + i) \<and> wp_set 4 (\<lambda>i. if i < 8 then hits i else f i) i" for f
  proof -
    have "wp_set 4 (\<lambda>i. if i < 8 then hits i else f i) 1 = wp_set 4 hits 1" by (rule wp_set_cong) simp
    then show ?thesis using set[of 1] by (intro exI[of _ 1]) (simp add: bit_numeral_rec)
  qed
  then have "fst (check_debug_unit DebugInstructionFetch 0x100 fetch_break)" using r[THEN conjunct1] unfolding sp by simp
  moreover have "unat (sprs (snd (check_debug_unit DebugInstructionFetch 0x100 fetch_break)) (SPR_DWCR0 + 0)) = 2"
    using r[THEN conjunct2, THEN conjunct2, THEN conjunct1, rule_format, of 0] unfolding sp count by (simp add: match_after_def)
  ultimately show ?thesis by (simp add: Let_def)
qed

end
