(* ===== verification/Except.thy ===== *)
theory Except
  imports DebugUnit
begin

text \<open>
  Exception entry, \<^verbatim>\<open>except_handle\<close> of \<^verbatim>\<open>cpu/or1k/except.c\<close>, and the
  performance counters of \<^verbatim>\<open>pcu/pcu.c\<close>.
\<close>

section \<open>Exception entry\<close>

text \<open>The state after the status register has been saved and changed.\<close>

definition except_enter :: "u32 \<Rightarrow> u32 \<Rightarrow> 'z machine_scheme \<Rightarrow> 'z machine_scheme" where
  "except_enter except ea s =
     (let except_vector = except + (if spr_has s SPR_SR SPR_SR_EPH then 0xf0000000 else 0);
          s = s\<lparr>except_pending := True, pcnext := except_vector\<rparr>;
          s = set_spr SPR_EEAR_BASE ea s;
          s = set_spr SPR_ESR_BASE (sprs s SPR_SR) s;
          s = clear_spr SPR_SR SPR_SR_OVE s;
          s = or_spr SPR_SR SPR_SR_SM s;
          s = clear_spr SPR_SR (SPR_SR_IEE OR SPR_SR_TEE) s
      in clear_spr SPR_SR SPR_SR_DME s)"

text \<open>The \<^verbatim>\<open>switch\<close> over the exceptions, which sets the return address.\<close>

definition except_return :: "u32 \<Rightarrow> u32 \<Rightarrow> 'z machine_scheme \<Rightarrow> 'z machine_scheme" where
  "except_return except ea s =
     (let back = (if delay_insn s then 4 else 0) in
      if except = EXCEPT_ITLBMISS \<or> except = EXCEPT_IPF then
        set_spr SPR_EPCR_BASE (ea - back) s
      else if except = EXCEPT_BUSERR \<or> except = EXCEPT_DPF \<or> except = EXCEPT_ALIGN
           \<or> except = EXCEPT_ILLEGAL \<or> except = EXCEPT_DTLBMISS \<or> except = EXCEPT_RANGE
           \<or> except = EXCEPT_TRAP then
        set_spr SPR_EPCR_BASE (pc s - back) s
      else if except = EXCEPT_FPE \<or> except = EXCEPT_SYSCALL then
        set_spr SPR_EPCR_BASE (pc s + 4 - back) s
      else if except = EXCEPT_TICK \<or> except = EXCEPT_INT then
        (set_spr SPR_EPCR_BASE (pc s - back) s)\<lparr>pc := pcnext s, pcnext := pcnext s + 4\<rparr>
      else s)"

definition except_handle :: "u32 \<Rightarrow> u32 \<Rightarrow> 'z machine_scheme \<Rightarrow> 'z machine_scheme" where
  "except_handle except ea s =
     (let (ignore, s) = debug_ignore_exception except (s\<lparr>loadlock_active := False\<rparr>) in
      if ignore then s
      else (clear_spr SPR_SR SPR_SR_IME (except_return except ea (except_enter except ea s)))
             \<lparr>delay_insn := False\<rparr>)"

section \<open>Performance counters\<close>

definition pcu_count :: "u32 \<Rightarrow> nat \<Rightarrow> 'z machine_scheme \<Rightarrow> 'z machine_scheme" where
  "pcu_count event i s =
     (if event AND sprs s (SPR_PCMR i) \<noteq> 0
         \<and> ((spr_has s (SPR_PCMR i) SPR_PCMR_CISM \<and> spr_has s SPR_SR SPR_SR_SM)
            \<or> (spr_has s (SPR_PCMR i) SPR_PCMR_CIUM \<and> \<not> spr_has s SPR_SR SPR_SR_SM))
      then set_spr (SPR_PCCR i) (sprs s (SPR_PCCR i) + 1) s else s)"

definition pcu_count_event :: "u32 \<Rightarrow> 'z machine_scheme \<Rightarrow> 'z machine_scheme" where
  "pcu_count_event event s = fold (pcu_count event) [0..<8] s"

definition pcu_enabled_param :: "int \<Rightarrow> 'z machine_scheme \<Rightarrow> 'z machine_scheme" where
  "pcu_enabled_param val s =
     (let s = (if val \<noteq> 0 then
                 fold (\<lambda>i. set_spr (SPR_PCMR i) SPR_PCMR_CP) [0..<8] (or_spr SPR_UPR SPR_UPR_PCUP s)
               else clear_spr SPR_UPR SPR_UPR_PCUP s)
      in s\<lparr>cfg := (cfg s)\<lparr>pcu_enabled := (val \<noteq> 0)\<rparr>\<rparr>)"

section \<open>Lemmas\<close>

lemma dsr_bit_simps [simp]:
  "dsr_bit EXCEPT_TICK = SPR_DSR_TTE" "dsr_bit EXCEPT_INT = SPR_DSR_IE"
  "dsr_bit EXCEPT_ALIGN = SPR_DSR_AE" "dsr_bit EXCEPT_ILLEGAL = SPR_DSR_IIE"
  "dsr_bit EXCEPT_RANGE = SPR_DSR_RE" "dsr_bit EXCEPT_SYSCALL = SPR_DSR_SCE"
  "dsr_bit EXCEPT_TRAP = SPR_DSR_TE" "dsr_bit EXCEPT_DPF = SPR_DSR_DPFE"
  "dsr_bit EXCEPT_DTLBMISS = SPR_DSR_DME" "dsr_bit EXCEPT_BUSERR = SPR_DSR_BUSEE"
  "dsr_bit EXCEPT_IPF = SPR_DSR_IPFE" "dsr_bit EXCEPT_ITLBMISS = SPR_DSR_IME"
  "dsr_bit EXCEPT_FPE = 0"
  by (simp_all add: dsr_bit_def)

lemma set_stall_fields [simp]:
  "reg (set_stall_state b s) = reg s" "sprs (set_stall_state b s) = sprs s"
  "pc (set_stall_state b s) = pc s" "pcnext (set_stall_state b s) = pcnext s"
  "delay_insn (set_stall_state b s) = delay_insn s" "stalled (set_stall_state b s) = b"
  "sched (set_stall_state b s) = sched s" "cycles (set_stall_state b s) = cycles s"
  "cfg (set_stall_state b s) = cfg s" "except_pending (set_stall_state b s) = except_pending s"
  "loadlock_active (set_stall_state b s) = loadlock_active s"
  by (simp_all add: set_stall_state_def Let_def)

lemma rsp_exception_fields [simp]:
  "reg (rsp_exception e s) = reg s" "sprs (rsp_exception e s) = sprs s"
  "pc (rsp_exception e s) = pc s" "pcnext (rsp_exception e s) = pcnext s"
  "delay_insn (rsp_exception e s) = delay_insn s" "stalled (rsp_exception e s) = stalled s"
  "sched (rsp_exception e s) = sched s" "cycles (rsp_exception e s) = cycles s"
  "cfg (rsp_exception e s) = cfg s" "except_pending (rsp_exception e s) = except_pending s"
  "loadlock_active (rsp_exception e s) = loadlock_active s"
  by (simp_all add: rsp_exception_def split: option.split)

text \<open>An exception the debugger does not want.\<close>

lemma debug_not_ignored:
  "sprs s SPR_DSR AND dsr_bit e = 0 \<Longrightarrow>
     debug_ignore_exception e s = (False, set_stall_state False s)"
  by (simp add: debug_ignore_exception_def Let_def fun_upd_idem)

lemma debug_ignored:
  "sprs s SPR_DSR AND dsr_bit e \<noteq> 0 \<Longrightarrow> fst (debug_ignore_exception e s)"
  by (simp add: debug_ignore_exception_def Let_def)

lemma except_handle_taken:
  assumes "sprs s SPR_DSR AND dsr_bit e = 0"
  shows "except_handle e ea s =
    (clear_spr SPR_SR SPR_SR_IME (except_return e ea
       (except_enter e ea (set_stall_state False (s\<lparr>loadlock_active := False\<rparr>)))))\<lparr>delay_insn := False\<rparr>"
  using assms debug_not_ignored[of "s\<lparr>loadlock_active := False\<rparr>" e]
  by (simp add: except_handle_def)

lemma entry_mask:
  assumes "m AND a = (0 :: u32)"
  shows "((((sr AND NOT a) OR m) AND NOT b) AND NOT c) AND NOT d = (sr OR m) AND NOT (a OR b OR c OR d)"
proof (rule bit_word_eqI)
  fix n assume "n < LENGTH(32)"
  have "\<not> (bit m n \<and> bit a n)" using assms by (metis bit_0_eq bit_and_iff bot_apply bot_bool_def)
  with \<open>n < LENGTH(32)\<close>
  show "bit (((((sr AND NOT a) OR m) AND NOT b) AND NOT c) AND NOT d) n
      = bit ((sr OR m) AND NOT (a OR b OR c OR d)) n"
    by (auto simp: bit_simps)
qed

lemma except_enter_fields:
  "sprs (except_enter e ea s) = (sprs s)(SPR_EEAR_BASE := ea, SPR_ESR_BASE := sprs s SPR_SR,
     SPR_SR := (((sprs s SPR_SR AND NOT SPR_SR_OVE) OR SPR_SR_SM)
                  AND NOT (SPR_SR_IEE OR SPR_SR_TEE)) AND NOT SPR_SR_DME)"
  "pcnext (except_enter e ea s) = e + (if spr_has s SPR_SR SPR_SR_EPH then 0xf0000000 else 0)"
  "pc (except_enter e ea s) = pc s" "delay_insn (except_enter e ea s) = delay_insn s"
  "reg (except_enter e ea s) = reg s" "except_pending (except_enter e ea s)"
  "sched (except_enter e ea s) = sched s" "cycles (except_enter e ea s) = cycles s"
  "loadlock_active (except_enter e ea s) = loadlock_active s"
  by (simp_all add: except_enter_def Let_def fun_eq_iff)

text \<open>Where execution resumes, by the class of the exception.\<close>

definition resume_address :: "u32 \<Rightarrow> u32 \<Rightarrow> u32 \<Rightarrow> u32" where
  "resume_address e ea addr =
     (if e \<in> {EXCEPT_ITLBMISS, EXCEPT_IPF} then ea
      else if e \<in> {EXCEPT_FPE, EXCEPT_SYSCALL} then addr + 4 else addr)"

abbreviation (input) vectors :: "u32 set" where
  "vectors \<equiv> {EXCEPT_BUSERR, EXCEPT_DPF, EXCEPT_IPF, EXCEPT_TICK, EXCEPT_ALIGN, EXCEPT_ILLEGAL,
     EXCEPT_INT, EXCEPT_DTLBMISS, EXCEPT_ITLBMISS, EXCEPT_RANGE, EXCEPT_SYSCALL, EXCEPT_FPE, EXCEPT_TRAP}"

lemma except_return_fields:
  assumes "e \<in> vectors"
  shows "sprs (except_return e ea s) =
      (sprs s)(SPR_EPCR_BASE := resume_address e ea (pc s) - (if delay_insn s then 4 else 0))"
    and "pc (except_return e ea s) = (if e \<in> {EXCEPT_TICK, EXCEPT_INT} then pcnext s else pc s)"
    and "pcnext (except_return e ea s) = (if e \<in> {EXCEPT_TICK, EXCEPT_INT} then pcnext s + 4 else pcnext s)"
  using assms by (auto simp: except_return_def resume_address_def Let_def)

lemma except_return_other [simp]:
  "reg (except_return e ea s) = reg s" "except_pending (except_return e ea s) = except_pending s"
  "sched (except_return e ea s) = sched s" "cycles (except_return e ea s) = cycles s"
  "loadlock_active (except_return e ea s) = loadlock_active s"
  by (simp_all add: except_return_def Let_def)

text \<open>Counting an event changes the counters only.\<close>

lemma pcu_count_frame:
  "(pcu_count ev i s)\<lparr>sprs := f\<rparr> = s\<lparr>sprs := f\<rparr>"
  "n \<noteq> SPR_PCCR i \<Longrightarrow> sprs (pcu_count ev i s) n = sprs s n"
  by (simp_all add: pcu_count_def)

lemma pcu_count_fold_frame:
  "(fold (pcu_count ev) is s)\<lparr>sprs := f\<rparr> = s\<lparr>sprs := f\<rparr>"
  "(\<And>i. i \<in> set is \<Longrightarrow> n \<noteq> SPR_PCCR i) \<Longrightarrow> sprs (fold (pcu_count ev) is s) n = sprs s n"
  by (induction "is" arbitrary: s) (simp_all add: pcu_count_frame)

lemma pcu_count_event_frame:
  "(pcu_count_event ev s)\<lparr>sprs := f\<rparr> = s\<lparr>sprs := f\<rparr>"
  "n < SPR_PCCR 0 \<or> SPR_PCCR 7 < n \<Longrightarrow> sprs (pcu_count_event ev s) n = sprs s n"
  unfolding pcu_count_event_def using pcu_count_fold_frame by (blast, intro pcu_count_fold_frame(2)) auto

lemma pcu_count_event_fields [simp]:
  "pc (pcu_count_event ev s) = pc s" "pcnext (pcu_count_event ev s) = pcnext s"
  "reg (pcu_count_event ev s) = reg s" "except_pending (pcu_count_event ev s) = except_pending s"
  "delay_insn (pcu_count_event ev s) = delay_insn s" "cfg (pcu_count_event ev s) = cfg s"
proof -
  note frame = pcu_count_event_frame(1)[where ev = ev and s = s and f = undefined]
  show "pc (pcu_count_event ev s) = pc s" "pcnext (pcu_count_event ev s) = pcnext s"
    "reg (pcu_count_event ev s) = reg s" "except_pending (pcu_count_event ev s) = except_pending s"
    "delay_insn (pcu_count_event ev s) = delay_insn s" "cfg (pcu_count_event ev s) = cfg s"
    using arg_cong[OF frame, of pc] arg_cong[OF frame, of pcnext] arg_cong[OF frame, of reg] arg_cong[OF frame, of except_pending] arg_cong[OF frame, of delay_insn] arg_cong[OF frame, of cfg] by simp_all
qed

text \<open>The whole effect of an exception that is taken, field by field.\<close>

lemma except_handle_result:
  assumes "sprs s SPR_DSR AND dsr_bit e = 0" and "e \<in> vectors"
  shows "sprs (except_handle e ea s) = (sprs s)(SPR_EEAR_BASE := ea, SPR_ESR_BASE := sprs s SPR_SR,
      SPR_SR := (sprs s SPR_SR OR SPR_SR_SM)
        AND NOT (SPR_SR_OVE OR SPR_SR_IEE OR SPR_SR_TEE OR SPR_SR_DME OR SPR_SR_IME),
      SPR_EPCR_BASE := resume_address e ea (pc s) - (if delay_insn s then 4 else 0))"
    and "e \<notin> {EXCEPT_TICK, EXCEPT_INT} \<Longrightarrow> pc (except_handle e ea s) = pc s"
    and "e \<notin> {EXCEPT_TICK, EXCEPT_INT} \<Longrightarrow> pcnext (except_handle e ea s)
      = e + (if spr_has s SPR_SR SPR_SR_EPH then 0xf0000000 else 0)"
    and "e \<in> {EXCEPT_TICK, EXCEPT_INT} \<Longrightarrow> pc (except_handle e ea s)
      = e + (if spr_has s SPR_SR SPR_SR_EPH then 0xf0000000 else 0)"
    and "e \<in> {EXCEPT_TICK, EXCEPT_INT} \<Longrightarrow> pcnext (except_handle e ea s)
      = e + (if spr_has s SPR_SR SPR_SR_EPH then 0xf0000000 else 0) + 4"
    and "reg (except_handle e ea s) = reg s" "except_pending (except_handle e ea s)"
    and "\<not> delay_insn (except_handle e ea s)" "\<not> loadlock_active (except_handle e ea s)"
    and "sched (except_handle e ea s) = sched s" "cycles (except_handle e ea s) = cycles s"
proof -
  have mask: "((((sr AND NOT SPR_SR_OVE) OR SPR_SR_SM) AND NOT (SPR_SR_IEE OR SPR_SR_TEE))
      AND NOT SPR_SR_DME) AND NOT SPR_SR_IME = (sr OR SPR_SR_SM)
      AND NOT (SPR_SR_OVE OR SPR_SR_IEE OR SPR_SR_TEE OR SPR_SR_DME OR SPR_SR_IME)" for sr :: u32
    using entry_mask[of SPR_SR_SM SPR_SR_OVE sr "SPR_SR_IEE OR SPR_SR_TEE" SPR_SR_DME SPR_SR_IME]
    by (simp add: or.assoc)
  show "sprs (except_handle e ea s) = (sprs s)(SPR_EEAR_BASE := ea, SPR_ESR_BASE := sprs s SPR_SR,
      SPR_SR := (sprs s SPR_SR OR SPR_SR_SM)
        AND NOT (SPR_SR_OVE OR SPR_SR_IEE OR SPR_SR_TEE OR SPR_SR_DME OR SPR_SR_IME),
      SPR_EPCR_BASE := resume_address e ea (pc s) - (if delay_insn s then 4 else 0))"
    unfolding except_handle_taken[OF assms(1)] using mask[of "sprs s SPR_SR"]
    by (simp add: except_return_fields[OF assms(2)] except_enter_fields fun_eq_iff)
qed (simp_all add: except_handle_taken[OF assms(1)] except_return_fields[OF assms(2)] except_enter_fields)

text \<open>What the entry writes beside the special purpose registers and the program counters.\<close>

lemma except_return_frame:
  "(except_return e ea s)\<lparr>sprs := f, pc := a, pcnext := b\<rparr> = s\<lparr>sprs := f, pc := a, pcnext := b\<rparr>"
  by (simp add: except_return_def Let_def)

lemma except_enter_frame:
  "(except_enter e ea s)\<lparr>sprs := f, pcnext := b\<rparr> = s\<lparr>sprs := f, pcnext := b, except_pending := True\<rparr>"
  by (simp add: except_enter_def Let_def)

lemma except_handle_frame:
  fixes s :: "'z machine_scheme"
  assumes "sprs s SPR_DSR AND dsr_bit e = 0"
  shows "(except_handle e ea s)\<lparr>sprs := f, pc := a, pcnext := b\<rparr> =
    s\<lparr>sprs := f, pc := a, pcnext := b, delay_insn := False, except_pending := True, loadlock_active := False,
      stalled := False, halted := False, npc_not_valid := False,
      development := (development s)(DEVELOPINT_RISCOP := development s DEVELOPINT_RISCOP AND NOT RISCOP_STALL)\<rparr>"
proof -
  let ?u = "set_stall_state False (s\<lparr>loadlock_active := False\<rparr>)"
  let ?r = "except_return e ea (except_enter e ea ?u)"
  have "(except_handle e ea s)\<lparr>sprs := f, pc := a, pcnext := b\<rparr>
      = (?r\<lparr>sprs := f, pc := a, pcnext := b\<rparr>)\<lparr>delay_insn := False\<rparr>"
    by (simp add: except_handle_taken[OF assms])
  also have "\<dots> = ((except_enter e ea ?u)\<lparr>sprs := f, pcnext := b\<rparr>)\<lparr>pc := a, delay_insn := False\<rparr>"
    by (simp only: except_return_frame) simp
  also have "\<dots> = ?u\<lparr>sprs := f, pcnext := b, except_pending := True, pc := a, delay_insn := False\<rparr>"
    by (simp only: except_enter_frame)
  finally show ?thesis by (simp add: set_stall_state_def Let_def)
qed

section \<open>Properties\<close>

text \<open>
  C7: exception entry. An exception that the debugger does not claim saves the status
  register in \<^verbatim>\<open>ESR\<close> and the effective address in \<^verbatim>\<open>EEAR\<close>, enters supervisor
  mode with interrupts, the tick timer, overflow exceptions and both MMUs off, and continues at
  the vector, at once for the asynchronous exceptions (tick timer and interrupt), after the
  current instruction for the others. \<^verbatim>\<open>EPCR\<close> is the instruction to resume at, less the
  branch before it when the instruction is in a delay slot. An exception is then pending, the delay slot
  and a load lock are forgotten, and the processor is not stalled, in the record and in the development
  interface. The equation is the whole effect: every other field and every other special purpose register
  keeps its value.
\<close>

theorem except_handle_entry:
  fixes s :: "'z machine_scheme"
  assumes "sprs s SPR_DSR AND dsr_bit e = 0" and "e \<in> vectors"
  shows "let vector = e + (if spr_has s SPR_SR SPR_SR_EPH then 0xf0000000 else 0);
             at_once = (e \<in> {EXCEPT_TICK, EXCEPT_INT})
         in except_handle e ea s = s\<lparr>
              sprs := (sprs s)(SPR_ESR_BASE := sprs s SPR_SR, SPR_EEAR_BASE := ea,
                SPR_EPCR_BASE := resume_address e ea (pc s) - (if delay_insn s then 4 else 0),
                SPR_SR := (sprs s SPR_SR OR SPR_SR_SM)
                  AND NOT (SPR_SR_OVE OR SPR_SR_IEE OR SPR_SR_TEE OR SPR_SR_DME OR SPR_SR_IME)),
              pc := (if at_once then vector else pc s), pcnext := (if at_once then vector + 4 else vector),
              delay_insn := False, except_pending := True, loadlock_active := False,
              stalled := False, halted := False, npc_not_valid := False,
              development := (development s)(DEVELOPINT_RISCOP := development s DEVELOPINT_RISCOP AND NOT RISCOP_STALL)\<rparr>"
proof -
  let ?t = "except_handle e ea s"
  have sprs: "sprs ?t = (sprs s)(SPR_ESR_BASE := sprs s SPR_SR, SPR_EEAR_BASE := ea,
      SPR_EPCR_BASE := resume_address e ea (pc s) - (if delay_insn s then 4 else 0),
      SPR_SR := (sprs s SPR_SR OR SPR_SR_SM) AND NOT (SPR_SR_OVE OR SPR_SR_IEE OR SPR_SR_TEE OR SPR_SR_DME OR SPR_SR_IME))"
    unfolding except_handle_result(1)[OF assms] by (simp add: fun_eq_iff)
  let ?v = "e + (if spr_has s SPR_SR SPR_SR_EPH then 0xf0000000 else 0)"
  have pcs: "pc ?t = (if e \<in> {EXCEPT_TICK, EXCEPT_INT} then ?v else pc s)"
    "pcnext ?t = (if e \<in> {EXCEPT_TICK, EXCEPT_INT} then ?v + 4 else ?v)"
    using except_handle_result(2-5)[OF assms, of ea] by simp_all
  have "?t = ?t\<lparr>sprs := sprs ?t, pc := pc ?t, pcnext := pcnext ?t\<rparr>" by simp
  also note except_handle_frame[OF assms(1)]
  finally show ?thesis unfolding sprs pcs Let_def .
qed

theorem except_handle_entry_witness:
  "let s' = except_handle EXCEPT_SYSCALL 0 (zero_machine\<lparr>pc := 0x2000\<rparr>)
   in sprs s' SPR_EPCR_BASE = 0x2004 \<and> pcnext s' = 0xc00 \<and> sprs s' SPR_SR = SPR_SR_SM"
  using except_handle_entry[of "zero_machine\<lparr>pc := 0x2000\<rparr>" EXCEPT_SYSCALL 0]
  by (simp add: Let_def zero_machine_def resume_address_def)

text \<open>
  C28: an exception that \<^verbatim>\<open>DSR\<close> gives to the debugger stalls the processor, is recorded
  in \<^verbatim>\<open>DRR\<close> and changes neither the program counters nor the status register nor the
  general purpose registers: the processor does not take it.
\<close>

theorem except_handle_debugger:
  assumes "sprs s SPR_DSR AND dsr_bit e \<noteq> 0"
  shows "let s' = except_handle e ea s
         in stalled s' \<and> sprs s' = (sprs s)(SPR_DRR := sprs s SPR_DRR OR (sprs s SPR_DSR AND dsr_bit e))
          \<and> pc s' = pc s \<and> pcnext s' = pcnext s \<and> reg s' = reg s \<and> delay_insn s' = delay_insn s
          \<and> except_pending s' = except_pending s \<and> \<not> loadlock_active s'"
  using assms by (simp add: except_handle_def debug_ignore_exception_def Let_def)

theorem except_handle_debugger_witness:
  "let s' = except_handle EXCEPT_TRAP 0 (set_spr SPR_DSR SPR_DSR_TE zero_machine)
   in stalled s' \<and> sprs s' SPR_DRR = SPR_DSR_TE"
  using except_handle_debugger[of "set_spr SPR_DSR SPR_DSR_TE zero_machine" EXCEPT_TRAP 0]
  by (simp add: Let_def zero_machine_def)

end
