(* ===== verification/Interrupts.thy ===== *)
theory Interrupts
  imports Except
begin

text \<open>
  The programmable interrupt controller, \<^verbatim>\<open>pic/pic.c\<close>, the tick timer,
  \<^verbatim>\<open>tick/tick.c\<close>, and power management, \<^verbatim>\<open>pm/pm.c\<close>: the components that
  raise asynchronous exceptions through scheduled jobs. \<open>run_job\<close> calls the function of a
  job, and \<open>do_scheduler\<close> is the loop of \<^verbatim>\<open>support/sched.c\<close> with those calls; a
  loop that does not end has no result.
\<close>

section \<open>Interrupt controller\<close>

definition pic_reset :: "'z machine_scheme \<Rightarrow> 'z machine_scheme" where
  "pic_reset s =
     (let s = set_spr SPR_PICMR (if pic_use_nmi (cfg s) then 0x3 else 0) s
      in set_spr SPR_PICSR 0 s)"

definition pic_rep_int :: "'z machine_scheme \<Rightarrow> 'z machine_scheme" where
  "pic_rep_int s =
     (if sprs s SPR_PICSR \<noteq> 0 then except_handle EXCEPT_INT (sprs s SPR_EEAR_BASE) s else s)"

definition pic_ints_en :: "'z machine_scheme \<Rightarrow> 'z machine_scheme outcome" where
  "pic_ints_en s =
     (if sprs s SPR_PICMR AND sprs s SPR_PICSR \<noteq> 0 then SCHED_ADD Pic_rep_int 0 s else Inr s)"

text \<open>\<^verbatim>\<open>1 << line\<close> is undefined for a line outside 0 to 31.\<close>

definition report_interrupt :: "int \<Rightarrow> 'z machine_scheme \<Rightarrow> 'z machine_scheme outcome" where
  "report_interrupt line s =
     (if line < 0 \<or> 32 \<le> line then Inl Undefined_behaviour
      else
        (let lmask = push_bit (nat line) 1;
             s = clear_spr SPR_PMR (SPR_PMR_DME OR SPR_PMR_SME) s
         in if \<not> pic_enabled (cfg s) then
              Inr (if spr_has s SPR_SR SPR_SR_IEE
                   then except_handle EXCEPT_INT (sprs s SPR_EEAR_BASE) s else s)
            else if spr_has s SPR_PICSR lmask then Inr s
            else
              (let s = or_spr SPR_PICSR lmask s
               in if spr_has s SPR_PICMR lmask \<and> spr_has s SPR_SR SPR_SR_IEE
                  then SCHED_ADD Pic_rep_int 0 s else Inr s)))"

definition clear_interrupt :: "int \<Rightarrow> 'z machine_scheme \<Rightarrow> 'z machine_scheme outcome" where
  "clear_interrupt line s =
     (if line < 0 \<or> 32 \<le> line then Inl Undefined_behaviour
      else Inr (clear_spr SPR_PICSR (push_bit (nat line) 1) s))"

section \<open>Power management\<close>

definition pm_reset :: "'z machine_scheme \<Rightarrow> 'z machine_scheme" where
  "pm_reset s = set_spr SPR_PMR 0 s"

section \<open>Tick timer\<close>

definition tick_reset :: "'z machine_scheme \<Rightarrow> 'z machine_scheme" where
  "tick_reset s =
     (let s = set_spr SPR_TTCR 0 s; s = set_spr SPR_TTMR 0 s in s\<lparr>tick_counting := 0\<rparr>)"

definition tick_raise_except :: "'z machine_scheme \<Rightarrow> 'z machine_scheme outcome" where
  "tick_raise_except s =
     (let s = or_spr SPR_TTMR SPR_TTMR_IP s in
      bind_outcome (sched_next_insn (Job Tick_raise_except) 0 (sched s)) (\<lambda>q.
        let s = s\<lparr>sched := q\<rparr>
        in Inr (if spr_has s SPR_SR SPR_SR_TEE
                then except_handle EXCEPT_TICK (sprs s SPR_EEAR_BASE) s else s)))"

definition tick_restart :: "'z machine_scheme \<Rightarrow> 'z machine_scheme outcome" where
  "tick_restart s =
     (let s = set_spr SPR_TTCR 0 s;
          s = s\<lparr>cycle_count_at_tick_start := cycles s\<rparr>
      in SCHED_ADD Tick_restart (sint (sprs s SPR_TTMR AND SPR_TTMR_TP)) s)"

definition tick_one_shot :: "'z machine_scheme \<Rightarrow> 'z machine_scheme" where
  "tick_one_shot s =
     (let s = set_spr SPR_TTCR (sprs s SPR_TTMR AND SPR_TTMR_TP) s in s\<lparr>tick_counting := 0\<rparr>)"

definition spr_read_ttcr :: "'z machine_scheme \<Rightarrow> u32" where
  "spr_read_ttcr s =
     (if tick_counting s = 0 then sprs s SPR_TTCR
      else of_int (cycles s - cycle_count_at_tick_start s))"

definition cycles_until_except :: "u32 \<Rightarrow> u32 \<Rightarrow> u32" where
  "cycles_until_except match_ttmr match_ttcr =
     (if match_ttmr \<ge> match_ttcr then match_ttmr - match_ttcr
      else match_ttmr + (0x0fffffff - match_ttcr) + 1)"

text \<open>The two parts of \<^verbatim>\<open>sched_timer_job\<close>: removing the old jobs and adding the new.\<close>

definition remove_timer_jobs :: "u32 \<Rightarrow> 'z machine_scheme \<Rightarrow> 'z machine_scheme" where
  "remove_timer_jobs prev_ttmr s =
     (let s = (if prev_ttmr AND SPR_TTMR_IE \<noteq> 0 \<and> \<not> spr_has s SPR_TTMR SPR_TTMR_IP
               then SCHED_FIND_REMOVE Tick_raise_except s else s)
      in if prev_ttmr AND SPR_TTMR_M = SPR_TTMR_RT then SCHED_FIND_REMOVE Tick_restart s
         else if prev_ttmr AND SPR_TTMR_M = SPR_TTMR_SR then SCHED_FIND_REMOVE Tick_one_shot s
         else s)"

definition sched_timer_job :: "u32 \<Rightarrow> 'z machine_scheme \<Rightarrow> 'z machine_scheme outcome" where
  "sched_timer_job prev_ttmr s =
     (let ttmr = sprs s SPR_TTMR;
          until = cycles_until_except (ttmr AND SPR_TTMR_TP) (spr_read_ttcr s AND SPR_TTMR_TP);
          wanted = (ttmr AND SPR_TTMR_IE \<noteq> 0 \<and> ttmr AND SPR_TTMR_IP = 0);
          s = remove_timer_jobs prev_ttmr s;
          raise_except = (\<lambda>s. if wanted then SCHED_ADD Tick_raise_except (sint until) s else Inr s)
      in if ttmr AND SPR_TTMR_M = 0 then
           (if until = 0 \<and> wanted then SCHED_ADD Tick_raise_except 0 s else Inr s)
         else if ttmr AND SPR_TTMR_M = SPR_TTMR_RT then
           bind_outcome (SCHED_ADD Tick_restart (sint until) s) raise_except
         else if ttmr AND SPR_TTMR_M = SPR_TTMR_SR then
           (if tick_counting s \<noteq> 0
            then bind_outcome (SCHED_ADD Tick_one_shot (sint until) s) raise_except
            else Inr s)
         else raise_except s)"

definition spr_write_ttcr :: "u32 \<Rightarrow> 'z machine_scheme \<Rightarrow> 'z machine_scheme outcome" where
  "spr_write_ttcr value s =
     (let s = s\<lparr>cycle_count_at_tick_start := cycles s - uint value\<rparr>
      in sched_timer_job (sprs s SPR_TTMR) s)"

definition spr_write_ttmr :: "u32 \<Rightarrow> 'z machine_scheme \<Rightarrow> 'z machine_scheme outcome" where
  "spr_write_ttmr prev_val s =
     (let value = sprs s SPR_TTMR;
          s = clear_spr SPR_TTMR SPR_TTMR_IP s;
          s = (if tick_counting s \<noteq> 0
               then set_spr SPR_TTCR (of_int (cycles s - cycle_count_at_tick_start s)) s else s);
          s = s\<lparr>cycle_count_at_tick_start := cycles s - uint (sprs s SPR_TTCR),
                tick_counting := value AND SPR_TTMR_M\<rparr>
      in sched_timer_job prev_val s)"

section \<open>Running due jobs\<close>

text \<open>The functions of the peripherals are an argument: \<open>dev\<close> runs their jobs.\<close>

definition run_job ::
  "(client_job \<Rightarrow> 'z machine_scheme \<Rightarrow> 'z machine_scheme outcome)
   \<Rightarrow> client_job job_func \<Rightarrow> nat \<Rightarrow> 'z machine_scheme \<Rightarrow> 'z machine_scheme outcome" where
  "run_job dev f dat s =
     (case f of
        Sched_guard \<Rightarrow> bind_outcome (sched_guard dat (sched s)) (\<lambda>q. Inr (s\<lparr>sched := q\<rparr>))
      | Job Pic_rep_int \<Rightarrow> Inr (pic_rep_int s)
      | Job Tick_raise_except \<Rightarrow> tick_raise_except s
      | Job Tick_restart \<Rightarrow> tick_restart s
      | Job Tick_one_shot \<Rightarrow> Inr (tick_one_shot s)
      | Job j \<Rightarrow> dev j s)"

definition do_scheduler_step ::
  "(client_job \<Rightarrow> 'z machine_scheme \<Rightarrow> 'z machine_scheme outcome) \<Rightarrow> 'z machine_scheme \<Rightarrow> 'z machine_scheme outcome" where
  "do_scheduler_step dev s =
     bind_outcome (do_scheduler_unlink (sched s)) (\<lambda>(tmp, q).
       run_job dev (func tmp) (param tmp) (s\<lparr>sched := q\<rparr>))"

text \<open>The \<^verbatim>\<open>do ... while\<close> loop: one job at least, then as long as the first is due.\<close>

partial_function (option) do_scheduler ::
  "(client_job \<Rightarrow> 'z machine_scheme \<Rightarrow> 'z machine_scheme outcome) \<Rightarrow> 'z machine_scheme
   \<Rightarrow> 'z machine_scheme outcome option" where
  "do_scheduler dev s =
     (case do_scheduler_step dev s of
        Inl err \<Rightarrow> Some (Inl err)
      | Inr s' \<Rightarrow>
          (case job_queue (sched s') of
             [] \<Rightarrow> Some (Inl Null_deref)
           | e # _ \<Rightarrow> if time e \<le> 0 then do_scheduler dev s' else Some (Inr s')))"

section \<open>Lemmas\<close>

lemma except_handle_sched [simp]:
  "sched (except_handle e ea s) = sched s" "cycles (except_handle e ea s) = cycles s"
  by (simp_all add: except_handle_def debug_ignore_exception_def Let_def case_prod_unfold
      except_enter_fields)

lemma SCHED_ADD_returns:
  assumes "job_queue (sched s) \<noteq> []" "free_job_queue (sched s) \<noteq> []"
  shows "\<exists>q. SCHED_ADD f t s = Inr (s\<lparr>sched := q\<rparr>)
    \<and> due (job_queue q) = insert_due (effective_time t (job_queue (sched s))) (Job f, 0) (due (job_queue (sched s)))
    \<and> free_job_queue q = tl (free_job_queue (sched s))"
  using sched_add_returns[OF assms, of "Job f" 0 t] by (auto simp: SCHED_ADD_def)

section \<open>Properties\<close>

text \<open>
  C29: an interrupt on an enabled line is pending and will be delivered. When the controller is
  enabled, the line is unmasked and not pending yet, and interrupts are enabled in
  \<^verbatim>\<open>SR\<close>, \<^verbatim>\<open>report_interrupt\<close> sets the line's bit in \<^verbatim>\<open>PICSR\<close>, ends doze
  and sleep mode, and inserts a job that reports the interrupt at the current cycle, before
  every job that is not overdue; all other jobs keep their due times.
\<close>

theorem report_interrupt_schedules:
  assumes "0 \<le> line" and "line < 32" and "pic_enabled (cfg s)"
    and "\<not> bit (sprs s SPR_PICSR) (nat line)" and "bit (sprs s SPR_PICMR) (nat line)"
    and "spr_has s SPR_SR SPR_SR_IEE"
    and "job_queue (sched s) \<noteq> []" and "free_job_queue (sched s) \<noteq> []"
  shows "\<exists>s'. report_interrupt line s = Inr s'
    \<and> bit (sprs s' SPR_PICSR) (nat line)
    \<and> sprs s' SPR_PMR AND (SPR_PMR_DME OR SPR_PMR_SME) = 0
    \<and> due (job_queue (sched s')) = insert_due 0 (Job Pic_rep_int, 0) (due (job_queue (sched s)))"
proof -
  let ?m = "push_bit (nat line) 1 :: u32"
  have n: "nat line < 32" using assms(1,2) by simp
  then have m: "bit ?m (nat line)" by (simp add: bit_simps)
  have pend: "sprs s SPR_PICSR AND ?m = 0"
    using assms(4) by (intro bit_word_eqI) (auto simp: bit_simps)
  have mask: "sprs s SPR_PICMR AND ?m \<noteq> 0"
    using assms(5) m by (metis bit_0_eq bit_and_iff bot_apply bot_bool_def)
  let ?s = "or_spr SPR_PICSR ?m (clear_spr SPR_PMR (SPR_PMR_DME OR SPR_PMR_SME) s)"
  obtain q where q: "SCHED_ADD Pic_rep_int 0 ?s = Inr (?s\<lparr>sched := q\<rparr>)"
    "due (job_queue q) = insert_due (effective_time 0 (job_queue (sched s))) (Job Pic_rep_int, 0)
       (due (job_queue (sched s)))"
    using SCHED_ADD_returns[of ?s Pic_rep_int 0] assms(7,8) by auto
  have "report_interrupt line s = Inr (?s\<lparr>sched := q\<rparr>)"
    using assms(1-3,6) pend mask q(1) by (simp add: report_interrupt_def Let_def)
  moreover have "bit (sprs s SPR_PICSR OR ?m) (nat line)" using m by (simp add: bit_simps)
  moreover have "(sprs s SPR_PMR AND NOT (SPR_PMR_DME OR SPR_PMR_SME)) AND (SPR_PMR_DME OR SPR_PMR_SME) = 0"
    by (rule and_clear_same)
  moreover have "effective_time 0 (job_queue (sched s)) = 0" by (simp add: effective_time_def)
  ultimately show ?thesis using q(2) by (intro exI[of _ "?s\<lparr>sched := q\<rparr>"]) simp
qed

abbreviation (input) idle_queue :: "client_job scheduler" where
  "idle_queue \<equiv>
     \<lparr>free_job_queue = [\<lparr>time = 0, param = 0, func = Sched_guard\<rparr>,
                       \<lparr>time = 0, param = 0, func = Sched_guard\<rparr>],
      job_queue = [\<lparr>time = 1000, param = 0, func = Sched_guard\<rparr>]\<rparr>"

abbreviation (input) two_lines :: "u32 \<Rightarrow> machine" where
  "two_lines addr \<equiv> zero_machine\<lparr>cfg := zero_config\<lparr>pic_enabled := True\<rparr>, pc := addr, pcnext := addr + 4,
     sprs := (\<lambda>_. 0)(SPR_SR := SPR_SR_SM OR SPR_SR_IEE, SPR_PICMR := 0xC), sched := idle_queue\<rparr>"

theorem report_interrupt_schedules_witness:
  "\<exists>s'. report_interrupt 2 (two_lines 0x2000) = Inr s'
     \<and> due (job_queue (sched s')) = [(0, Job Pic_rep_int, 0), (1000, Sched_guard, 0)]"
  using report_interrupt_schedules[of 2 "two_lines 0x2000"]
  by (auto simp: bit_simps zero_config_def due_def insert_due_def)



lemma uint_and_period: "uint (w AND SPR_TTMR_TP) = uint (w :: u32) mod 2 ^ 28"
proof -
  have "w AND SPR_TTMR_TP = take_bit 28 w"
    by (simp add: take_bit_eq_mask mask_eq_exp_minus_1)
  then have "uint (w AND SPR_TTMR_TP) = take_bit 28 (uint w)" by (simp only: unsigned_take_bit_eq)
  then show ?thesis by (simp only: take_bit_eq_mod)
qed

lemma cycles_until_except_int:
  assumes "uint a < 2 ^ 28" "uint b < 2 ^ 28"
  shows "uint (cycles_until_except a b) = (uint a - uint b) mod 2 ^ 28"
proof (cases "b \<le> a")
  case True
  then have "uint (a - b) = uint a - uint b" by (simp add: uint_minus_simple_alt[symmetric] word_le_def)
  moreover have "0 \<le> uint a - uint b" "uint a - uint b < 2 ^ 28"
    using True assms(1) uint_ge_0[of b] unfolding word_le_def by linarith+
  then have "(uint a - uint b) mod 2 ^ 28 = uint a - uint b" by (rule mod_pos_pos_trivial)
  ultimately show ?thesis using True by (simp add: cycles_until_except_def)
next
  case False
  then have lt: "uint a < uint b" by (simp add: word_le_def)
  have "uint (a + (0x0fffffff - b) + 1) = (uint a + (0x0fffffff - uint b) + 1) mod 2 ^ 32"
    by (simp add: uint_word_ariths mod_simps)
  also have "\<dots> = uint a + (0x0fffffff - uint b) + 1"
  proof (rule mod_pos_pos_trivial)
    show "0 \<le> uint a + (0x0fffffff - uint b) + 1"
      using assms(2)[simplified] uint_ge_0[of a] by linarith
    show "uint a + (0x0fffffff - uint b) + 1 < 2 ^ 32" using lt by simp
  qed
  also have "\<dots> = uint a - uint b + 2 ^ 28" by simp
  also have "\<dots> = (uint a - uint b) mod 2 ^ 28"
  proof -
    have "(uint a - uint b) mod 2 ^ 28 = (uint a - uint b + 2 ^ 28) mod 2 ^ 28" by simp
    also have "\<dots> = uint a - uint b + 2 ^ 28"
    proof (rule mod_pos_pos_trivial)
      show "0 \<le> uint a - uint b + 2 ^ 28" using assms(2) uint_ge_0[of a] by linarith
    qed (use lt in simp)
    finally show ?thesis ..
  qed
  finally show ?thesis using False by (simp add: cycles_until_except_def)
qed

text \<open>
  C30: when the timer matches. The cycles until the next match are the distance from the
  counter to the period modulo 2^28, the width of the compared part of \<^verbatim>\<open>TTCR\<close>,
  also when the counter is already past the period.
\<close>

theorem cycles_until_except_modular:
  "uint (cycles_until_except (ttmr AND SPR_TTMR_TP) (ttcr AND SPR_TTMR_TP))
     = (uint ttmr - uint ttcr) mod 2 ^ 28"
  by (simp add: cycles_until_except_int uint_and_period mod_diff_eq)


section \<open>Loops and lost interrupts\<close>

text \<open>The restart job of a timer with period zero is due, wherever it is in a well formed queue.\<close>

definition restart_due :: "'z machine_scheme \<Rightarrow> bool" where
  "restart_due s \<longleftrightarrow> sched_inv (sched s) \<and> sprs s SPR_TTMR AND SPR_TTMR_TP = 0
     \<and> (\<exists>t p. t \<le> 0 \<and> (t, Job Tick_restart, p) \<in> set (due (job_queue (sched s))))"

text \<open>The jobs that the functions of this theory run; the others are those of the peripherals.\<close>

definition core_job :: "client_job \<Rightarrow> bool" where
  "core_job j \<longleftrightarrow> j \<in> {Pic_rep_int, Tick_raise_except, Tick_restart, Tick_one_shot}"

lemma sched_add_keeps:
  assumes "sched_add f p t q = Inr q'"
  shows "set (due (job_queue q')) = insert (effective_time t (job_queue q), f, p) (set (due (job_queue q)))"
  using sched_add_shape(1,2)[OF assms] by (simp add: sched_insert_due set_insert_due)

text \<open>In a well formed queue with a client's job there is another one, the guard.\<close>

lemma sched_inv_unlink:
  assumes "sched_inv q" "(t, Job f, p) \<in> set (due (job_queue q))"
  obtains tmp q' where "do_scheduler_unlink q = Inr (tmp, q')"
    "due (job_queue q) = (time tmp, func tmp, param tmp) # due (job_queue q')"
    "job_queue q' \<noteq> []" "free_job_queue q' \<noteq> []"
proof -
  have "guards (due (job_queue q)) = 1" using assms(1) by (simp add: sched_inv_def)
  then obtain e n rest where q: "job_queue q = e # n # rest"
    using assms(2) by (cases "job_queue q" rule: remdups_adj.cases) (auto simp: due_def guards_def split: if_splits)
  let ?q = "q\<lparr>free_job_queue := e # free_job_queue q, job_queue := n\<lparr>time := time n + time e\<rparr> # rest\<rparr>"
  have u: "do_scheduler_unlink q = Inr (e, ?q)" using q by (simp add: do_scheduler_unlink_def)
  show thesis by (rule that[OF u do_scheduler_unlink_due[OF u]]) simp_all
qed

lemma except_handle_ttmr: "sprs (except_handle e ea s) SPR_TTMR = sprs s SPR_TTMR"
  by (simp add: except_handle_def debug_ignore_exception_def except_enter_fields except_return_def case_prod_unfold Let_def)

text \<open>Adding a job keeps the restart job due; so does everything that leaves the queue and the period alone.\<close>

lemma restart_due_add:
  assumes "restart_due s" "SCHED_ADD f t s = Inr s'"
  shows "restart_due s'"
proof -
  obtain q where q: "sched_add (Job f) 0 t (sched s) = Inr q" "s' = s\<lparr>sched := q\<rparr>"
    using assms(2) by (auto simp: SCHED_ADD_def bind_outcome_eq_Inr)
  have "sched_inv q" using sched_step_inv[OF step_add[OF q(1)]] assms(1) by (simp add: restart_due_def)
  then show ?thesis using assms(1) sched_add_keeps[OF q(1)] unfolding q(2) restart_due_def by auto
qed

lemma restart_due_cong:
  "restart_due s \<Longrightarrow> sched s' = sched s \<Longrightarrow> sprs s' SPR_TTMR AND SPR_TTMR_TP = sprs s SPR_TTMR AND SPR_TTMR_TP \<Longrightarrow> restart_due s'"
  by (simp add: restart_due_def)

text \<open>Running the restart job makes it due again.\<close>

lemma tick_restart_due:
  assumes "sched_inv (sched s)" "free_job_queue (sched s) \<noteq> []" "sprs s SPR_TTMR AND SPR_TTMR_TP = 0"
  shows "\<exists>s'. tick_restart s = Inr s' \<and> restart_due s'"
proof -
  have ne: "job_queue (sched s) \<noteq> []" using assms(1) by (rule sched_inv_nonempty)
  obtain q where q: "sched_add (Job Tick_restart) 0 0 (sched s) = Inr q" using sched_add_returns[OF ne assms(2)] by blast
  have inv: "sched_inv q" using sched_step_inv[OF step_add[OF q]] assms(1) .
  have "(0, Job Tick_restart, 0) \<in> set (due (job_queue q))"
    unfolding sched_add_keeps[OF q] by (simp add: effective_time_def)
  with q assms(3) inv show ?thesis by (auto simp: tick_restart_def SCHED_ADD_def restart_due_def Let_def)
qed

text \<open>One turn: a job of this theory keeps the restart job due, and so does one of a peripheral if \<open>dev\<close> does.\<close>

lemma restart_due_step:
  fixes s :: "'z machine_scheme"
  assumes due: "restart_due s"
  obtains s' where "do_scheduler_step dev s = Inr s'" "restart_due s'"
  | j s' where "do_scheduler_step dev s = dev j s'" "\<not> core_job j" "restart_due s'"
proof -
  obtain t p where tp: "t \<le> 0" "(t, Job Tick_restart, p) \<in> set (due (job_queue (sched s)))"
    and inv: "sched_inv (sched s)" and per: "sprs s SPR_TTMR AND SPR_TTMR_TP = 0"
    using due by (auto simp: restart_due_def)
  obtain tmp q where u: "do_scheduler_unlink (sched s) = Inr (tmp, q)"
    "due (job_queue (sched s)) = (time tmp, func tmp, param tmp) # due (job_queue q)"
    "job_queue q \<noteq> []" "free_job_queue q \<noteq> []" using sched_inv_unlink[OF inv tp(2)] .
  let ?s = "s\<lparr>sched := q\<rparr>"
  have step: "do_scheduler_step dev s = run_job dev (func tmp) (param tmp) ?s" by (simp add: do_scheduler_step_def u(1))
  show thesis
  proof (cases "func tmp")
    case Sched_guard
    obtain q' where q': "sched_guard (param tmp) q = Inr q'"
      using sched_add_returns[OF u(3,4), of Sched_guard "param tmp" SCHED_TIME_MAX] u(3) by (auto simp: sched_guard_def)
    then have "sched_add Sched_guard (param tmp) SCHED_TIME_MAX q = Inr q'" using u(3) by (simp add: sched_guard_def)
    then have "(t, Job Tick_restart, p) \<in> set (due (job_queue q'))"
      using tp(2) u(2) Sched_guard by (auto simp: sched_add_keeps)
    then have "restart_due (?s\<lparr>sched := q'\<rparr>)"
      using tp(1) per sched_step_inv[OF step_guard[OF u(1) Sched_guard q'] inv] by (auto simp: restart_due_def)
    then show thesis using that(1) step Sched_guard q' by (simp add: run_job_def)
  next
    case (Job j)
    have invq: "sched_inv q" using sched_step_inv[OF step_fire[OF u(1) Job] inv] .
    show thesis
    proof (cases "j = Tick_restart")
      case True
      then show thesis using that(1) step Job tick_restart_due[of ?s] invq u(4) per by (auto simp: run_job_def)
    next
      case False
      then have due: "restart_due ?s" using tp per u(2) Job invq by (auto simp: restart_due_def)
      show thesis
      proof (cases "j = Tick_raise_except")
        case True
        let ?r = "or_spr SPR_TTMR SPR_TTMR_IP ?s"
        have r: "restart_due ?r"
          using due by (rule restart_due_cong) (simp_all add: word_ao_dist)
        obtain q' where q': "sched_add (Job Tick_raise_except) 0 (overdue_cycles 1 (job_queue q)) q = Inr q'"
          using sched_add_returns[OF u(3,4)] by blast
        then have "SCHED_ADD Tick_raise_except (overdue_cycles 1 (job_queue q)) ?r = Inr (?r\<lparr>sched := q'\<rparr>)"
          by (simp add: SCHED_ADD_def)
        then have d: "restart_due (?r\<lparr>sched := q'\<rparr>)" using r restart_due_add by blast
        have "\<exists>s'. tick_raise_except ?s = Inr s' \<and> restart_due s'"
          using q' d by (auto simp: tick_raise_except_def sched_next_insn_def Let_def except_handle_ttmr intro: restart_due_cong)
        then show thesis using that(1) step Job True by (auto simp: run_job_def)
      next
        case other: False
        show thesis
        proof (cases "core_job j")
          case True
          have "restart_due (pic_rep_int ?s)" "restart_due (tick_one_shot ?s)"
            using due by (auto simp: pic_rep_int_def tick_one_shot_def except_handle_ttmr Let_def intro: restart_due_cong)
          then show thesis using that(1) step Job other False True by (auto simp: run_job_def core_job_def)
        next
          case False
          then have "do_scheduler_step dev s = dev j ?s" using step Job by (auto simp: run_job_def core_job_def split: client_job.split)
          then show thesis using that(2) False due by blast
        qed
      qed
    qed
  qed
qed

lemma restart_due_head: "restart_due s \<Longrightarrow> \<exists>e es. job_queue (sched s) = e # es \<and> time e \<le> 0"
proof -
  assume due: "restart_due s"
  then obtain t p where tp: "t \<le> 0" "(t, Job Tick_restart, p) \<in> set (due (job_queue (sched s)))" and "sched_inv (sched s)"
    by (auto simp: restart_due_def)
  then have "sorted (map fst (due (job_queue (sched s))))" by (simp add: sched_inv_def due_sorted)
  with tp show ?thesis by (cases "job_queue (sched s)") (force simp: due_def)+
qed

text \<open>
  C39: a restarting timer with period zero hangs the simulator. Once the restart job of such a timer is
  due, now or overdue, anywhere in a well formed queue, \<^verbatim>\<open>do_scheduler\<close> does not return to the main
  loop: every run of the job adds it again for the current cycle. This is for peripherals whose jobs neither
  take the restart job off nor set a period; as long as they do not end the simulator either, the loop runs
  for ever.
\<close>

theorem do_scheduler_zero_period:
  fixes s :: "'z machine_scheme"
  assumes "restart_due s"
    and dev: "\<And>j s s'. \<not> core_job j \<Longrightarrow> restart_due s \<Longrightarrow> dev j s = Inr s' \<Longrightarrow> restart_due s'"
  shows "(\<forall>s'. do_scheduler dev s \<noteq> Some (Inr s'))
    \<and> ((\<forall>j s. \<not> core_job j \<and> restart_due s \<longrightarrow> (\<exists>s'. dev j s = Inr s')) \<longrightarrow> do_scheduler dev s = None)"
proof -
  define keeps where "keeps dev \<longleftrightarrow> (\<forall>j s s'. \<not> core_job j \<longrightarrow> restart_due s \<longrightarrow> dev j s = Inr s' \<longrightarrow> restart_due s')"
    for dev :: "client_job \<Rightarrow> 'z machine_scheme \<Rightarrow> 'z machine_scheme outcome"
  define total where "total dev \<longleftrightarrow> (\<forall>j s. \<not> core_job j \<longrightarrow> restart_due s \<longrightarrow> (\<exists>s'. dev j s = Inr s'))"
    for dev :: "client_job \<Rightarrow> 'z machine_scheme \<Rightarrow> 'z machine_scheme outcome"
  have main: "keeps dev \<longrightarrow> restart_due s \<longrightarrow> isl r \<and> \<not> total dev" if "do_scheduler dev s = Some r" for dev and s :: "'z machine_scheme" and r
  proof (rule do_scheduler.raw_induct[of "\<lambda>dev s r. keeps dev \<longrightarrow> restart_due s \<longrightarrow> isl r \<and> \<not> total dev", OF _ that])
    fix rec :: "(client_job \<Rightarrow> 'z machine_scheme \<Rightarrow> 'z machine_scheme outcome) \<Rightarrow> 'z machine_scheme \<Rightarrow> 'z machine_scheme outcome option"
      and dev s y
    assume IH: "\<And>dev s y. rec dev s = Some y \<Longrightarrow> keeps dev \<longrightarrow> restart_due s \<longrightarrow> isl y \<and> \<not> total dev"
      and body: "(case do_scheduler_step dev s of Inl err \<Rightarrow> Some (Inl err)
        | Inr s' \<Rightarrow> (case job_queue (sched s') of [] \<Rightarrow> Some (Inl Null_deref)
            | e # _ \<Rightarrow> if time e \<le> 0 then rec dev s' else Some (Inr s'))) = Some y"
    show "keeps dev \<longrightarrow> restart_due s \<longrightarrow> isl y \<and> \<not> total dev"
    proof (intro impI)
      assume k: "keeps dev" and "restart_due s"
      have loop: "isl y \<and> \<not> total dev" if "do_scheduler_step dev s = Inr s'" "restart_due s'" for s'
        using restart_due_head[OF that(2)] body that(1) IH[of dev s' y] k that(2) by auto
      from \<open>restart_due s\<close> show "isl y \<and> \<not> total dev"
      proof (cases rule: restart_due_step[of s dev])
        case (2 j s')
        then show ?thesis
        proof (cases "dev j s'")
          case (Inl e)
          then have "y = Inl e" using 2(1) body by simp
          moreover have "\<not> total dev" using 2(2,3) Inl unfolding total_def by force
          ultimately show ?thesis by simp
        next
          case (Inr s'')
          then show ?thesis using 2 k loop[of s''] by (auto simp: keeps_def)
        qed
      qed (rule loop)
    qed
  qed
  have k: "keeps dev" using dev by (auto simp: keeps_def)
  show ?thesis
    using main[of dev s] k assms(1) by (cases "do_scheduler dev s") (auto simp: total_def)
qed

abbreviation (input) overdue_queue :: "client_job scheduler" where
  "overdue_queue \<equiv> \<lparr>free_job_queue = replicate 125 \<lparr>time = 0, param = 0, func = Sched_guard\<rparr>,
     job_queue = [\<lparr>time = -5, param = 0, func = Job Tick_one_shot\<rparr>, \<lparr>time = 2, param = 0, func = Job Tick_restart\<rparr>,
                  \<lparr>time = 1000, param = 0, func = Sched_guard\<rparr>]\<rparr>"

theorem do_scheduler_zero_period_witness:
  "do_scheduler (\<lambda>j s. Inr s) (zero_machine\<lparr>sched := overdue_queue\<rparr>) = None"
proof -
  have "restart_due (zero_machine\<lparr>sched := overdue_queue\<rparr>)"
    by (simp add: restart_due_def sched_inv_def deltas_ok_def guards_def due_def SCHED_HEAP_SIZE_def zero_machine_def)
  then show ?thesis using do_scheduler_zero_period[of "zero_machine\<lparr>sched := overdue_queue\<rparr>" "\<lambda>j s. Inr s"] by simp
qed

text \<open>Taking the interrupt: the program counter and the status register are saved, wherever they came from.\<close>

definition int_vector :: "'z machine_scheme \<Rightarrow> u32" where
  "int_vector s = EXCEPT_INT + (if spr_has s SPR_SR SPR_SR_EPH then 0xf0000000 else 0)"

lemma pic_rep_int_taken:
  assumes "sprs s SPR_PICSR \<noteq> 0" "sprs s SPR_DSR AND SPR_DSR_IE = 0"
  shows "sprs (pic_rep_int s) SPR_EPCR_BASE = pc s - (if delay_insn s then 4 else 0)" "pc (pic_rep_int s) = int_vector s"
    "sprs (pic_rep_int s) SPR_ESR_BASE = sprs s SPR_SR" "\<not> delay_insn (pic_rep_int s)"
    "sprs (pic_rep_int s) SPR_PICSR = sprs s SPR_PICSR" "sprs (pic_rep_int s) SPR_DSR = sprs s SPR_DSR"
    "sprs (pic_rep_int s) SPR_SR = (sprs s SPR_SR OR SPR_SR_SM)
       AND NOT (SPR_SR_OVE OR SPR_SR_IEE OR SPR_SR_TEE OR SPR_SR_DME OR SPR_SR_IME)"
    "int_vector (pic_rep_int s) = int_vector s"
proof -
  have d: "sprs s SPR_DSR AND dsr_bit EXCEPT_INT = 0" using assms(2) by simp
  have p: "pic_rep_int s = except_handle EXCEPT_INT (sprs s SPR_EEAR_BASE) s" using assms(1) by (simp add: pic_rep_int_def)
  note r = except_handle_result[OF d, of "sprs s SPR_EEAR_BASE", simplified]
  show sr: "sprs (pic_rep_int s) SPR_SR = (sprs s SPR_SR OR SPR_SR_SM)
       AND NOT (SPR_SR_OVE OR SPR_SR_IEE OR SPR_SR_TEE OR SPR_SR_DME OR SPR_SR_IME)"
    unfolding p r by simp
  have "sprs (pic_rep_int s) SPR_SR AND SPR_SR_EPH = sprs s SPR_SR AND SPR_SR_EPH"
    unfolding sr by (simp add: word_ao_dist and.assoc)
  then show "int_vector (pic_rep_int s) = int_vector s" by (simp add: int_vector_def)
  show "sprs (pic_rep_int s) SPR_EPCR_BASE = pc s - (if delay_insn s then 4 else 0)" "pc (pic_rep_int s) = int_vector s"
    "sprs (pic_rep_int s) SPR_ESR_BASE = sprs s SPR_SR" "\<not> delay_insn (pic_rep_int s)"
    "sprs (pic_rep_int s) SPR_PICSR = sprs s SPR_PICSR" "sprs (pic_rep_int s) SPR_DSR = sprs s SPR_DSR"
    unfolding p r using r by (simp_all add: resume_address_def int_vector_def)
qed

lemma pic_rep_int_sched [simp]: "sched (pic_rep_int s) = sched s"
  by (simp add: pic_rep_int_def)

abbreviation (input) pic_entry :: "client_job sched_entry" where
  "pic_entry \<equiv> \<lparr>time = 0, param = 0, func = Job Pic_rep_int\<rparr>"

lemma do_scheduler_pic:
  assumes "job_queue (sched s) = pic_entry # n # rest"
  shows "do_scheduler dev s =
    (let s' = pic_rep_int (s\<lparr>sched := (sched s)\<lparr>free_job_queue := pic_entry # free_job_queue (sched s),
                                                 job_queue := n # rest\<rparr>\<rparr>)
     in if time n \<le> 0 then do_scheduler dev s' else Some (Inr s'))"
  using assms
  by (subst do_scheduler.simps)
    (simp add: do_scheduler_step_def do_scheduler_unlink_def run_job_def Let_def)

text \<open>A report on an enabled line puts its job in front of a queue in which nothing is overdue.\<close>

lemma report_queues:
  assumes "0 \<le> line" "line < 32" "pic_enabled (cfg s)" "bit (sprs s SPR_PICMR) (nat line)" "\<not> bit (sprs s SPR_PICSR) (nat line)"
    and "spr_has s SPR_SR SPR_SR_IEE" "job_queue (sched s) = e # es" "0 \<le> time e" "free_job_queue (sched s) = x # free"
  shows "report_interrupt line s = Inr
    ((or_spr SPR_PICSR (push_bit (nat line) 1) (clear_spr SPR_PMR (SPR_PMR_DME OR SPR_PMR_SME) s))
       \<lparr>sched := \<lparr>free_job_queue = free, job_queue = pic_entry # e # es\<rparr>\<rparr>)"
proof -
  have one: "w AND push_bit (nat line) 1 = (if bit w (nat line) then push_bit (nat line) 1 else 0)" for w :: u32
    by (rule bit_word_eqI) (auto simp: bit_simps)
  have nz: "push_bit (nat line) 1 \<noteq> (0 :: u32)" using assms(1,2) by simp
  show ?thesis using assms one nz
    by (cases "sched s") (simp add: report_interrupt_def Let_def SCHED_ADD_def sched_add_def sched_insert_def)
qed

lemma do_scheduler_pics:
  assumes "job_queue (sched s) = pic_entry # n # rest"
  shows "\<exists>q. job_queue q = n # rest \<and> do_scheduler dev s =
    (if time n \<le> 0 then do_scheduler dev (pic_rep_int (s\<lparr>sched := q\<rparr>)) else Some (Inr (pic_rep_int (s\<lparr>sched := q\<rparr>))))"
  using do_scheduler_pic[OF assms, of dev]
  by (intro exI[of _ "(sched s)\<lparr>free_job_queue := pic_entry # free_job_queue (sched s), job_queue := n # rest\<rparr>"])
     (simp add: Let_def)

text \<open>
  C40: two interrupts in one cycle lose the interrupted program. Any two enabled lines are reported while
  interrupts are on, not given to the debugger, and nothing else is due. After the first report alone
  \<^verbatim>\<open>do_scheduler\<close> enters the handler with the address and the status register of the program saved.
  But each report adds a job, and \<^verbatim>\<open>pic_rep_int\<close> takes the exception whenever \<^verbatim>\<open>PICSR\<close> is
  not zero, without looking at \<^verbatim>\<open>SR\<close>: after both, the second job interrupts the handler before its
  first instruction, \<^verbatim>\<open>EPCR\<close> is the interrupt vector and \<^verbatim>\<open>ESR\<close> has interrupts off.
\<close>

theorem two_interrupts_lose_context:
  fixes s :: "'z machine_scheme"
  assumes "0 \<le> a" "a < 32" "0 \<le> b" "b < 32" "a \<noteq> b"
    and "pic_enabled (cfg s)" "spr_has s SPR_SR SPR_SR_IEE" "sprs s SPR_DSR AND SPR_DSR_IE = 0"
    and "bit (sprs s SPR_PICMR) (nat a)" "bit (sprs s SPR_PICMR) (nat b)"
    and "\<not> bit (sprs s SPR_PICSR) (nat a)" "\<not> bit (sprs s SPR_PICSR) (nat b)"
    and "job_queue (sched s) = e # es" "0 < time e" "free_job_queue (sched s) = x # y # free"
  shows "\<exists>s1 s2 one both. report_interrupt a s = Inr s1 \<and> report_interrupt b s1 = Inr s2
     \<and> do_scheduler dev s1 = Some (Inr one) \<and> pc one = int_vector s
     \<and> sprs one SPR_EPCR_BASE = pc s - (if delay_insn s then 4 else 0) \<and> sprs one SPR_ESR_BASE = sprs s SPR_SR
     \<and> do_scheduler dev s2 = Some (Inr both) \<and> pc both = int_vector s
     \<and> sprs both SPR_EPCR_BASE = int_vector s \<and> sprs both SPR_ESR_BASE AND SPR_SR_IEE = 0"
proof -
  define s1 where "s1 = (or_spr SPR_PICSR (push_bit (nat a) 1) (clear_spr SPR_PMR (SPR_PMR_DME OR SPR_PMR_SME) s))
       \<lparr>sched := \<lparr>free_job_queue = y # free, job_queue = pic_entry # e # es\<rparr>\<rparr>"
  define s2 where "s2 = (or_spr SPR_PICSR (push_bit (nat b) 1) (clear_spr SPR_PMR (SPR_PMR_DME OR SPR_PMR_SME) s1))
       \<lparr>sched := \<lparr>free_job_queue = free, job_queue = pic_entry # pic_entry # e # es\<rparr>\<rparr>"
  have na: "nat a < 32" "nat b < 32" "nat a \<noteq> nat b" using assms(1-5) by simp_all
  have r1: "report_interrupt a s = Inr s1"
    unfolding s1_def using assms by (intro report_queues[of a s e es x "y # free"]) simp_all
  have f1: "pic_enabled (cfg s1)" "spr_has s1 SPR_SR SPR_SR_IEE" "bit (sprs s1 SPR_PICMR) (nat b)" "\<not> bit (sprs s1 SPR_PICSR) (nat b)"
    "bit (sprs s1 SPR_PICSR) (nat a)" "sprs s1 SPR_DSR = sprs s SPR_DSR" "sprs s1 SPR_SR = sprs s SPR_SR" "pc s1 = pc s" "delay_insn s1 = delay_insn s"
    "job_queue (sched s1) = pic_entry # e # es" "free_job_queue (sched s1) = y # free"
    using assms na by (simp_all add: s1_def bit_simps)
  have r2: "report_interrupt b s1 = Inr s2"
    unfolding s2_def using assms(3,4) f1 by (intro report_queues[of b s1 pic_entry "e # es" y free]) simp_all
  have f2: "bit (sprs s2 SPR_PICSR) (nat b)" "sprs s2 SPR_DSR = sprs s SPR_DSR" "sprs s2 SPR_SR = sprs s SPR_SR" "pc s2 = pc s"
    "delay_insn s2 = delay_insn s" "job_queue (sched s2) = pic_entry # pic_entry # e # es"
    using f1 na by (simp_all add: s2_def bit_simps)
  have nz: "w \<noteq> 0" if "bit w n" for w :: u32 and n using that by auto
  have vec: "int_vector t = int_vector s" if "sprs t SPR_SR = sprs s SPR_SR" for t :: "'z machine_scheme"
    using that by (simp add: int_vector_def)
  obtain q1 where d1: "do_scheduler dev s1 = Some (Inr (pic_rep_int (s1\<lparr>sched := q1\<rparr>)))"
    using do_scheduler_pics[OF f1(10), of dev] assms(14) by auto
  have t1: "sprs (s1\<lparr>sched := q1\<rparr>) SPR_PICSR \<noteq> 0" "sprs (s1\<lparr>sched := q1\<rparr>) SPR_DSR AND SPR_DSR_IE = 0"
    using nz[OF f1(5)] f1(6) assms(8) by simp_all
  obtain q2 where q2: "job_queue q2 = pic_entry # e # es"
    "do_scheduler dev s2 = do_scheduler dev (pic_rep_int (s2\<lparr>sched := q2\<rparr>))"
    using do_scheduler_pics[OF f2(6), of dev] by auto
  let ?m = "pic_rep_int (s2\<lparr>sched := q2\<rparr>)"
  have t2: "sprs (s2\<lparr>sched := q2\<rparr>) SPR_PICSR \<noteq> 0" "sprs (s2\<lparr>sched := q2\<rparr>) SPR_DSR AND SPR_DSR_IE = 0"
    using nz[OF f2(1)] f2(2) assms(8) by simp_all
  note m = pic_rep_int_taken[OF t2]
  obtain q3 where d2: "do_scheduler dev s2 = Some (Inr (pic_rep_int (?m\<lparr>sched := q3\<rparr>)))"
    using do_scheduler_pics[of ?m e es dev] q2 assms(14) by auto
  have t3: "sprs (?m\<lparr>sched := q3\<rparr>) SPR_PICSR \<noteq> 0" "sprs (?m\<lparr>sched := q3\<rparr>) SPR_DSR AND SPR_DSR_IE = 0"
    using m(5,6) t2 by simp_all
  note n = pic_rep_int_taken[OF t3]
  have "sprs ?m SPR_SR AND SPR_SR_IEE = 0" unfolding m(7) by (simp add: and.assoc)
  then have "sprs (pic_rep_int (?m\<lparr>sched := q3\<rparr>)) SPR_ESR_BASE AND SPR_SR_IEE = 0" unfolding n(3) by simp
  moreover have v: "int_vector (s2\<lparr>sched := q2\<rparr>) = int_vector s" "int_vector (s1\<lparr>sched := q1\<rparr>) = int_vector s" "int_vector (?m\<lparr>sched := q3\<rparr>) = int_vector s"
    using m(8) f1(7) f2(3) by (simp_all add: int_vector_def)
  moreover have "sprs (pic_rep_int (?m\<lparr>sched := q3\<rparr>)) SPR_EPCR_BASE = int_vector s" "pc (pic_rep_int (?m\<lparr>sched := q3\<rparr>)) = int_vector s"
    using n(1,2) m(2,4) v by simp_all
  ultimately show ?thesis
    using r1 r2 d1 d2 pic_rep_int_taken[OF t1] f1(7-9) by auto
qed

theorem two_interrupts_lose_context_witness:
  "\<exists>s1 s2 both. report_interrupt 2 (two_lines 0x2000) = Inr s1 \<and> report_interrupt 3 s1 = Inr s2
     \<and> do_scheduler (\<lambda>j s. Inr s) s2 = Some (Inr both) \<and> sprs both SPR_EPCR_BASE = 0x800"
proof -
  have "\<exists>s1 s2 one both. report_interrupt 2 (two_lines 0x2000) = Inr s1 \<and> report_interrupt 3 s1 = Inr s2
     \<and> do_scheduler (\<lambda>j s. Inr s) s1 = Some (Inr one) \<and> pc one = int_vector (two_lines 0x2000)
     \<and> sprs one SPR_EPCR_BASE = pc (two_lines 0x2000) - (if delay_insn (two_lines 0x2000) then 4 else 0)
     \<and> sprs one SPR_ESR_BASE = sprs (two_lines 0x2000) SPR_SR
     \<and> do_scheduler (\<lambda>j s. Inr s) s2 = Some (Inr both) \<and> pc both = int_vector (two_lines 0x2000)
     \<and> sprs both SPR_EPCR_BASE = int_vector (two_lines 0x2000) \<and> sprs both SPR_ESR_BASE AND SPR_SR_IEE = 0"
    by (rule two_interrupts_lose_context[where e = "\<lparr>time = 1000, param = 0, func = Sched_guard\<rparr>" and es = "[]"])
      (simp_all add: zero_config_def bit_simps)
  moreover have "int_vector (two_lines 0x2000) = 0x800" by (simp add: int_vector_def)
  ultimately show ?thesis by (simp only:) blast
qed

end
