(* ===== verification/Mmu.thy ===== *)
theory Mmu
  imports Except
begin

text \<open>
  The memory management units: \<^verbatim>\<open>mmu/dmmu.c\<close> for data and \<^verbatim>\<open>mmu/immu.c\<close> for
  instructions, with \<^verbatim>\<open>is_power2\<close> and \<^verbatim>\<open>log2_int\<close> of
  \<^verbatim>\<open>support/misc.c\<close>. A TLB lives in the special purpose registers: way \<open>w\<close> and set
  \<open>k\<close> have their match register at \<open>base + 256 w + k\<close> and their translate register 128
  above it. The two units run the same search and the same ageing of the LRU fields, which are
  definitions over the base register; the functions of each file are built from them. The hit and
  miss statistics are not modelled.
\<close>

section \<open>Helpers of the configuration\<close>

text \<open>The loop \<^verbatim>\<open>while (!(x & 1)) x >>= 1\<close>, entered with \<open>x \<noteq> 0\<close>.\<close>

function odd_part :: "int \<Rightarrow> int" where
  "odd_part x = (if x = 0 then 0 else if even x then odd_part (x div 2) else x)"
  by auto

termination odd_part
  by (relation "measure (\<lambda>x. nat \<bar>x\<bar>)") auto

definition is_power2 :: "int \<Rightarrow> bool" where
  "is_power2 x = (x \<noteq> 0 \<and> odd_part x = 1)"

fun log2_int :: "nat \<Rightarrow> nat" where
  "log2_int x = (if x = 0 then 0 else if x = 1 then 0 else Suc (log2_int (x div 2)))"

declare odd_part.simps [simp del] log2_int.simps [simp del]

section \<open>TLB search\<close>

abbreviation (input) TLBMR_V :: u32 where "TLBMR_V \<equiv> 0x1"
abbreviation (input) TLBMR_LRU :: u32 where "TLBMR_LRU \<equiv> 0xc0"
abbreviation (input) TLBTR_PPN :: u32 where "TLBTR_PPN \<equiv> 0xffffe000"

primrec scan_ways :: "nat \<Rightarrow> nat \<Rightarrow> u32 \<Rightarrow> u32 \<Rightarrow> (nat \<Rightarrow> u32) \<Rightarrow> nat option" where
  "scan_ways 0 r vmask vpn spr = None"
| "scan_ways (Suc i) r vmask vpn spr =
     (if spr r AND vmask = vpn \<and> spr r AND TLBMR_V \<noteq> 0 then Some r
      else scan_ways i (r + 256) vmask vpn spr)"

definition tlb_set :: "mmu \<Rightarrow> u32 \<Rightarrow> nat" where
  "tlb_set u virtaddr = unat (drop_bit (pagesize_log2 u) (virtaddr AND page_mask u) AND set_mask u)"

text \<open>One turn of the LRU loop, and the loop over the ways.\<close>

definition age_way :: "nat \<Rightarrow> (nat \<Rightarrow> u32) \<Rightarrow> nat \<Rightarrow> u32" where
  "age_way r spr =
     (if spr r AND TLBMR_LRU \<noteq> 0
      then spr(r := (spr r AND NOT TLBMR_LRU) OR ((spr r AND TLBMR_LRU) - 0x40)) else spr)"

primrec age_ways :: "nat \<Rightarrow> nat \<Rightarrow> (nat \<Rightarrow> u32) \<Rightarrow> nat \<Rightarrow> u32" where
  "age_ways 0 r spr = spr"
| "age_ways (Suc i) r spr = age_ways i (r + 256) (age_way r spr)"

text \<open>The registers after a hit: all ways aged, the way of the hit reloaded.\<close>

definition touch_lru :: "mmu \<Rightarrow> nat \<Rightarrow> nat \<Rightarrow> (nat \<Rightarrow> u32) \<Rightarrow> nat \<Rightarrow> u32" where
  "touch_lru u first hit spr =
     (let spr = age_ways (nways u) first spr in spr(hit := spr hit OR lru_reload u))"

section \<open>Data MMU\<close>

definition dmmu_find_tlbmr :: "u32 \<Rightarrow> 'z machine_scheme \<Rightarrow> nat option \<times> nat" where
  "dmmu_find_tlbmr virtaddr s =
     (let u = dmmu_state s; first = SPR_DTLBMR_BASE 0 + tlb_set u virtaddr
      in (scan_ways (nways u) first (vpn_mask u) (virtaddr AND vpn_mask u) (sprs s), first))"

text \<open>Whether the attributes of a translate register forbid the access.\<close>

definition dtlb_forbids :: "'z machine_scheme \<Rightarrow> bool \<Rightarrow> u32 \<Rightarrow> bool" where
  "dtlb_forbids s write_access tr =
     (if spr_has s SPR_SR SPR_SR_SM
      then (write_access \<and> tr AND SPR_DTLBTR_SWE = 0) \<or> (\<not> write_access \<and> tr AND SPR_DTLBTR_SRE = 0)
      else (write_access \<and> tr AND SPR_DTLBTR_UWE = 0) \<or> (\<not> write_access \<and> tr AND SPR_DTLBTR_URE = 0))"

definition dmmu_translate :: "u32 \<Rightarrow> bool \<Rightarrow> 'z machine_scheme \<Rightarrow> u32 \<times> 'z machine_scheme" where
  "dmmu_translate virtaddr write_access s =
     (if \<not> spr_has s SPR_SR SPR_SR_DME \<or> \<not> spr_has s SPR_UPR SPR_UPR_DMP
      then (virtaddr, s\<lparr>data_ci := (if virtaddr \<ge> 0x80000000 then 1 else 0)\<rparr>)
      else
        (case dmmu_find_tlbmr virtaddr s of
           (Some dtlbmr, dtlbmr_lru) \<Rightarrow>
             (let u = dmmu_state s;
                  dtlbtr = dtlbmr + 128;
                  s = s\<lparr>sprs := touch_lru u dtlbmr_lru dtlbmr (sprs s)\<rparr>;
                  s = s\<lparr>data_ci := sprs s dtlbtr AND SPR_DTLBTR_CI,
                        mem_cycles := mem_cycles s + mmu_hitdelay u\<rparr>;
                  s = (if dtlb_forbids s write_access (sprs s dtlbtr)
                       then except_handle EXCEPT_DPF virtaddr s else s)
              in ((sprs s dtlbtr AND SPR_DTLBTR_PPN) OR (virtaddr AND page_offset_mask u), s))
         | (None, _) \<Rightarrow>
             (let s = s\<lparr>mem_cycles := mem_cycles s + mmu_missdelay (dmmu_state s)\<rparr>;
                  s = except_handle EXCEPT_DTLBMISS virtaddr s;
                  s = (if pcu_enabled (cfg s) then pcu_count_event SPR_PCMR_DTLBM s else s)
              in (0, s))))"

definition peek_into_dtlb ::
  "u32 \<Rightarrow> bool \<Rightarrow> bool \<Rightarrow> 'z machine_scheme \<Rightarrow> u32 \<times> 'z machine_scheme" where
  "peek_into_dtlb virtaddr write_access through_dc s =
     (if \<not> spr_has s SPR_SR SPR_SR_DME \<or> \<not> spr_has s SPR_UPR SPR_UPR_DMP
      then (virtaddr, if through_dc then s\<lparr>data_ci := (if virtaddr \<ge> 0x80000000 then 1 else 0)\<rparr> else s)
      else
        (case dmmu_find_tlbmr virtaddr s of
           (Some dtlbmr, _) \<Rightarrow>
             (let dtlbtr = dtlbmr + 128
              in if dtlb_forbids s write_access (sprs s dtlbtr) then (0, s)
                 else ((sprs s dtlbtr AND SPR_DTLBTR_PPN)
                         OR (virtaddr AND page_offset_mask (dmmu_state s)),
                       if through_dc then s\<lparr>data_ci := sprs s dtlbtr AND SPR_DTLBTR_CI\<rparr> else s))
         | (None, _) \<Rightarrow> (0, s)))"

section \<open>Instruction MMU\<close>

definition immu_find_tlbmr :: "u32 \<Rightarrow> 'z machine_scheme \<Rightarrow> nat option \<times> nat" where
  "immu_find_tlbmr virtaddr s =
     (let u = immu_state s; first = SPR_ITLBMR_BASE 0 + tlb_set u virtaddr
      in (scan_ways (nways u) first (vpn_mask u) (virtaddr AND vpn_mask u) (sprs s), first))"

definition itlb_forbids :: "'z machine_scheme \<Rightarrow> u32 \<Rightarrow> bool" where
  "itlb_forbids s tr =
     (if spr_has s SPR_SR SPR_SR_SM then tr AND SPR_ITLBTR_SXE = 0 else tr AND SPR_ITLBTR_UXE = 0)"

definition immu_translate :: "u32 \<Rightarrow> 'z machine_scheme \<Rightarrow> u32 \<times> 'z machine_scheme" where
  "immu_translate virtaddr s =
     (if \<not> spr_has s SPR_SR SPR_SR_IME \<or> \<not> spr_has s SPR_UPR SPR_UPR_IMP
      then (virtaddr, s\<lparr>insn_ci := (if virtaddr \<ge> 0x80000000 then 1 else 0)\<rparr>)
      else
        (case immu_find_tlbmr virtaddr s of
           (Some itlbmr, itlbmr_lru) \<Rightarrow>
             (let u = immu_state s;
                  itlbtr = itlbmr + 128;
                  s = s\<lparr>sprs := touch_lru u itlbmr_lru itlbmr (sprs s)\<rparr>;
                  s = s\<lparr>insn_ci := sprs s itlbtr AND SPR_ITLBTR_CI,
                        mem_cycles := mem_cycles s + mmu_hitdelay u\<rparr>;
                  s = (if itlb_forbids s (sprs s itlbtr)
                       then except_handle EXCEPT_IPF virtaddr s else s)
              in ((sprs s itlbtr AND SPR_ITLBTR_PPN) OR (virtaddr AND page_offset_mask u), s))
         | (None, _) \<Rightarrow>
             (let s = s\<lparr>mem_cycles := mem_cycles s + mmu_missdelay (immu_state s)\<rparr>;
                  s = except_handle EXCEPT_ITLBMISS virtaddr s;
                  s = (if pcu_enabled (cfg s) then pcu_count_event SPR_PCMR_ITLBM s else s)
              in (0, s))))"

definition peek_into_itlb :: "u32 \<Rightarrow> 'z machine_scheme \<Rightarrow> u32" where
  "peek_into_itlb virtaddr s =
     (if \<not> spr_has s SPR_SR SPR_SR_IME \<or> \<not> spr_has s SPR_UPR SPR_UPR_IMP then virtaddr
      else
        (case immu_find_tlbmr virtaddr s of
           (Some itlbmr, _) \<Rightarrow>
             (let itlbtr = itlbmr + 128
              in if itlb_forbids s (sprs s itlbtr) then 0
                 else (sprs s itlbtr AND SPR_ITLBTR_PPN)
                        OR (virtaddr AND page_offset_mask (immu_state s)))
         | (None, _) \<Rightarrow> 0))"

section \<open>Precalculated values\<close>

abbreviation (input) MMUCFGR_NTW :: u32 where "MMUCFGR_NTW \<equiv> 0x3"
abbreviation (input) MMUCFGR_NTS :: u32 where "MMUCFGR_NTS \<equiv> 0x1c"

datatype mmu_param = Enabled | Nsets | Nways | Pagesize | Entrysize | Ustates | Missdelay | Hitdelay

text \<open>
  The masks both \<^verbatim>\<open>end_sec\<close> functions derive. A product of page size and number of sets
  beyond \<^verbatim>\<open>int\<close> is undefined in C.
\<close>

definition mmu_precalculate :: "mmu \<Rightarrow> mmu" where
  "mmu_precalculate u =
     (let u = u\<lparr>pagesize_log2 := log2_int (pagesize u)\<rparr>;
          u = u\<lparr>page_offset_mask := of_nat (pagesize u) - 1\<rparr>;
          u = u\<lparr>page_mask := NOT (page_offset_mask u)\<rparr>;
          u = u\<lparr>vpn_mask := NOT (of_nat (pagesize u * nsets u) - 1)\<rparr>;
          u = u\<lparr>set_mask := of_nat (nsets u) - 1\<rparr>
      in u\<lparr>lru_reload := push_bit 6 (set_mask u) AND TLBMR_LRU\<rparr>)"

section \<open>Configuration of the data MMU\<close>

text \<open>The handlers of the parameters of the \<^verbatim>\<open>dmmu\<close> section; a refused value leaves the state.\<close>

abbreviation upd_dmmu :: "(mmu \<Rightarrow> mmu) \<Rightarrow> 'z machine_scheme \<Rightarrow> 'z machine_scheme" where
  "upd_dmmu f s \<equiv> s\<lparr>dmmu_state := f (dmmu_state s)\<rparr>"

definition dmmu_enabled :: "int \<Rightarrow> 'z machine_scheme \<Rightarrow> 'z machine_scheme" where
  "dmmu_enabled v s =
     upd_dmmu (mmu_enabled_update (\<lambda>_. v \<noteq> 0))
       (if v \<noteq> 0 then or_spr SPR_UPR SPR_UPR_DMP s else clear_spr SPR_UPR SPR_UPR_DMP s)"

definition dmmu_nsets :: "int \<Rightarrow> 'z machine_scheme \<Rightarrow> 'z machine_scheme" where
  "dmmu_nsets v s =
     (if is_power2 v \<and> v \<le> 128
      then or_spr SPR_DMMUCFGR (push_bit 2 (of_nat (log2_int (nat v))))
             (clear_spr SPR_DMMUCFGR MMUCFGR_NTS (upd_dmmu (nsets_update (\<lambda>_. nat v)) s))
      else s)"

definition dmmu_nways :: "int \<Rightarrow> 'z machine_scheme \<Rightarrow> 'z machine_scheme" where
  "dmmu_nways v s =
     (if v \<ge> 1 \<and> v \<le> 4
      then or_spr SPR_DMMUCFGR (of_int (v - 1))
             (clear_spr SPR_DMMUCFGR MMUCFGR_NTW (upd_dmmu (nways_update (\<lambda>_. nat v)) s))
      else s)"

definition dmmu_pagesize :: "int \<Rightarrow> 'z machine_scheme \<Rightarrow> 'z machine_scheme" where
  "dmmu_pagesize v s = (if is_power2 v then upd_dmmu (pagesize_update (\<lambda>_. nat v)) s else s)"

definition dmmu_entrysize :: "int \<Rightarrow> 'z machine_scheme \<Rightarrow> 'z machine_scheme" where
  "dmmu_entrysize v s = (if is_power2 v then upd_dmmu (entrysize_update (\<lambda>_. nat v)) s else s)"

definition dmmu_ustates :: "int \<Rightarrow> 'z machine_scheme \<Rightarrow> 'z machine_scheme" where
  "dmmu_ustates v s =
     (if v \<ge> 2 \<and> v \<le> 4 then upd_dmmu (ustates_update (\<lambda>_. nat v)) s else s)"

definition dmmu_missdelay :: "int \<Rightarrow> 'z machine_scheme \<Rightarrow> 'z machine_scheme" where
  "dmmu_missdelay v s = upd_dmmu (mmu_missdelay_update (\<lambda>_. v)) s"

definition dmmu_hitdelay :: "int \<Rightarrow> 'z machine_scheme \<Rightarrow> 'z machine_scheme" where
  "dmmu_hitdelay v s = upd_dmmu (mmu_hitdelay_update (\<lambda>_. v)) s"

definition dmmu_start_sec :: "'z machine_scheme \<Rightarrow> 'z machine_scheme" where
  "dmmu_start_sec s =
     (let u = zero_mmu\<lparr>mmu_enabled := False, nsets := 1, nways := 1, pagesize := 8192,
                 entrysize := 1, ustates := 2, mmu_hitdelay := 1, mmu_missdelay := 1\<rparr>;
          s = (if mmu_enabled u then or_spr SPR_UPR SPR_UPR_DMP s else clear_spr SPR_UPR SPR_UPR_DMP s);
          s = clear_spr SPR_DMMUCFGR MMUCFGR_NTS s;
          s = or_spr SPR_DMMUCFGR (push_bit 2 (of_nat (log2_int (nsets u)))) s;
          s = clear_spr SPR_DMMUCFGR MMUCFGR_NTW s;
          s = or_spr SPR_DMMUCFGR (of_nat (nways u - 1)) s
      in s\<lparr>dmmu_state := u\<rparr>)"

definition dmmu_end_sec :: "'z machine_scheme \<Rightarrow> 'z machine_scheme outcome" where
  "dmmu_end_sec s =
     (let u = dmmu_state s in
      if pagesize u * nsets u \<ge> 2 ^ 31 then Inl Undefined_behaviour
      else Inr (upd_dmmu mmu_precalculate s))"

text \<open>A setting of the section, in the order \<^verbatim>\<open>reg_dmmu_sec\<close> registers the handlers.\<close>

definition dmmu_param :: "mmu_param \<Rightarrow> int \<Rightarrow> 'z machine_scheme \<Rightarrow> 'z machine_scheme" where
  "dmmu_param p v =
     (case p of Enabled \<Rightarrow> dmmu_enabled v | Nsets \<Rightarrow> dmmu_nsets v | Nways \<Rightarrow> dmmu_nways v
      | Pagesize \<Rightarrow> dmmu_pagesize v | Entrysize \<Rightarrow> dmmu_entrysize v | Ustates \<Rightarrow> dmmu_ustates v
      | Missdelay \<Rightarrow> dmmu_missdelay v | Hitdelay \<Rightarrow> dmmu_hitdelay v)"

definition dmmu_section :: "(mmu_param \<times> int) list \<Rightarrow> 'z machine_scheme \<Rightarrow> 'z machine_scheme outcome" where
  "dmmu_section ps s = dmmu_end_sec (fold (\<lambda>(p, v). dmmu_param p v) ps (dmmu_start_sec s))"

section \<open>Configuration of the instruction MMU\<close>

text \<open>The handlers of the parameters of the \<^verbatim>\<open>immu\<close> section; a refused value leaves the state.\<close>

abbreviation upd_immu :: "(mmu \<Rightarrow> mmu) \<Rightarrow> 'z machine_scheme \<Rightarrow> 'z machine_scheme" where
  "upd_immu f s \<equiv> s\<lparr>immu_state := f (immu_state s)\<rparr>"

definition immu_enabled :: "int \<Rightarrow> 'z machine_scheme \<Rightarrow> 'z machine_scheme" where
  "immu_enabled v s =
     upd_immu (mmu_enabled_update (\<lambda>_. v \<noteq> 0))
       (if v \<noteq> 0 then or_spr SPR_UPR SPR_UPR_IMP s else clear_spr SPR_UPR SPR_UPR_IMP s)"

definition immu_nsets :: "int \<Rightarrow> 'z machine_scheme \<Rightarrow> 'z machine_scheme" where
  "immu_nsets v s =
     (if is_power2 v \<and> v \<le> 128
      then or_spr SPR_IMMUCFGR (push_bit 2 (of_nat (log2_int (nat v))))
             (clear_spr SPR_IMMUCFGR MMUCFGR_NTS (upd_immu (nsets_update (\<lambda>_. nat v)) s))
      else s)"

definition immu_nways :: "int \<Rightarrow> 'z machine_scheme \<Rightarrow> 'z machine_scheme" where
  "immu_nways v s =
     (if v \<ge> 1 \<and> v \<le> 4
      then or_spr SPR_IMMUCFGR (of_int (v - 1))
             (clear_spr SPR_IMMUCFGR MMUCFGR_NTW (upd_immu (nways_update (\<lambda>_. nat v)) s))
      else s)"

definition immu_pagesize :: "int \<Rightarrow> 'z machine_scheme \<Rightarrow> 'z machine_scheme" where
  "immu_pagesize v s = (if is_power2 v then upd_immu (pagesize_update (\<lambda>_. nat v)) s else s)"

definition immu_entrysize :: "int \<Rightarrow> 'z machine_scheme \<Rightarrow> 'z machine_scheme" where
  "immu_entrysize v s = (if is_power2 v then upd_immu (entrysize_update (\<lambda>_. nat v)) s else s)"

definition immu_ustates :: "int \<Rightarrow> 'z machine_scheme \<Rightarrow> 'z machine_scheme" where
  "immu_ustates v s =
     (if v \<ge> 2 \<and> v \<le> 4 then upd_immu (ustates_update (\<lambda>_. nat v)) s else s)"

definition immu_missdelay :: "int \<Rightarrow> 'z machine_scheme \<Rightarrow> 'z machine_scheme" where
  "immu_missdelay v s = upd_immu (mmu_missdelay_update (\<lambda>_. v)) s"

definition immu_hitdelay :: "int \<Rightarrow> 'z machine_scheme \<Rightarrow> 'z machine_scheme" where
  "immu_hitdelay v s = upd_immu (mmu_hitdelay_update (\<lambda>_. v)) s"

definition immu_start_sec :: "'z machine_scheme \<Rightarrow> 'z machine_scheme" where
  "immu_start_sec s =
     (let u = zero_mmu\<lparr>mmu_enabled := False, nsets := 1, nways := 1, pagesize := 8192,
                 entrysize := 1, ustates := 2, mmu_hitdelay := 1, mmu_missdelay := 1\<rparr>;
          s = (if mmu_enabled u then or_spr SPR_UPR SPR_UPR_IMP s else clear_spr SPR_UPR SPR_UPR_IMP s);
          s = clear_spr SPR_IMMUCFGR MMUCFGR_NTS s;
          s = or_spr SPR_IMMUCFGR (push_bit 2 (of_nat (log2_int (nsets u)))) s;
          s = clear_spr SPR_IMMUCFGR MMUCFGR_NTW s;
          s = or_spr SPR_IMMUCFGR (of_nat (nways u - 1)) s
      in s\<lparr>immu_state := u\<rparr>)"

definition immu_end_sec :: "'z machine_scheme \<Rightarrow> 'z machine_scheme outcome" where
  "immu_end_sec s =
     (let u = immu_state s in
      if pagesize u * nsets u \<ge> 2 ^ 31 then Inl Undefined_behaviour
      else Inr (upd_immu mmu_precalculate s))"

text \<open>A setting of the section, in the order \<^verbatim>\<open>reg_immu_sec\<close> registers the handlers.\<close>

definition immu_param :: "mmu_param \<Rightarrow> int \<Rightarrow> 'z machine_scheme \<Rightarrow> 'z machine_scheme" where
  "immu_param p v =
     (case p of Enabled \<Rightarrow> immu_enabled v | Nsets \<Rightarrow> immu_nsets v | Nways \<Rightarrow> immu_nways v
      | Pagesize \<Rightarrow> immu_pagesize v | Entrysize \<Rightarrow> immu_entrysize v | Ustates \<Rightarrow> immu_ustates v
      | Missdelay \<Rightarrow> immu_missdelay v | Hitdelay \<Rightarrow> immu_hitdelay v)"

definition immu_section :: "(mmu_param \<times> int) list \<Rightarrow> 'z machine_scheme \<Rightarrow> 'z machine_scheme outcome" where
  "immu_section ps s = immu_end_sec (fold (\<lambda>(p, v). immu_param p v) ps (immu_start_sec s))"

section \<open>Lemmas on the configuration\<close>

lemma odd_part_power: "odd_part (2 ^ k) = 1"
  by (induction k) (simp_all add: odd_part.simps)

lemma odd_part_1: "odd_part x = 1 \<Longrightarrow> \<exists>k. x = 2 ^ k"
proof (induction x rule: odd_part.induct)
  case (1 x)
  show ?case
  proof (cases "x \<noteq> 0 \<and> even x")
    case True
    then have "odd_part (x div 2) = 1" using 1(2) by (simp add: odd_part.simps[of x])
    with True 1(1) obtain k where "x div 2 = 2 ^ k" by blast
    with True have "x = 2 ^ Suc k" by (metis dvd_mult_div_cancel power_Suc)
    then show ?thesis by blast
  next
    case False
    with 1(2) have "x = 2 ^ 0" by (simp add: odd_part.simps[of x] split: if_splits)
    then show ?thesis by blast
  qed
qed

lemma is_power2_iff: "is_power2 x \<longleftrightarrow> (\<exists>k. x = 2 ^ k)"
  using odd_part_1 odd_part_power unfolding is_power2_def by auto

lemma is_power2_nat: "is_power2 x \<Longrightarrow> \<exists>k. nat x = 2 ^ k"
  unfolding is_power2_iff by (auto simp: nat_power_eq)

lemma log2_int_power [simp]: "log2_int (2 ^ k) = k"
proof (induction k)
  case 0 then show ?case by (simp add: log2_int.simps)
next
  case (Suc k)
  have "(2::nat) ^ Suc k \<noteq> 0" "(2::nat) ^ Suc k \<noteq> 1" "(2::nat) ^ Suc k div 2 = 2 ^ k" by simp_all
  with Suc show ?case by (simp only: log2_int.simps[of "2 ^ Suc k"] if_False)
qed

text \<open>What the handlers keep: the sizes are powers of two in range.\<close>

definition mmu_sizes :: "mmu \<Rightarrow> bool" where
  "mmu_sizes u \<longleftrightarrow> (\<exists>k. pagesize u = 2 ^ k) \<and> (\<exists>k\<le>7. nsets u = 2 ^ k) \<and> 1 \<le> nways u \<and> nways u \<le> 4"

lemma nsets_range: "is_power2 v \<Longrightarrow> v \<le> 128 \<Longrightarrow> \<exists>k\<le>7. nat v = 2 ^ k"
proof -
  assume "is_power2 v" "v \<le> 128"
  then obtain k where k: "v = 2 ^ k" "(2::int) ^ k \<le> 2 ^ 7" unfolding is_power2_iff by auto
  then have "k \<le> 7" using power_le_imp_le_exp[of "2::int" k 7] by simp
  with k(1) show ?thesis by (auto simp: nat_power_eq)
qed

lemma dmmu_param_sizes: "mmu_sizes (dmmu_state s) \<Longrightarrow> mmu_sizes (dmmu_state (dmmu_param p v s))"
  using nsets_range[of v] is_power2_nat[of v]
  by (cases p) (auto simp: dmmu_param_def mmu_sizes_def dmmu_enabled_def dmmu_nsets_def dmmu_nways_def
      dmmu_pagesize_def dmmu_entrysize_def dmmu_ustates_def dmmu_missdelay_def dmmu_hitdelay_def)

lemma immu_param_sizes: "mmu_sizes (immu_state s) \<Longrightarrow> mmu_sizes (immu_state (immu_param p v s))"
  using nsets_range[of v] is_power2_nat[of v]
  by (cases p) (auto simp: immu_param_def mmu_sizes_def immu_enabled_def immu_nsets_def immu_nways_def
      immu_pagesize_def immu_entrysize_def immu_ustates_def immu_missdelay_def immu_hitdelay_def)

lemma start_sizes:
  "mmu_sizes (dmmu_state (dmmu_start_sec s))" "mmu_sizes (immu_state (immu_start_sec s))"
proof -
  have "\<exists>k. (8192::nat) = 2 ^ k" by (rule exI[of _ 13]) simp
  moreover have "\<exists>k\<le>7. (1::nat) = 2 ^ k" by (rule exI[of _ 0]) simp
  ultimately show "mmu_sizes (dmmu_state (dmmu_start_sec s))" "mmu_sizes (immu_state (immu_start_sec s))"
    by (simp_all add: dmmu_start_sec_def immu_start_sec_def Let_def mmu_sizes_def)
qed

text \<open>The masks after \<^verbatim>\<open>end_sec\<close>, bit by bit.\<close>

definition mmu_wf :: "mmu \<Rightarrow> bool" where
  "mmu_wf u \<longleftrightarrow> 1 \<le> nways u \<and> nways u \<le> 4 \<and> nsets u \<le> 128 \<and> lru_reload u \<in> {0, 0x40, 0xc0}
     \<and> (\<exists>p n. p + n < 32 \<and> n \<le> 7 \<and> pagesize_log2 u = p \<and> nsets u = 2 ^ n \<and> page_offset_mask u = mask p
          \<and> page_mask u = NOT (mask p) \<and> vpn_mask u = NOT (mask (p + n)) \<and> set_mask u = mask n)"

lemma of_nat_power_minus_1: "of_nat (2 ^ n) - 1 = (mask n :: 'a::len word)"
  by (simp add: mask_eq_exp_minus_1)

lemma precalculate_fields:
  "vpn_mask (mmu_precalculate u) = NOT (of_nat (pagesize u * nsets u) - 1)"
  "lru_reload (mmu_precalculate u) = push_bit 6 (of_nat (nsets u) - 1) AND TLBMR_LRU"
  by (simp_all add: mmu_precalculate_def Let_def)

lemma precalculate_wf:
  assumes "mmu_sizes u" "pagesize u * nsets u < 2 ^ 31"
  shows "mmu_wf (mmu_precalculate u)"
proof -
  from assms(1) obtain p n where pn: "pagesize u = 2 ^ p" "n \<le> 7" "nsets u = 2 ^ n"
    "1 \<le> nways u" "nways u \<le> 4" unfolding mmu_sizes_def by blast
  have "(2::nat) ^ (p + n) < 2 ^ 31" using assms(2) by (simp add: pn power_add)
  then have lt: "p + n < 31" using power_less_imp_less_exp[of "2::nat" "p + n" 31] by simp
  have sets: "nsets u \<le> 128" using power_increasing[of n 7 "2::nat"] pn by simp
  have vpn: "of_nat (pagesize u * nsets u) - 1 = (mask (p + n) :: u32)"
    using of_nat_power_minus_1[of "p + n", where 'a = 32] by (simp only: pn power_add)
  have "n \<in> {0, 1, 2, 3, 4, 5, 6, 7}" using pn(2) by auto
  then have lru: "push_bit 6 (of_nat (nsets u) - 1) AND TLBMR_LRU \<in> {0, 0x40, 0xc0}"
    unfolding pn(3) by (elim insertE) simp_all
  show ?thesis
    unfolding mmu_wf_def
  proof (intro conjI exI)
    show "lru_reload (mmu_precalculate u) \<in> {0, 0x40, 0xc0}"
      using lru by (simp only: precalculate_fields)
    show "vpn_mask (mmu_precalculate u) = NOT (mask (p + n))"
      by (simp only: precalculate_fields vpn)
  qed (use pn lt sets in \<open>simp_all add: mmu_precalculate_def Let_def of_nat_power_minus_1
         mask_eq_exp_minus_1\<close>)
qed
section \<open>Lemmas on the search\<close>

text \<open>Set and tag together identify the page.\<close>

lemma tlb_set_bits:
  assumes "mmu_wf u"
  obtains p n where "p + n < 32" "page_mask u = NOT (mask p)" "vpn_mask u = NOT (mask (p + n))"
    "page_offset_mask u = mask p" "\<And>a. tlb_set u a = unat (take_bit n (drop_bit p a))" "n \<le> 7"
proof -
  from assms obtain p n where *: "p + n < 32" "pagesize_log2 u = p" "page_offset_mask u = mask p" "n \<le> 7"
    "page_mask u = NOT (mask p)" "vpn_mask u = NOT (mask (p + n))" "set_mask u = mask n"
    unfolding mmu_wf_def by blast
  have "drop_bit p (a AND NOT (mask p)) AND mask n = take_bit n (drop_bit p a)" for a :: u32
    by (rule bit_word_eqI) (auto simp: bit_simps dest: bit_imp_le_length)
  with * that show thesis by (simp add: tlb_set_def)
qed

lemma tlb_identifies_page:
  assumes "mmu_wf u"
  shows "tlb_set u a = tlb_set u b \<and> a AND vpn_mask u = b AND vpn_mask u
     \<longleftrightarrow> a AND page_mask u = b AND page_mask u"
proof -
  obtain p n where *: "p + n < 32" "page_mask u = NOT (mask p)" "vpn_mask u = NOT (mask (p + n))"
    "\<And>a. tlb_set u a = unat (take_bit n (drop_bit p a))" by (rule tlb_set_bits[OF assms]) blast
  have bits: "take_bit n (drop_bit p a) = take_bit n (drop_bit p b)
      \<longleftrightarrow> (\<forall>i. p \<le> i \<and> i < p + n \<longrightarrow> bit a i = bit b i)"
  proof
    assume eq: "take_bit n (drop_bit p a) = take_bit n (drop_bit p b)"
    show "\<forall>i. p \<le> i \<and> i < p + n \<longrightarrow> bit a i = bit b i"
    proof (intro allI impI)
      fix i assume "p \<le> i \<and> i < p + n"
      moreover have "bit (take_bit n (drop_bit p a)) (i - p) = bit (take_bit n (drop_bit p b)) (i - p)"
        using eq by simp
      ultimately show "bit a i = bit b i" by (auto simp: bit_simps less_diff_conv2)
    qed
  qed (auto intro!: bit_word_eqI simp: bit_simps)
  have msk: "a AND NOT (mask q) = b AND NOT (mask q) \<longleftrightarrow> (\<forall>i. q \<le> i \<and> i < 32 \<longrightarrow> bit a i = bit b i)" for q
    by (auto simp: bit_eq_iff bit_simps)
  have range: "p \<le> i \<and> i < 32 \<longleftrightarrow> (p \<le> i \<and> i < p + n) \<or> (p + n \<le> i \<and> i < 32)" for i
    using *(1) by auto
  show ?thesis
    unfolding *(2-4) msk word_unat_eq_iff[symmetric] bits using range by blast
qed

lemma tlb_set_less: "mmu_wf u \<Longrightarrow> tlb_set u a < 128"
proof (erule tlb_set_bits)
  fix p n assume *: "\<And>a. tlb_set u a = unat (take_bit n (drop_bit p a))" "n \<le> 7"
  have "unat (take_bit n (drop_bit p a)) < 2 ^ n" by (simp add: unsigned_take_bit_eq)
  also have "\<dots> \<le> 2 ^ 7" using *(2) by (rule power_increasing) simp
  finally show "tlb_set u a < 128" by (simp add: *(1))
qed

text \<open>The search returns the first way that matches.\<close>

abbreviation (input) way_matches :: "nat \<Rightarrow> u32 \<Rightarrow> u32 \<Rightarrow> (nat \<Rightarrow> u32) \<Rightarrow> nat \<Rightarrow> bool" where
  "way_matches r vmask vpn spr w \<equiv>
     spr (r + 256 * w) AND vmask = vpn \<and> spr (r + 256 * w) AND TLBMR_V \<noteq> 0"

lemma scan_ways_None:
  "scan_ways n r vmask vpn spr = None \<longleftrightarrow> (\<forall>w<n. \<not> way_matches r vmask vpn spr w)"
proof (induction n arbitrary: r)
  case (Suc n)
  show ?case
    unfolding scan_ways.simps All_less_Suc2 using Suc[of "r + 256"] by (simp add: algebra_simps)
qed simp

lemma scan_ways_Some:
  "scan_ways n r vmask vpn spr = Some h \<Longrightarrow> \<exists>w<n. h = r + 256 * w \<and> way_matches r vmask vpn spr w
      \<and> (\<forall>v<w. \<not> way_matches r vmask vpn spr v)"
proof (induction n arbitrary: r)
  case (Suc n)
  show ?case
  proof (cases "way_matches r vmask vpn spr 0")
    case True
    with Suc.prems show ?thesis by (intro exI[of _ 0]) simp
  next
    case False
    with Suc.prems have "scan_ways n (r + 256) vmask vpn spr = Some h" by (auto split: if_splits)
    from Suc.IH[OF this] obtain w where "w < n" "h = r + 256 * Suc w" "way_matches r vmask vpn spr (Suc w)"
      "\<forall>v<w. \<not> way_matches r vmask vpn spr (Suc v)" by (auto simp: algebra_simps)
    with False show ?thesis by (intro exI[of _ "Suc w"]) (simp add: All_less_Suc2)
  qed
qed simp

section \<open>Lemmas on the LRU fields\<close>

definition aged :: "u32 \<Rightarrow> u32" where
  "aged v = (if v AND TLBMR_LRU \<noteq> 0 then (v AND NOT TLBMR_LRU) OR ((v AND TLBMR_LRU) - 0x40) else v)"

lemma age_ways_nth:
  "age_ways n r spr m = (if \<exists>w<n. m = r + 256 * w then aged (spr m) else spr m)"
proof (induction n arbitrary: r spr)
  case (Suc n)
  have step: "age_way r spr m = (if m = r then aged (spr r) else spr m)" for m
    by (simp add: age_way_def aged_def)
  have "(\<exists>w<Suc n. m = r + 256 * w) \<longleftrightarrow> m = r \<or> (\<exists>w<n. m = r + 256 + 256 * w)"
    unfolding Ex_less_Suc2 by (simp add: algebra_simps)
  moreover have "\<not> (m = r \<and> (\<exists>w<n. m = r + 256 + 256 * w))" by auto
  ultimately show ?case by (auto simp: Suc step)
qed simp

lemma lru_cases: "v AND TLBMR_LRU \<in> {0, 0x40, 0x80, 0xc0 :: u32}"
proof -
  have "v AND TLBMR_LRU = push_bit 6 (take_bit 2 (drop_bit 6 v))"
  proof (rule bit_word_eqI)
    fix i assume "i < LENGTH(32)"
    have "bit (TLBMR_LRU :: u32) i \<longleftrightarrow> i = 6 \<or> i = 7"
      using \<open>i < LENGTH(32)\<close> by (auto simp: bit_numeral_rec nat_less_iff less_Suc_eq numeral_eq_Suc)
    then show "bit (v AND TLBMR_LRU) i = bit (push_bit 6 (take_bit 2 (drop_bit 6 v))) i"
      using \<open>i < LENGTH(32)\<close> by (auto simp: bit_simps)
  qed
  moreover have "unat (take_bit 2 (drop_bit 6 v)) \<in> {0, 1, 2, 3}"
    using take_bit_nat_less_exp[of 2 "unat (drop_bit 6 v)"] by (auto simp: unsigned_take_bit_eq)
  then have "take_bit 2 (drop_bit 6 v) \<in> {0, 1, 2, 3 :: u32}" by (auto simp: word_unat_eq_iff)
  then have "push_bit 6 (take_bit 2 (drop_bit 6 v)) \<in> {0, 0x40, 0x80, 0xc0 :: u32}"
    by (elim insertE) simp_all
  ultimately show ?thesis by simp
qed

lemma aged_other: "aged v AND NOT TLBMR_LRU = v AND NOT TLBMR_LRU"
proof -
  have "((v AND TLBMR_LRU) - 0x40) AND NOT TLBMR_LRU = 0" if "v AND TLBMR_LRU \<noteq> 0"
    using lru_cases[of v] that by auto
  then show ?thesis by (simp add: aged_def bit.conj_disj_distrib2 and.assoc)
qed

text \<open>The LRU field as a number: ageing counts down to 0.\<close>

definition lru :: "u32 \<Rightarrow> nat" where
  "lru v = unat (v AND TLBMR_LRU) div 0x40"

lemma lru_aged [simp]: "lru (aged v) = lru v - 1"
proof -
  have "aged v AND TLBMR_LRU = (if v AND TLBMR_LRU = 0 then 0 else (v AND TLBMR_LRU) - 0x40)"
    using lru_cases[of v] by (auto simp: aged_def bit.conj_disj_distrib2 and.assoc)
  then show ?thesis using lru_cases[of v] by (auto simp: lru_def)
qed

lemma touch_lru_nth:
  "touch_lru u r h spr m =
     (let v = (if \<exists>w<nways u. m = r + 256 * w then aged (spr m) else spr m)
      in if m = h then v OR lru_reload u else v)"
  by (auto simp: touch_lru_def age_ways_nth Let_def)

lemma touch_lru_other:
  assumes "mmu_wf u"
  shows "touch_lru u r h spr m AND NOT TLBMR_LRU = spr m AND NOT TLBMR_LRU"
proof -
  have "lru_reload u AND NOT TLBMR_LRU = 0" using assms unfolding mmu_wf_def by auto
  then show ?thesis
    using aged_other[of "spr m"] by (auto simp: touch_lru_nth Let_def bit.conj_disj_distrib2)
qed

lemma touch_lru_outside:
  "\<nexists>w. w < nways u \<and> m = r + 256 * w \<Longrightarrow> m \<noteq> h \<Longrightarrow> touch_lru u r h spr m = spr m"
  by (auto simp: touch_lru_nth Let_def)

text \<open>The fields stay within the reload value, which then needs no clearing.\<close>

lemma touch_lru_hit:
  assumes "mmu_wf u" and "lru (spr h) \<le> lru (lru_reload u)" and "w < nways u" "h = r + 256 * w"
  shows "lru (touch_lru u r h spr h) = lru (lru_reload u)"
proof -
  have "lru_reload u \<in> {0, 0x40, 0xc0}" using assms(1) unfolding mmu_wf_def by blast
  moreover have "aged (spr h) AND TLBMR_LRU
      = (if spr h AND TLBMR_LRU = 0 then 0 else (spr h AND TLBMR_LRU) - 0x40)"
    using lru_cases[of "spr h"] by (auto simp: aged_def bit.conj_disj_distrib2 and.assoc)
  moreover have "\<exists>w<nways u. h = r + 256 * w" using assms(3,4) by blast
  ultimately show ?thesis
    using assms(2) lru_cases[of "spr h"]
    by (auto simp: touch_lru_nth Let_def lru_def bit.conj_disj_distrib2)
qed

lemma touch_lru_counts:
  "m \<noteq> h \<Longrightarrow> lru (touch_lru u r h spr m) = (if \<exists>w<nways u. m = r + 256 * w then lru (spr m) - 1 else lru (spr m))"
  by (auto simp: touch_lru_nth Let_def)

section \<open>Lemmas on translation\<close>

lemma dmmu_find_Some:
  assumes "dmmu_find_tlbmr va s = (Some h, r)"
  shows "r = SPR_DTLBMR_BASE 0 + tlb_set (dmmu_state s) va"
    and "\<exists>w<nways (dmmu_state s). h = r + 256 * w"
  using assms unfolding dmmu_find_tlbmr_def Let_def by (auto dest: scan_ways_Some)

lemma immu_find_Some:
  assumes "immu_find_tlbmr va s = (Some h, r)"
  shows "r = SPR_ITLBMR_BASE 0 + tlb_set (immu_state s) va"
    and "\<exists>w<nways (immu_state s). h = r + 256 * w"
  using assms unfolding immu_find_tlbmr_def Let_def by (auto dest: scan_ways_Some)

text \<open>Ageing leaves the translate registers and the status register alone.\<close>

lemma touch_lru_tr:
  assumes "h = r + 256 * w"
  shows "touch_lru u r h spr (h + 128) = spr (h + 128)"
proof (rule touch_lru_outside)
  show "\<nexists>v. v < nways u \<and> h + 128 = r + 256 * v" using assms by presburger
qed simp

lemma touch_lru_low:
  "m < r \<Longrightarrow> h = r + 256 * w \<Longrightarrow> touch_lru u r h spr m = spr m"
  by (rule touch_lru_outside) auto

text \<open>Accesses the unit lets through.\<close>

definition dtlb_permits :: "u32 \<Rightarrow> bool \<Rightarrow> 'z machine_scheme \<Rightarrow> bool" where
  "dtlb_permits va wr s \<longleftrightarrow> \<not> spr_has s SPR_SR SPR_SR_DME \<or> \<not> spr_has s SPR_UPR SPR_UPR_DMP
     \<or> (case fst (dmmu_find_tlbmr va s) of None \<Rightarrow> False
        | Some r \<Rightarrow> \<not> dtlb_forbids s wr (sprs s (r + 128)))"

definition itlb_permits :: "u32 \<Rightarrow> 'z machine_scheme \<Rightarrow> bool" where
  "itlb_permits va s \<longleftrightarrow> \<not> spr_has s SPR_SR SPR_SR_IME \<or> \<not> spr_has s SPR_UPR SPR_UPR_IMP
     \<or> (case fst (immu_find_tlbmr va s) of None \<Rightarrow> False
        | Some r \<Rightarrow> \<not> itlb_forbids s (sprs s (r + 128)))"

lemma dmmu_hit_unfold:
  assumes "dmmu_find_tlbmr va s = (Some h, r)" "spr_has s SPR_SR SPR_SR_DME" "spr_has s SPR_UPR SPR_UPR_DMP"
  shows "dmmu_translate va wr s =
    (let s' = s\<lparr>sprs := touch_lru (dmmu_state s) r h (sprs s), data_ci := sprs s (h + 128) AND SPR_DTLBTR_CI,
               mem_cycles := mem_cycles s + mmu_hitdelay (dmmu_state s)\<rparr>;
         s' = (if dtlb_forbids s wr (sprs s (h + 128)) then except_handle EXCEPT_DPF va s' else s')
     in ((sprs s' (h + 128) AND SPR_DTLBTR_PPN) OR (va AND page_offset_mask (dmmu_state s)), s'))"
proof -
  obtain w where h: "h = r + 256 * w" using dmmu_find_Some(2)[OF assms(1)] by blast
  have low: "touch_lru (dmmu_state s) r h (sprs s) SPR_SR = sprs s SPR_SR"
    by (rule touch_lru_low[OF _ h]) (simp add: dmmu_find_Some(1)[OF assms(1)])
  show ?thesis
    using assms touch_lru_tr[OF h] low by (simp add: dmmu_translate_def Let_def dtlb_forbids_def)
qed

lemma immu_hit_unfold:
  assumes "immu_find_tlbmr va s = (Some h, r)" "spr_has s SPR_SR SPR_SR_IME" "spr_has s SPR_UPR SPR_UPR_IMP"
  shows "immu_translate va s =
    (let s' = s\<lparr>sprs := touch_lru (immu_state s) r h (sprs s), insn_ci := sprs s (h + 128) AND SPR_ITLBTR_CI,
               mem_cycles := mem_cycles s + mmu_hitdelay (immu_state s)\<rparr>;
         s' = (if itlb_forbids s (sprs s (h + 128)) then except_handle EXCEPT_IPF va s' else s')
     in ((sprs s' (h + 128) AND SPR_ITLBTR_PPN) OR (va AND page_offset_mask (immu_state s)), s'))"
proof -
  obtain w where h: "h = r + 256 * w" using immu_find_Some(2)[OF assms(1)] by blast
  have low: "touch_lru (immu_state s) r h (sprs s) SPR_SR = sprs s SPR_SR"
    by (rule touch_lru_low[OF _ h]) (simp add: immu_find_Some(1)[OF assms(1)])
  show ?thesis
    using assms touch_lru_tr[OF h] low by (simp add: immu_translate_def Let_def itlb_forbids_def)
qed

lemma fold_param_sizes:
  "mmu_sizes (dmmu_state s) \<Longrightarrow> mmu_sizes (dmmu_state (fold (\<lambda>(p, v). dmmu_param p v) ps s))"
  "mmu_sizes (immu_state s) \<Longrightarrow> mmu_sizes (immu_state (fold (\<lambda>(p, v). immu_param p v) ps s))"
  by (induction ps arbitrary: s) (auto simp: dmmu_param_sizes immu_param_sizes)

lemma mmu_sections_wf:
  "dmmu_section ps s = Inr s' \<Longrightarrow> mmu_wf (dmmu_state s')"
  "immu_section ps s = Inr s' \<Longrightarrow> mmu_wf (immu_state s')"
proof -
  show "mmu_wf (dmmu_state s')" if "dmmu_section ps s = Inr s'"
    using that precalculate_wf[OF fold_param_sizes(1)[OF start_sizes(1)], of ps s]
    by (auto simp: dmmu_section_def dmmu_end_sec_def Let_def not_le split: if_splits)
  show "mmu_wf (immu_state s')" if "immu_section ps s = Inr s'"
    using that precalculate_wf[OF fold_param_sizes(2)[OF start_sizes(2)], of ps s]
    by (auto simp: immu_section_def immu_end_sec_def Let_def not_le split: if_splits)
qed

lemma mmu_wf_ways: "mmu_wf u \<Longrightarrow> nways u \<le> 4"
  unfolding mmu_wf_def by blast

section \<open>Properties\<close>

text \<open>
  C33: configuration. However the \<^verbatim>\<open>dmmu\<close> and \<^verbatim>\<open>immu\<close> sections of the configuration
  file set their parameters, a section that ends without overflowing \<^verbatim>\<open>int\<close> leaves a unit
  whose masks fit together: one to four ways, at most 128 sets, page offset, set and tag masks that
  partition the address, and a reload value within the LRU field. Then set and tag identify the page
  of an address, and every match and translate register the search reaches is one of the 256
  registers of its way.
\<close>

theorem mmu_section_wf:
  assumes "u \<in> dmmu_state ` {s'. dmmu_section ps s = Inr s'} \<or> u \<in> immu_state ` {s'. immu_section ps s = Inr s'}"
  shows "1 \<le> nways u \<and> nways u \<le> 4 \<and> tlb_set u a < 128 \<and> lru_reload u \<in> {0, 0x40, 0xc0}
     \<and> ((tlb_set u a = tlb_set u b \<and> a AND vpn_mask u = b AND vpn_mask u)
          \<longleftrightarrow> a AND page_mask u = b AND page_mask u)
     \<and> (a AND page_mask u) OR (a AND page_offset_mask u) = a"
proof -
  have wf: "mmu_wf u" using assms mmu_sections_wf by blast
  have "page_mask u = NOT (page_offset_mask u)" using wf unfolding mmu_wf_def by metis
  then have "(a AND page_mask u) OR (a AND page_offset_mask u) = a"
    by (metis and.right_neutral bit.conj_disj_distrib bit.disj_cancel_left)
  with tlb_set_less[OF wf, of a] tlb_identifies_page[OF wf, of a b] wf show ?thesis
    unfolding mmu_wf_def by blast
qed

theorem mmu_section_wf_witness:
  "lru_reload (dmmu_state (case dmmu_section [(Nsets, 64), (Nsets, 48), (Nways, 9)] zero_machine of Inr s \<Rightarrow> s))
     \<in> {0, 0x40, 0xc0}
   \<and> \<not> isl (dmmu_section [(Nsets, 64), (Nsets, 48), (Nways, 9)] zero_machine)"
proof -
  have *: "\<not> isl (dmmu_section [(Nsets, 64), (Nsets, 48), (Nways, 9)] zero_machine)"
    by (simp add: dmmu_section_def dmmu_param_def dmmu_end_sec_def dmmu_start_sec_def dmmu_nsets_def
        dmmu_nways_def is_power2_def odd_part.simps Let_def)
  then obtain s where s: "dmmu_section [(Nsets, 64), (Nsets, 48), (Nways, 9)] zero_machine = Inr s"
    by (cases "dmmu_section [(Nsets, 64), (Nsets, 48), (Nways, 9)] zero_machine") auto
  have "lru_reload (dmmu_state s) \<in> {0, 0x40, 0xc0}"
    using mmu_section_wf[of "dmmu_state s" "[(Nsets, 64), (Nsets, 48), (Nways, 9)]" zero_machine] s by blast
  with s show ?thesis by simp
qed

text \<open>A data MMU with one set and one way that maps page 1 to page 2, readable in both modes.\<close>

definition mapped_machine :: machine where
  "mapped_machine = zero_machine\<lparr>
     dmmu_state := mmu_precalculate (zero_mmu\<lparr>nsets := 1, nways := 1, pagesize := 8192\<rparr>),
     sprs := (\<lambda>_. 0)(SPR_SR := SPR_SR_DME OR SPR_SR_SM, SPR_UPR := SPR_UPR_DMP, SPR_DTLBMR_BASE 0 := 0x2001,
               SPR_DTLBMR_BASE 0 + 128 := 0x4000 OR SPR_DTLBTR_SRE OR SPR_DTLBTR_URE)\<rparr>"

lemma log2_int_8192: "log2_int 8192 = 13"
  using log2_int_power[of 13] by simp

lemma mapped_machine_wf: "mmu_wf (dmmu_state mapped_machine)"
proof -
  let ?u = "zero_mmu\<lparr>nsets := 1, nways := 1, pagesize := 8192\<rparr>"
  have "\<exists>k. pagesize ?u = 2 ^ k" by (rule exI[of _ 13]) simp
  moreover have "\<exists>k\<le>7. nsets ?u = 2 ^ k" by (rule exI[of _ 0]) simp
  ultimately have "mmu_sizes ?u" unfolding mmu_sizes_def by simp
  then have "mmu_wf (mmu_precalculate ?u)" by (rule precalculate_wf) simp
  then show ?thesis by (simp add: mapped_machine_def)
qed

lemmas mapped_eval = mapped_machine_def zero_machine_def zero_mmu_def mmu_precalculate_def Let_def
  dmmu_find_tlbmr_def tlb_set_def log2_int_8192 numeral_eq_Suc[of num.One]

text \<open>
  C8: translation of a permitted data access. When the unit is off, or the page is in the TLB with
  the right to the access, \<^verbatim>\<open>dmmu_translate\<close> and \<^verbatim>\<open>peek_into_dtlb\<close> give the same
  physical address and cache inhibition; translation raises no exception and changes, besides the
  cycle count, only LRU fields of the match registers of the set; the peek changes no register.
\<close>

theorem dmmu_translate_permitted:
  assumes "mmu_wf (dmmu_state s)" "dtlb_permits va wr s"
  shows "case (dmmu_translate va wr s, peek_into_dtlb va wr True s) of ((pa, s1), (pa', s2)) \<Rightarrow>
     pa = pa' \<and> data_ci s1 = data_ci s2
     \<and> s1 = s\<lparr>sprs := sprs s1, data_ci := data_ci s1, mem_cycles := mem_cycles s1\<rparr>
     \<and> s2 = s\<lparr>data_ci := data_ci s2\<rparr>
     \<and> (\<forall>n. sprs s1 n AND NOT TLBMR_LRU = sprs s n AND NOT TLBMR_LRU)
     \<and> (\<forall>n. n \<notin> {SPR_DTLBMR_BASE w + tlb_set (dmmu_state s) va | w. w < nways (dmmu_state s)}
           \<longrightarrow> sprs s1 n = sprs s n)"
proof (cases "spr_has s SPR_SR SPR_SR_DME \<and> spr_has s SPR_UPR SPR_UPR_DMP")
  case False
  then show ?thesis by (simp add: dmmu_translate_def peek_into_dtlb_def)
next
  case True
  with assms(2) obtain h r where find: "dmmu_find_tlbmr va s = (Some h, r)"
    and ok: "\<not> dtlb_forbids s wr (sprs s (h + 128))"
    by (auto simp: dtlb_permits_def split: option.splits) (metis prod.collapse)
  obtain w where w: "w < nways (dmmu_state s)" "h = r + 256 * w" using dmmu_find_Some(2)[OF find] by blast
  have out: "touch_lru (dmmu_state s) r h (sprs s) n = sprs s n"
    if "n \<notin> {SPR_DTLBMR_BASE w + tlb_set (dmmu_state s) va | w. w < nways (dmmu_state s)}" for n
    using that w by (intro touch_lru_outside) (auto simp: dmmu_find_Some(1)[OF find] algebra_simps)
  from True ok find touch_lru_tr[OF w(2)] touch_lru_other[OF assms(1)] out show ?thesis
    by (simp add: dmmu_hit_unfold[OF find] peek_into_dtlb_def Let_def)
qed

theorem dmmu_translate_permitted_witness:
  "dtlb_permits 0x2abc False mapped_machine
   \<and> fst (dmmu_translate 0x2abc False mapped_machine) = fst (peek_into_dtlb 0x2abc False True mapped_machine)
   \<and> fst (peek_into_dtlb 0x2abc False True mapped_machine) = 0x4abc"
proof (intro conjI)
  show *: "dtlb_permits 0x2abc False mapped_machine"
    by (simp add: mapped_eval dtlb_permits_def dtlb_forbids_def)
  show "fst (dmmu_translate 0x2abc False mapped_machine) = fst (peek_into_dtlb 0x2abc False True mapped_machine)"
    using dmmu_translate_permitted[OF mapped_machine_wf *] by (simp add: split_beta)
  show "fst (peek_into_dtlb 0x2abc False True mapped_machine) = 0x4abc"
    by (simp add: mapped_eval peek_into_dtlb_def dtlb_forbids_def)
qed

text \<open>
  C9: a refused data access. When no way holds the page, or its attributes forbid the access, the
  peek gives 0 and changes nothing, and \<^verbatim>\<open>dmmu_translate\<close> takes exactly one exception, a TLB
  miss or a page fault, with the virtual address in \<^verbatim>\<open>EEAR\<close>, the instruction (or the branch
  before its delay slot) in \<^verbatim>\<open>EPCR\<close> and the old status in \<^verbatim>\<open>ESR\<close>, and the handler next.
\<close>

theorem dmmu_translate_refused:
  assumes "mmu_wf (dmmu_state s)" "\<not> dtlb_permits va wr s"
    "sprs s SPR_DSR AND SPR_DSR_DPFE = 0" "sprs s SPR_DSR AND SPR_DSR_DME = 0"
  shows "peek_into_dtlb va wr dc s = (0, s)
    \<and> (let s' = snd (dmmu_translate va wr s);
            e = (if fst (dmmu_find_tlbmr va s) = None then EXCEPT_DTLBMISS else EXCEPT_DPF)
       in sprs s' SPR_EEAR_BASE = va \<and> sprs s' SPR_ESR_BASE = sprs s SPR_SR
        \<and> sprs s' SPR_EPCR_BASE = pc s - (if delay_insn s then 4 else 0)
        \<and> pcnext s' = e + (if spr_has s SPR_SR SPR_SR_EPH then 0xf0000000 else 0)
        \<and> pc s' = pc s \<and> reg s' = reg s \<and> except_pending s' \<and> \<not> delay_insn s')"
proof -
  have on: "spr_has s SPR_SR SPR_SR_DME" "spr_has s SPR_UPR SPR_UPR_DMP"
    using assms(2) by (auto simp: dtlb_permits_def)
  show ?thesis
  proof (cases "fst (dmmu_find_tlbmr va s)")
    case None
    then obtain r where find: "dmmu_find_tlbmr va s = (None, r)" by (metis prod.collapse)
    let ?s = "s\<lparr>mem_cycles := mem_cycles s + mmu_missdelay (dmmu_state s)\<rparr>"
    note result = except_handle_result[of ?s EXCEPT_DTLBMISS va]
    show ?thesis
      using on find assms(4) result
      by (simp add: dmmu_translate_def peek_into_dtlb_def Let_def resume_address_def pcu_count_event_frame)
  next
    case (Some h)
    then obtain r where find: "dmmu_find_tlbmr va s = (Some h, r)" by (metis prod.collapse)
    have bad: "dtlb_forbids s wr (sprs s (h + 128))" using assms(2) Some on by (simp add: dtlb_permits_def)
    obtain w where w: "w < nways (dmmu_state s)" "h = r + 256 * w" using dmmu_find_Some(2)[OF find] by blast
    have same: "touch_lru (dmmu_state s) r h (sprs s) n = sprs s n" if "n < 0xA00 \<or> 0xE00 \<le> n" for n
      using that w tlb_set_less[OF assms(1), of va] mmu_wf_ways[OF assms(1)]
      by (intro touch_lru_outside) (auto simp: dmmu_find_Some(1)[OF find])
    let ?s = "s\<lparr>sprs := touch_lru (dmmu_state s) r h (sprs s), data_ci := sprs s (h + 128) AND SPR_DTLBTR_CI,
               mem_cycles := mem_cycles s + mmu_hitdelay (dmmu_state s)\<rparr>"
    note result = except_handle_result[of ?s EXCEPT_DPF va]
    show ?thesis
      using on find bad assms(3) result
      by (simp add: dmmu_hit_unfold[OF find] peek_into_dtlb_def Let_def resume_address_def same)
  qed
qed

theorem dmmu_translate_refused_witness:
  "let s' = snd (dmmu_translate 0x2abc True mapped_machine)
   in sprs s' SPR_EEAR_BASE = 0x2abc \<and> pcnext s' = EXCEPT_DPF"
proof -
  have "\<not> dtlb_permits 0x2abc True mapped_machine"
    by (simp add: mapped_eval dtlb_permits_def dtlb_forbids_def)
  moreover have "sprs mapped_machine SPR_DSR = 0" "\<not> spr_has mapped_machine SPR_SR SPR_SR_EPH"
    "fst (dmmu_find_tlbmr 0x2abc mapped_machine) \<noteq> None"
    by (simp_all add: mapped_eval)
  ultimately show ?thesis
    using dmmu_translate_refused[OF mapped_machine_wf, of "0x2abc" True True] by (simp add: Let_def)
qed

text \<open>
  C32: the LRU fields. While no field of the set exceeds the reload value, a permitted access through
  the TLB sets the field of the way that hit to the reload value, as the comment in
  \<^verbatim>\<open>dmmu_translate\<close> claims without clearing it first, and counts every other field of the set
  down, stopping at 0; so no field exceeds the reload value afterwards.
\<close>

theorem dmmu_translate_lru:
  assumes "mmu_wf (dmmu_state s)" "spr_has s SPR_SR SPR_SR_DME" "spr_has s SPR_UPR SPR_UPR_DMP"
    "dmmu_find_tlbmr va s = (Some h, r)" "dtlb_permits va wr s"
    "\<forall>w<nways (dmmu_state s). lru (sprs s (r + 256 * w)) \<le> lru (lru_reload (dmmu_state s))"
  shows "let s' = snd (dmmu_translate va wr s)
     in lru (sprs s' h) = lru (lru_reload (dmmu_state s))
      \<and> (\<forall>w<nways (dmmu_state s). r + 256 * w \<noteq> h \<longrightarrow> lru (sprs s' (r + 256 * w)) = lru (sprs s (r + 256 * w)) - 1)
      \<and> (\<forall>w<nways (dmmu_state s). lru (sprs s' (r + 256 * w)) \<le> lru (lru_reload (dmmu_state s)))"
proof -
  have ok: "\<not> dtlb_forbids s wr (sprs s (h + 128))" using assms(2-5) by (simp add: dtlb_permits_def)
  obtain w where w: "w < nways (dmmu_state s)" "h = r + 256 * w" using dmmu_find_Some(2)[OF assms(4)] by blast
  have hit: "lru (touch_lru (dmmu_state s) r h (sprs s) h) = lru (lru_reload (dmmu_state s))"
    using touch_lru_hit[OF assms(1) _ w] assms(6) w by simp
  have other: "lru (touch_lru (dmmu_state s) r h (sprs s) (r + 256 * v)) = lru (sprs s (r + 256 * v)) - 1"
    if "v < nways (dmmu_state s)" "r + 256 * v \<noteq> h" for v
    using touch_lru_counts[OF that(2), of "dmmu_state s" r "sprs s"] that(1) by auto
  have "lru (touch_lru (dmmu_state s) r h (sprs s) (r + 256 * v)) \<le> lru (lru_reload (dmmu_state s))"
    if "v < nways (dmmu_state s)" for v
    using hit other[OF that] assms(6) that by (cases "r + 256 * v = h") (auto intro: le_trans[OF diff_le_self])
  with hit other show ?thesis
    by (simp add: dmmu_hit_unfold[OF assms(4,2,3)] ok Let_def)
qed

theorem dmmu_translate_lru_witness:
  "lru (sprs (snd (dmmu_translate 0x2abc False mapped_machine)) (SPR_DTLBMR_BASE 0))
     = lru (lru_reload (dmmu_state mapped_machine))"
proof -
  have "dmmu_find_tlbmr 0x2abc mapped_machine = (Some 0xA00, 0xA00)" "dtlb_permits 0x2abc False mapped_machine"
    "spr_has mapped_machine SPR_SR SPR_SR_DME" "spr_has mapped_machine SPR_UPR SPR_UPR_DMP"
    "\<forall>w<nways (dmmu_state mapped_machine). lru (sprs mapped_machine (0xA00 + 256 * w))
        \<le> lru (lru_reload (dmmu_state mapped_machine))"
    by (simp_all add: mapped_eval dtlb_permits_def dtlb_forbids_def lru_def)
  then show ?thesis
    using dmmu_translate_lru[OF mapped_machine_wf] by (fastforce simp: Let_def)
qed

text \<open>
  C11: instruction translation. A fetch the unit permits gives the address of
  \<^verbatim>\<open>peek_into_itlb\<close> and raises nothing; one it refuses, a miss or a page without execute
  permission, makes the peek 0 and takes the exception with the address in \<^verbatim>\<open>EEAR\<close> and, less
  a delay slot, in \<^verbatim>\<open>EPCR\<close>. The general purpose registers keep their values either way.
\<close>

theorem immu_translate_correct:
  assumes "mmu_wf (immu_state s)"
    "sprs s SPR_DSR AND SPR_DSR_IPFE = 0" "sprs s SPR_DSR AND SPR_DSR_IME = 0"
  shows "case immu_translate va s of (pa, s') \<Rightarrow> reg s' = reg s \<and> pc s' = pc s \<and>
     (if itlb_permits va s then pa = peek_into_itlb va s \<and> pcnext s' = pcnext s
        \<and> except_pending s' = except_pending s
        \<and> (\<forall>n. sprs s' n AND NOT TLBMR_LRU = sprs s n AND NOT TLBMR_LRU)
      else peek_into_itlb va s = 0 \<and> except_pending s'
        \<and> sprs s' SPR_EEAR_BASE = va \<and> sprs s' SPR_ESR_BASE = sprs s SPR_SR
        \<and> sprs s' SPR_EPCR_BASE = va - (if delay_insn s then 4 else 0)
        \<and> pcnext s' = (if fst (immu_find_tlbmr va s) = None then EXCEPT_ITLBMISS else EXCEPT_IPF)
              + (if spr_has s SPR_SR SPR_SR_EPH then 0xf0000000 else 0))"
proof (cases "spr_has s SPR_SR SPR_SR_IME \<and> spr_has s SPR_UPR SPR_UPR_IMP")
  case False
  then show ?thesis by (auto simp: immu_translate_def peek_into_itlb_def itlb_permits_def)
next
  case on: True
  show ?thesis
  proof (cases "fst (immu_find_tlbmr va s)")
    case None
    then obtain r where find: "immu_find_tlbmr va s = (None, r)" by (metis prod.collapse)
    let ?s = "s\<lparr>mem_cycles := mem_cycles s + mmu_missdelay (immu_state s)\<rparr>"
    show ?thesis
      using on find assms(3) except_handle_result[of ?s EXCEPT_ITLBMISS va]
      by (simp add: immu_translate_def peek_into_itlb_def itlb_permits_def Let_def resume_address_def
          pcu_count_event_frame)
  next
    case (Some h)
    then obtain r where find: "immu_find_tlbmr va s = (Some h, r)" by (metis prod.collapse)
    obtain w where w: "w < nways (immu_state s)" "h = r + 256 * w" using immu_find_Some(2)[OF find] by blast
    have same: "touch_lru (immu_state s) r h (sprs s) n = sprs s n" if "n < 0x1200 \<or> 0x1600 \<le> n" for n
      using that w tlb_set_less[OF assms(1), of va] mmu_wf_ways[OF assms(1)]
      by (intro touch_lru_outside) (auto simp: immu_find_Some(1)[OF find])
    let ?s = "s\<lparr>sprs := touch_lru (immu_state s) r h (sprs s), insn_ci := sprs s (h + 128) AND SPR_ITLBTR_CI,
               mem_cycles := mem_cycles s + mmu_hitdelay (immu_state s)\<rparr>"
    show ?thesis
    proof (cases "itlb_forbids s (sprs s (h + 128))")
      case True
      then show ?thesis
        using on find assms(2) except_handle_result[of ?s EXCEPT_IPF va]
        by (simp add: immu_hit_unfold[OF find] peek_into_itlb_def itlb_permits_def Let_def
            resume_address_def same)
    next
      case False
      then show ?thesis
        using on find touch_lru_other[OF assms(1)] touch_lru_tr[OF w(2)]
        by (simp add: immu_hit_unfold[OF find] peek_into_itlb_def itlb_permits_def Let_def)
    qed
  qed
qed

theorem immu_translate_correct_witness:
  "case immu_translate 0x2000 (mapped_machine\<lparr>immu_state := dmmu_state mapped_machine,
       sprs := (sprs mapped_machine)(SPR_SR := SPR_SR_IME, SPR_UPR := SPR_UPR_IMP)\<rparr>) of (pa, s') \<Rightarrow>
     sprs s' SPR_EPCR_BASE = 0x2000 \<and> pcnext s' = EXCEPT_ITLBMISS"
proof -
  let ?s = "mapped_machine\<lparr>immu_state := dmmu_state mapped_machine,
       sprs := (sprs mapped_machine)(SPR_SR := SPR_SR_IME, SPR_UPR := SPR_UPR_IMP)\<rparr>"
  have "mmu_wf (immu_state ?s)" using mapped_machine_wf by simp
  moreover have "sprs ?s SPR_DSR = 0" by (simp add: mapped_machine_def)
  moreover have "\<not> itlb_permits 0x2000 ?s" "fst (immu_find_tlbmr 0x2000 ?s) = None" "\<not> delay_insn ?s"
    by (simp_all add: mapped_eval itlb_permits_def immu_find_tlbmr_def)
  ultimately show ?thesis
    using immu_translate_correct[of ?s "0x2000"] by (simp add: split_beta del: word_numeral_alt)
qed

end
