(* ===== verification/Uart.thy ===== *)
theory Uart
  imports Interrupts
begin

text \<open>
  The serial port, \<^verbatim>\<open>peripheral/16450.c\<close>: registers, the transmit and receive FIFOs, the
  interrupt logic, loopback, and the jobs that shift characters in and out. A function takes the port
  and the processor; the number of the port stands for the pointer its jobs carry. The channel is the
  list of what its reads will return and the list of what was written; \<open>u_vapi_out\<close> holds what was
  sent to the verification interface. Printing is not modelled.
\<close>

section \<open>State\<close>

datatype channel_read = Chan_data u8 | Chan_empty | Chan_error

record uart =
  u_txbuf :: "u8 list"
  u_rxbuf :: "u16 list"
  u_dll :: u8
  u_dlh :: u8
  u_ier :: u8
  u_iir :: u8
  u_fcr :: u8
  u_lcr :: u8
  u_mcr :: u8
  u_lsr :: u8
  u_msr :: u8
  u_scr :: u8
  u_txser :: u8
  u_rxser :: u16
  u_loopback :: u8
  txbuf_head :: nat
  txbuf_tail :: nat
  rxbuf_head :: nat
  rxbuf_tail :: nat
  txbuf_full :: u32
  rxbuf_full :: u32
  u_receiving :: bool
  recv_break :: bool
  u_ints :: u32
  u_char_clks :: nat
  v_char_clks :: nat
  v_dll :: u8
  v_dlh :: u8
  v_lcr :: u8
  v_skew :: int
  vapi_buf :: "u64 list"
  vapi_buf_head :: nat
  vapi_buf_tail :: nat
  fifo_len :: nat
  u_channel :: "channel_read list"
  u_sent :: "u8 list"
  u_vapi_out :: "u64 list"
  u_enabled :: bool
  u_jitter :: int
  u_baseaddr :: u32
  u_irq :: int
  u_vapi_id :: u64
  uart16550 :: bool

abbreviation (input) UART_LCR_DLAB :: u8 where "UART_LCR_DLAB \<equiv> 0x80"
abbreviation (input) UART_LCR_SBC :: u8 where "UART_LCR_SBC \<equiv> 0x40"
abbreviation (input) UART_LCR_SPAR :: u8 where "UART_LCR_SPAR \<equiv> 0x20"
abbreviation (input) UART_LCR_EPAR :: u8 where "UART_LCR_EPAR \<equiv> 0x10"
abbreviation (input) UART_LCR_PARITY :: u8 where "UART_LCR_PARITY \<equiv> 0x08"
abbreviation (input) UART_LCR_STOP :: u8 where "UART_LCR_STOP \<equiv> 0x04"
abbreviation (input) UART_LCR_WLEN8 :: u8 where "UART_LCR_WLEN8 \<equiv> 0x03"
abbreviation (input) UART_LSR_RXERR :: u8 where "UART_LSR_RXERR \<equiv> 0x80"
abbreviation (input) UART_LSR_TXSERE :: u8 where "UART_LSR_TXSERE \<equiv> 0x40"
abbreviation (input) UART_LSR_TXBUFE :: u8 where "UART_LSR_TXBUFE \<equiv> 0x20"
abbreviation (input) UART_LSR_BREAK :: u8 where "UART_LSR_BREAK \<equiv> 0x10"
abbreviation (input) UART_LSR_FRAME :: u8 where "UART_LSR_FRAME \<equiv> 0x08"
abbreviation (input) UART_LSR_PARITY :: u8 where "UART_LSR_PARITY \<equiv> 0x04"
abbreviation (input) UART_LSR_OVRRUN :: u8 where "UART_LSR_OVRRUN \<equiv> 0x02"
abbreviation (input) UART_LSR_RDRDY :: u8 where "UART_LSR_RDRDY \<equiv> 0x01"
abbreviation (input) UART_IIR_NO_INT :: u8 where "UART_IIR_NO_INT \<equiv> 0x01"
abbreviation (input) UART_IIR_MSI :: u8 where "UART_IIR_MSI \<equiv> 0x00"
abbreviation (input) UART_IIR_THRI :: u8 where "UART_IIR_THRI \<equiv> 0x02"
abbreviation (input) UART_IIR_RDI :: u8 where "UART_IIR_RDI \<equiv> 0x04"
abbreviation (input) UART_IIR_RLSI :: u8 where "UART_IIR_RLSI \<equiv> 0x06"
abbreviation (input) UART_IIR_CTI :: u8 where "UART_IIR_CTI \<equiv> 0x0c"
abbreviation (input) UART_IER_MSI :: u8 where "UART_IER_MSI \<equiv> 0x08"
abbreviation (input) UART_IER_RLSI :: u8 where "UART_IER_RLSI \<equiv> 0x04"
abbreviation (input) UART_IER_THRI :: u8 where "UART_IER_THRI \<equiv> 0x02"
abbreviation (input) UART_IER_RDI :: u8 where "UART_IER_RDI \<equiv> 0x01"
abbreviation (input) UART_MCR_LOOP :: u8 where "UART_MCR_LOOP \<equiv> 0x10"
abbreviation (input) UART_CLOCK_DIVIDER :: nat where "UART_CLOCK_DIVIDER \<equiv> 16"
abbreviation (input) UART_CHAR_TIMEOUT :: nat where "UART_CHAR_TIMEOUT \<equiv> 4"
abbreviation (input) UART_FGETC_SLOWDOWN :: nat where "UART_FGETC_SLOWDOWN \<equiv> 100"

type_synonym 'z port = "uart \<times> 'z machine_scheme"

text \<open>Scheduling and removing a job of port \<open>n\<close>.\<close>

abbreviation (input) uart_sched :: "uart_job \<Rightarrow> nat \<Rightarrow> nat \<Rightarrow> 'z port \<Rightarrow> 'z port outcome" where
  "uart_sched j n t us \<equiv> (case us of (u, s) \<Rightarrow> bind_outcome (SCHED_ADD (Uart_job j n) (int t) s) (\<lambda>s. Inr (u, s)))"

abbreviation (input) uart_unsched :: "uart_job \<Rightarrow> nat \<Rightarrow> 'z port \<Rightarrow> 'z port" where
  "uart_unsched j n us \<equiv> (case us of (u, s) \<Rightarrow> (u, SCHED_FIND_REMOVE (Uart_job j n) s))"

definition char_clks :: "u8 \<Rightarrow> u8 \<Rightarrow> u8 \<Rightarrow> nat" where
  "char_clks dll dlh lcr =
     (let bauds = 2 + (if lcr AND UART_LCR_PARITY \<noteq> 0 then 2 else 0);
          bauds = bauds + (if lcr AND UART_LCR_STOP \<noteq> 0 then 4 else if lcr AND 3 \<noteq> 0 then 2 else 3);
          bauds = bauds + 10 + 2 * unat (lcr AND 3)
      in (256 * unat dlh + unat dll) * bauds div 2)"

section \<open>Interrupts\<close>

definition uart_int_msi :: "'z port \<Rightarrow> 'z port outcome" where
  "uart_int_msi us = (case us of (u, s) \<Rightarrow>
     let u = u\<lparr>u_ints := u_ints u OR push_bit (unat UART_IIR_MSI) 1\<rparr>
     in if u_ier u AND UART_IER_MSI = 0 then Inr (u, s)
        else if u_iir u AND UART_IIR_NO_INT \<noteq> 0 \<or> u_iir u = UART_IIR_MSI
        then bind_outcome (report_interrupt (u_irq u) s) (\<lambda>s. Inr (u\<lparr>u_iir := UART_IIR_MSI\<rparr>, s))
        else Inr (u, s))"

definition uart_int_thri :: "'z port \<Rightarrow> 'z port outcome" where
  "uart_int_thri us = (case us of (u, s) \<Rightarrow>
     let u = u\<lparr>u_ints := u_ints u OR push_bit (unat UART_IIR_THRI) 1\<rparr>
     in if u_ier u AND UART_IER_THRI = 0 then Inr (u, s)
        else if u_iir u AND UART_IIR_NO_INT \<noteq> 0 \<or> u_iir u = UART_IIR_MSI \<or> u_iir u = UART_IIR_THRI
        then bind_outcome (report_interrupt (u_irq u) s) (\<lambda>s. Inr (u\<lparr>u_iir := UART_IIR_THRI\<rparr>, s))
        else Inr (u, s))"

definition uart_int_cti :: "'z port \<Rightarrow> 'z port outcome" where
  "uart_int_cti us = (case us of (u, s) \<Rightarrow>
     let u = u\<lparr>u_ints := u_ints u OR push_bit (unat UART_IIR_CTI) 1\<rparr>
     in if u_ier u AND UART_IER_RDI = 0 then Inr (u, s)
        else if u_iir u \<noteq> UART_IIR_RLSI \<and> u_iir u \<noteq> UART_IIR_RDI
        then bind_outcome (report_interrupt (u_irq u) s) (\<lambda>s. Inr (u\<lparr>u_iir := UART_IIR_CTI\<rparr>, s))
        else Inr (u, s))"

definition uart_int_rdi :: "'z port \<Rightarrow> 'z port outcome" where
  "uart_int_rdi us = (case us of (u, s) \<Rightarrow>
     let u = u\<lparr>u_ints := u_ints u OR push_bit (unat UART_IIR_RDI) 1\<rparr>
     in if u_ier u AND UART_IER_RDI = 0 then Inr (u, s)
        else if u_iir u \<noteq> UART_IIR_RLSI
        then bind_outcome (report_interrupt (u_irq u) s) (\<lambda>s. Inr (u\<lparr>u_iir := UART_IIR_RDI\<rparr>, s))
        else Inr (u, s))"

definition uart_int_rlsi :: "'z port \<Rightarrow> 'z port outcome" where
  "uart_int_rlsi us = (case us of (u, s) \<Rightarrow>
     let u = u\<lparr>u_ints := u_ints u OR push_bit (unat UART_IIR_RLSI) 1\<rparr>
     in if u_ier u AND UART_IER_RLSI = 0 then Inr (u, s)
        else bind_outcome (report_interrupt (u_irq u) s) (\<lambda>s. Inr (u\<lparr>u_iir := UART_IIR_RLSI\<rparr>, s)))"

definition uart_check_rlsi :: "'z port \<Rightarrow> 'z port outcome" where
  "uart_check_rlsi us = (case us of (u, s) \<Rightarrow>
     if u_lsr u AND (UART_LSR_OVRRUN OR UART_LSR_PARITY OR UART_LSR_FRAME OR UART_LSR_BREAK) \<noteq> 0
     then uart_int_rlsi us else Inr us)"

definition fifo_trigger :: "u8 \<Rightarrow> u32" where
  "fifo_trigger x = (if x = 0 then 1 else if x = 1 then 4 else if x = 2 then 8 else if x = 3 then 14 else 0)"

definition uart_check_rdi :: "'z port \<Rightarrow> 'z port outcome" where
  "uart_check_rdi us = (case us of (u, s) \<Rightarrow>
     if rxbuf_full u \<ge> fifo_trigger (drop_bit 6 (u_fcr u)) then uart_int_rdi us else Inr us)"

text \<open>An interrupt is pending and enabled.\<close>

definition uart_due :: "u8 \<Rightarrow> u8 \<Rightarrow> uart \<Rightarrow> bool" where
  "uart_due intr enable u \<longleftrightarrow> u_ints u AND push_bit (unat intr) 1 \<noteq> 0 \<and> u_ier u AND enable \<noteq> 0"

definition uart_next_int :: "'z port \<Rightarrow> 'z port outcome" where
  "uart_next_int us = (case us of (u, s) \<Rightarrow>
     if uart_due UART_IIR_RLSI UART_IER_RLSI u then uart_int_rlsi us
     else if uart_due UART_IIR_RDI UART_IER_RDI u then uart_int_rdi us
     else if uart_due UART_IIR_CTI UART_IER_RDI u then uart_int_cti us
     else if uart_due UART_IIR_THRI UART_IER_THRI u then uart_int_thri us
     else if uart_due UART_IIR_MSI UART_IER_MSI u then uart_int_msi us
     else bind_outcome (clear_interrupt (u_irq u) s) (\<lambda>s. Inr (u\<lparr>u_iir := UART_IIR_NO_INT\<rparr>, s)))"

definition uart_clear_int :: "nat \<Rightarrow> u8 \<Rightarrow> 'z port \<Rightarrow> 'z port outcome" where
  "uart_clear_int n intr us = (case us of (u, s) \<Rightarrow>
     let u = u\<lparr>u_ints := u_ints u AND NOT (push_bit (unat intr) 1)\<rparr>;
         us = (if intr = UART_IIR_CTI then uart_unsched Uart_int_cti n (u, s) else (u, s))
     in if intr \<noteq> u_iir u then Inr us else uart_next_int us)"

section \<open>Loopback\<close>

definition uart_loopback :: "'z port \<Rightarrow> 'z port outcome" where
  "uart_loopback us = (case us of (u, s) \<Rightarrow>
     if u_mcr u AND UART_MCR_LOOP = 0 then Inr us
     else
       (let m = u_mcr u; r = u_msr u;
            r = (if m AND 0x08 \<noteq> drop_bit 4 (r AND 0x80) then r OR 0x08 else r);
            r = (if m AND 0x04 < drop_bit 4 (r AND 0x40) then r OR 0x04 else r);
            r = (if m AND 0x02 \<noteq> drop_bit 3 (r AND 0x10) then r OR 0x01 else r);
            r = (if m AND 0x01 \<noteq> drop_bit 5 (r AND 0x20) then r OR 0x02 else r);
            r = r AND NOT (0x80 OR 0x40 OR 0x20 OR 0x10);
            r = r OR push_bit 4 (m AND 0x08);
            r = r OR push_bit 4 (m AND 0x04);
            r = r OR push_bit 3 (m AND 0x02);
            r = r OR push_bit 5 (m AND 0x01);
            us = (u\<lparr>u_msr := r\<rparr>, s)
        in if r AND (0x01 OR 0x02 OR 0x04 OR 0x08) \<noteq> 0 then uart_int_msi us else Inr us))"

section \<open>Transmitter\<close>

definition parity_of :: "u64 \<Rightarrow> nat \<Rightarrow> u64" where
  "parity_of packet n = fold (\<lambda>j par. par XOR (drop_bit j packet AND 1)) [0..<n] 0"

text \<open>The frame on the line: character, parity bit, stop bits.\<close>

definition encode_packet :: "u8 \<Rightarrow> nat \<Rightarrow> u8 \<Rightarrow> u64" where
  "encode_packet lcr bits txser =
     (let nbits = min bits (unat (lcr AND UART_LCR_WLEN8) + 5);
          packet = ucast txser AND mask nbits;
          par = parity_of packet nbits;
          (packet, nbits) =
            (if lcr AND UART_LCR_PARITY \<noteq> 0
             then (packet OR push_bit nbits (if lcr AND UART_LCR_SPAR \<noteq> 0 then 1
                                             else if lcr AND UART_LCR_EPAR \<noteq> 0 then par else par XOR 1), nbits + 1)
             else (packet, nbits));
          packet = packet OR push_bit nbits 1
      in if lcr AND UART_LCR_STOP \<noteq> 0 then packet OR push_bit (nbits + 1) 1 else packet)"

text \<open>What the other side reads in its own mode, with parity and frame errors.\<close>

definition decode_packet :: "u8 \<Rightarrow> u64 \<Rightarrow> u64" where
  "decode_packet lcr packet =
     (let nbits = unat (lcr AND UART_LCR_WLEN8) + 5;
          data = packet AND mask nbits;
          par = parity_of packet (nbits + 1);
          (pe, nbits) =
            (if lcr AND UART_LCR_PARITY \<noteq> 0
             then (if lcr AND UART_LCR_SPAR \<noteq> 0 then drop_bit nbits packet AND 1 = 0
                   else if lcr AND UART_LCR_EPAR \<noteq> 0 then par \<noteq> 0 else par \<noteq> 1, nbits + 1)
             else (False, nbits));
          fe = (drop_bit nbits packet AND 1) XOR 1;
          fe = (if lcr AND UART_LCR_STOP \<noteq> 0 then fe OR ((drop_bit (nbits + 1) packet AND 1) XOR 1) else fe)
      in data OR (push_bit 8 (ucast lcr) OR push_bit 16 (of_bool pe) OR push_bit 17 fe OR push_bit 8 (ucast lcr)))"

definition send_char :: "nat \<Rightarrow> 'z port \<Rightarrow> 'z port" where
  "send_char bits us = (case us of (u, s) \<Rightarrow>
     (if u_mcr u AND UART_MCR_LOOP \<noteq> 0 then u\<lparr>u_loopback := u_txser u\<rparr>
      else if u_vapi_id u \<noteq> 0
      then u\<lparr>u_vapi_out := u_vapi_out u @ [decode_packet (v_lcr u) (encode_packet (u_lcr u) bits (u_txser u))]\<rparr>
      else u\<lparr>u_sent := u_sent u @ [u_txser u]\<rparr>, s))"

text \<open>An access outside of the FIFO is undefined; the count wraps below 0.\<close>

definition uart_tx_send :: "nat \<Rightarrow> 'z port \<Rightarrow> 'z port outcome" where
  "uart_tx_send n us = (case us of (u, s) \<Rightarrow>
     if txbuf_tail u \<ge> length (u_txbuf u) then Inl Undefined_behaviour
     else
       (let u = u\<lparr>u_txser := u_txbuf u ! txbuf_tail u,
                 txbuf_tail := (txbuf_tail u + 1) mod fifo_len u,
                 txbuf_full := txbuf_full u - 1,
                 u_lsr := u_lsr u AND NOT UART_LSR_TXSERE\<rparr>
        in bind_outcome (if u_lcr u AND UART_LCR_SBC = 0
                         then uart_sched Uart_char_clock n (u_char_clks u * UART_CLOCK_DIVIDER) (u, s)
                         else uart_sched Uart_send_break n 0 (u, s)) (\<lambda>(u, s).
             if txbuf_full u = 0 then uart_int_thri (u\<lparr>u_lsr := u_lsr u OR UART_LSR_TXBUFE\<rparr>, s)
             else Inr (u, s))))"

definition uart_char_clock :: "nat \<Rightarrow> 'z port \<Rightarrow> 'z port outcome" where
  "uart_char_clock n us =
     (case send_char (unat (u_lcr (fst us) AND UART_LCR_WLEN8) + 5) us of (u, s) \<Rightarrow>
        if txbuf_full u = 0 then Inr (u\<lparr>u_lsr := u_lsr u OR UART_LSR_TXSERE\<rparr>, s) else uart_tx_send n (u, s))"

definition uart_send_break :: "nat \<Rightarrow> 'z port \<Rightarrow> 'z port outcome" where
  "uart_send_break n us = (case us of (u, s) \<Rightarrow>
     let u = u\<lparr>u_vapi_out := u_vapi_out u @ [push_bit 8 (ucast UART_LCR_SBC)]\<rparr>
     in if txbuf_full u = 0 then Inr (u\<lparr>u_lsr := u_lsr u OR UART_LSR_TXSERE\<rparr>, s) else uart_tx_send n (u, s))"

section \<open>Receiver\<close>

definition uart_add_char :: "nat \<Rightarrow> u16 \<Rightarrow> 'z port \<Rightarrow> 'z port outcome" where
  "uart_add_char n ch us = (case us of (u, s) \<Rightarrow>
     bind_outcome (uart_clear_int n UART_IIR_CTI (u\<lparr>u_lsr := u_lsr u OR UART_LSR_RDRDY\<rparr>, s)) (\<lambda>us.
     bind_outcome (uart_sched Uart_int_cti n (u_char_clks (fst us) * UART_CHAR_TIMEOUT * UART_CLOCK_DIVIDER) us) (\<lambda>(u, s).
     bind_outcome
       (if rxbuf_full u + 1 > of_nat (fifo_len u)
        then uart_int_rlsi (u\<lparr>u_lsr := u_lsr u OR (UART_LSR_OVRRUN OR UART_LSR_RXERR)\<rparr>, s)
        else if rxbuf_head u \<ge> length (u_rxbuf u) then Inl Undefined_behaviour
        else
          (let first = (rxbuf_full u = 0);
               u = u\<lparr>u_rxbuf := (u_rxbuf u)[rxbuf_head u := ch],
                     rxbuf_head := (rxbuf_head u + 1) mod fifo_len u,
                     rxbuf_full := rxbuf_full u + 1\<rparr>
           in if first then uart_check_rlsi (u\<lparr>u_lsr := u_lsr u OR ucast (drop_bit 8 ch)\<rparr>, s) else Inr (u, s)))
       uart_check_rdi)))"

definition uart_recv_break_stop :: "nat \<Rightarrow> 'z port \<Rightarrow> 'z port" where
  "uart_recv_break_stop n us = (case us of (u, s) \<Rightarrow> uart_unsched Uart_recv_break n (u\<lparr>recv_break := False\<rparr>, s))"

definition uart_recv_break :: "nat \<Rightarrow> 'z port \<Rightarrow> 'z port outcome" where
  "uart_recv_break n us = uart_add_char n (push_bit 8 (ucast (UART_LSR_BREAK OR UART_LSR_RXERR OR UART_LSR_RDRDY))) us"

definition uart_sched_recv_check :: "nat \<Rightarrow> 'z port \<Rightarrow> 'z port outcome" where
  "uart_sched_recv_check n us =
     (if u_vapi_id (fst us) = 0 then uart_sched Uart_check_char n (UART_FGETC_SLOWDOWN * UART_CLOCK_DIVIDER) us else Inr us)"

definition uart_recv_char :: "nat \<Rightarrow> 'z port \<Rightarrow> 'z port outcome" where
  "uart_recv_char n us = (case us of (u, s) \<Rightarrow>
     let ch = u_rxser u AND (mask (unat (u_lcr u AND 3) + 5) OR 0xff00)
     in bind_outcome
          (if u_mcr u AND UART_MCR_LOOP \<noteq> 0
           then uart_sched Uart_recv_char n (u_char_clks u * UART_CLOCK_DIVIDER)
                  (u\<lparr>u_rxser := ucast (u_loopback u), u_receiving := True\<rparr>, s)
           else
             bind_outcome (uart_sched_recv_check n (u\<lparr>u_receiving := False\<rparr>, s)) (\<lambda>us.
               if u_vapi_id (fst us) \<noteq> 0 \<and> vapi_buf_head (fst us) \<noteq> vapi_buf_tail (fst us)
               then uart_sched Uart_vapi_cmd n 0 us else Inr us))
          (uart_add_char n ch))"

text \<open>After a read error the port stops asking.\<close>

definition uart_check_char :: "nat \<Rightarrow> 'z port \<Rightarrow> 'z port outcome" where
  "uart_check_char n us = (case us of (u, s) \<Rightarrow>
     case u_channel u of
       [] \<Rightarrow> uart_sched Uart_check_char n (UART_FGETC_SLOWDOWN * UART_CLOCK_DIVIDER) us
     | r # rs \<Rightarrow>
         (let u = u\<lparr>u_channel := rs\<rparr>
          in case r of
               Chan_data b \<Rightarrow> uart_sched Uart_recv_char n (u_char_clks u * UART_CLOCK_DIVIDER)
                  (u\<lparr>u_rxser := ucast b, u_receiving := True\<rparr>, s)
             | Chan_empty \<Rightarrow> uart_sched Uart_check_char n (UART_FGETC_SLOWDOWN * UART_CLOCK_DIVIDER) (u, s)
             | Chan_error \<Rightarrow> Inr (u, s)))"

section \<open>Registers\<close>

definition uart_write_txbuf :: "nat \<Rightarrow> u8 \<Rightarrow> 'z port \<Rightarrow> 'z port outcome" where
  "uart_write_txbuf n v us = (case us of (u, s) \<Rightarrow>
     if txbuf_head u \<ge> length (u_txbuf u) then Inl Undefined_behaviour
     else
       (let u = u\<lparr>u_lsr := u_lsr u AND NOT UART_LSR_TXBUFE\<rparr>;
            u' = u\<lparr>u_txbuf := (u_txbuf u)[txbuf_head u := v]\<rparr>
        in bind_outcome
             (if txbuf_full u < of_nat (fifo_len u)
              then
                (let u' = u'\<lparr>txbuf_head := (txbuf_head u + 1) mod fifo_len u, txbuf_full := txbuf_full u + 1\<rparr>
                 in if txbuf_full u = 0 \<and> u_lsr u AND UART_LSR_TXSERE \<noteq> 0 then uart_sched Uart_tx_send n 0 (u', s)
                    else Inr (u', s))
              else Inr (u', s))
             (uart_clear_int n UART_IIR_THRI)))"

definition uart_write_fcr :: "nat \<Rightarrow> u8 \<Rightarrow> 'z port \<Rightarrow> 'z port outcome" where
  "uart_write_fcr n v us = (case us of (u, s) \<Rightarrow>
     let v' = (if (fifo_len u = 1 \<and> v AND 0x01 \<noteq> 0) \<or> (fifo_len u \<noteq> 1 \<and> v AND 0x01 = 0) then v OR (0x02 OR 0x04) else v);
         u = u\<lparr>u_fcr := v AND 0xc0, fifo_len := (if v' AND 0x01 \<noteq> 0 then 16 else 1)\<rparr>
     in bind_outcome
          (if v' AND 0x04 \<noteq> 0
           then
             (let u = u\<lparr>txbuf_head := 0, txbuf_tail := 0, txbuf_full := 0, u_lsr := u_lsr u OR UART_LSR_TXBUFE\<rparr>
              in bind_outcome (if fifo_len u = 16 then uart_int_thri (u, s) else Inr (u, s))
                   (\<lambda>us. Inr (uart_unsched Uart_tx_send n us)))
           else Inr (u, s)) (\<lambda>(u, s).
           if v' AND 0x02 \<noteq> 0
           then bind_outcome (uart_clear_int n UART_IIR_RDI
                    (u\<lparr>rxbuf_head := 0, rxbuf_tail := 0, rxbuf_full := 0, u_lsr := u_lsr u AND NOT UART_LSR_RDRDY\<rparr>, s))
                  (uart_clear_int n UART_IIR_CTI)
           else Inr (u, s)))"

definition uart_write_lcr :: "nat \<Rightarrow> u8 \<Rightarrow> 'z port \<Rightarrow> 'z port outcome" where
  "uart_write_lcr n v us = (case us of (u, s) \<Rightarrow>
     bind_outcome
       (if u_lcr u AND UART_LCR_SBC \<noteq> v AND UART_LCR_SBC
        then
          bind_outcome
            (if v AND UART_LCR_SBC \<noteq> 0 \<and> u_lsr u AND UART_LSR_TXSERE = 0
             then uart_sched Uart_send_break n 0 (uart_unsched Uart_char_clock n (u, s)) else Inr (u, s)) (\<lambda>us.
             if v AND UART_LCR_SBC = 0 \<and> u_lsr (fst us) AND UART_LSR_TXSERE = 0
             then bind_outcome (uart_sched Uart_tx_send n 0 us) (\<lambda>us. Inr (uart_unsched Uart_char_clock n us)) else Inr us)
        else Inr (u, s)) (\<lambda>(u, s). Inr (u\<lparr>u_lcr := v, u_char_clks := char_clks (u_dll u) (u_dlh u) v\<rparr>, s)))"

definition uart_write_byte :: "nat \<Rightarrow> u32 \<Rightarrow> u8 \<Rightarrow> 'z port \<Rightarrow> 'z port outcome" where
  "uart_write_byte n addr v us = (case us of (u, s) \<Rightarrow>
     if u_lcr u AND UART_LCR_DLAB \<noteq> 0 \<and> addr = 0
     then Inr (u\<lparr>u_dll := v, u_char_clks := char_clks v (u_dlh u) (u_lcr u)\<rparr>, s)
     else if u_lcr u AND UART_LCR_DLAB \<noteq> 0 \<and> addr = 1 then Inr (u\<lparr>u_dlh := v\<rparr>, s)
     else if addr = 0 then uart_write_txbuf n v us
     else if addr = 2 then uart_write_fcr n v us
     else if addr = 1 then uart_next_int (u\<lparr>u_ier := v AND 0x0f\<rparr>, s)
     else if addr = 3 then uart_write_lcr n v us
     else if addr = 4 then uart_loopback (u\<lparr>u_mcr := v AND 0x1f\<rparr>, s)
     else if addr = 7 then Inr (u\<lparr>u_scr := v\<rparr>, s)
     else Inr us)"

definition uart_read_rxbuf :: "nat \<Rightarrow> 'z port \<Rightarrow> (u8 \<times> 'z port) outcome" where
  "uart_read_rxbuf n us = (case us of (u, s) \<Rightarrow>
     if rxbuf_tail u \<ge> length (u_rxbuf u) then Inl Undefined_behaviour
     else
       (let (v, u) = (if rxbuf_full u \<noteq> 0
                      then (ucast (u_rxbuf u ! rxbuf_tail u),
                            u\<lparr>rxbuf_tail := (rxbuf_tail u + 1) mod fifo_len u, rxbuf_full := rxbuf_full u - 1\<rparr>)
                      else (0, u))
        in bind_outcome (uart_clear_int n UART_IIR_RDI (u, s)) (\<lambda>us.
           bind_outcome (uart_clear_int n UART_IIR_CTI us) (\<lambda>(u, s).
           bind_outcome
             (if rxbuf_full u \<noteq> 0
              then
                bind_outcome (uart_sched Uart_int_cti n (u_char_clks u * UART_CHAR_TIMEOUT * UART_CLOCK_DIVIDER)
                   (u\<lparr>u_lsr := u_lsr u OR (UART_LSR_RDRDY OR ucast (drop_bit 8 (u_rxbuf u ! rxbuf_tail u)))\<rparr>, s)) (\<lambda>us.
                bind_outcome (uart_check_rlsi us) uart_check_rdi)
              else Inr (u\<lparr>u_lsr := u_lsr u AND NOT UART_LSR_RDRDY\<rparr>, s)) (\<lambda>us. Inr (v, us))))))"

definition uart_read_byte :: "nat \<Rightarrow> u32 \<Rightarrow> 'z port \<Rightarrow> (u8 \<times> 'z port) outcome" where
  "uart_read_byte n addr us = (case us of (u, s) \<Rightarrow>
     if u_lcr u AND UART_LCR_DLAB \<noteq> 0 \<and> addr = 0 then Inr (u_dll u, us)
     else if u_lcr u AND UART_LCR_DLAB \<noteq> 0 \<and> addr = 1 then Inr (u_dlh u, us)
     else if addr = 0 then uart_read_rxbuf n us
     else if addr = 1 then Inr (u_ier u AND 0x0f, us)
     else if addr = 2
     then bind_outcome (if u_iir u = UART_IIR_THRI then uart_clear_int n UART_IIR_THRI us else Inr us)
            (\<lambda>us. Inr ((u_iir u AND 0x0f) OR 0xc0, us))
     else if addr = 3 then Inr (u_lcr u, us)
     else if addr = 5
     then bind_outcome (uart_clear_int n UART_IIR_RLSI
              (u\<lparr>u_lsr := u_lsr u AND NOT (UART_LSR_OVRRUN OR UART_LSR_BREAK OR UART_LSR_PARITY OR UART_LSR_FRAME OR UART_LSR_RXERR)\<rparr>, s))
            (\<lambda>us. Inr (u_lsr u, us))
     else if addr = 6
     then bind_outcome (bind_outcome (uart_clear_int n UART_IIR_MSI (u\<lparr>u_msr := 0\<rparr>, s)) uart_loopback)
            (\<lambda>us. Inr (u_msr u, us))
     else if addr = 7 then Inr (u_scr u, us)
     else Inr (0, us))"

section \<open>Verification interface\<close>

text \<open>A character of the interface; a mode or rate that does not match marks it as an error.\<close>

definition uart_vapi_data :: "nat \<Rightarrow> u64 \<Rightarrow> 'z port \<Rightarrow> 'z port outcome" where
  "uart_vapi_data n d us = (case us of (u, s) \<Rightarrow>
     let l = ucast (drop_bit 8 d);
         u = u\<lparr>v_lcr := l, u_rxser := ucast (d AND 0xff), v_char_clks := char_clks (v_dll u) (v_dlh u) l\<rparr>;
         u = (if l AND NOT UART_LCR_SBC \<noteq> u_lcr u AND NOT UART_LCR_SBC \<or> v_char_clks u \<noteq> u_char_clks u
                 \<or> v_skew u < -1 \<or> v_skew u > 1
              then u\<lparr>u_rxser := u_rxser u OR push_bit 8 (ucast (UART_LSR_FRAME OR UART_LSR_RXERR))
                        OR (if u_lcr u AND UART_LCR_PARITY \<noteq> 0 then push_bit 8 (ucast UART_LSR_PARITY) else 0)\<rparr>
              else u)
     in if recv_break u then Inr (u, s)
        else uart_sched Uart_recv_char n (u_char_clks u * UART_CLOCK_DIVIDER) (u\<lparr>u_receiving := True\<rparr>, s))"

text \<open>The start of a break; \<open>cmd\<close> is \<^verbatim>\<open>uart_vapi_cmd\<close>, which calls it.\<close>

definition break_start :: "('z port \<Rightarrow> 'z port outcome) \<Rightarrow> nat \<Rightarrow> 'z port \<Rightarrow> 'z port outcome" where
  "break_start cmd n us =
     (let us = uart_unsched Uart_recv_char n ((fst us)\<lparr>u_receiving := False, recv_break := True\<rparr>, snd us)
      in bind_outcome (if u_vapi_id (fst us) \<noteq> 0 \<and> vapi_buf_head (fst us) \<noteq> vapi_buf_tail (fst us) then cmd us else Inr us)
           (\<lambda>us. uart_sched Uart_recv_break n (v_char_clks (fst us) * UART_CLOCK_DIVIDER) us))"

text \<open>The loop over the buffered commands, up to a character; the first argument bounds it.\<close>

primrec vapi_loop :: "nat \<Rightarrow> nat \<Rightarrow> 'z port \<Rightarrow> 'z port outcome" where
  "vapi_loop 0 = (\<lambda>n us. Inl Diverges)"
| "vapi_loop (Suc k) = (\<lambda>n us. case us of (u, s) \<Rightarrow>
     if vapi_buf_head u = vapi_buf_tail u then Inr us
     else
       (let d = vapi_buf u ! vapi_buf_tail u; u = u\<lparr>vapi_buf_tail := (vapi_buf_tail u + 1) mod 128\<rparr>; c = drop_bit 24 d
        in if c = 0 then uart_vapi_data n d (u, s)
           else if c = 1 then vapi_loop k n (u\<lparr>v_dll := ucast d, v_dlh := ucast (drop_bit 8 d)\<rparr>, s)
           else if c = 2 then vapi_loop k n (u\<lparr>v_lcr := ucast (drop_bit 8 d)\<rparr>, s)
           else if c = 3 then vapi_loop k n (u\<lparr>v_skew := sint (ucast d :: u16)\<rparr>, s)
           else if c = 4 then
             bind_outcome
               (if bit d 16
                then if d AND 0xffff = 0 then break_start (vapi_loop k n) n (u, s)
                     else uart_sched Uart_recv_break_start n (unat (d AND 0xffff) * UART_CLOCK_DIVIDER) (u, s)
                else if d AND 0xffff = 0 then Inr (uart_recv_break_stop n (u, s))
                     else uart_sched Uart_recv_break_stop n (unat (d AND 0xffff) * UART_CLOCK_DIVIDER) (u, s))
               (vapi_loop k n)
           else vapi_loop k n (u, s)))"

text \<open>The buffer holds at most 127 commands, and every turn of the loop takes one.\<close>

definition uart_vapi_cmd :: "nat \<Rightarrow> 'z port \<Rightarrow> 'z port outcome" where
  "uart_vapi_cmd n us = vapi_loop 128 n us"

definition uart_recv_break_start :: "nat \<Rightarrow> 'z port \<Rightarrow> 'z port outcome" where
  "uart_recv_break_start n us = break_start (uart_vapi_cmd n) n us"

definition uart_vapi_read :: "nat \<Rightarrow> u64 \<Rightarrow> 'z port \<Rightarrow> 'z port outcome" where
  "uart_vapi_read n d us = (case us of (u, s) \<Rightarrow>
     let u = u\<lparr>vapi_buf := (vapi_buf u)[vapi_buf_head u := d], vapi_buf_head := (vapi_buf_head u + 1) mod 128\<rparr>
     in if vapi_buf_tail u = vapi_buf_head u then Inl Exit_called
        else if u_receiving u then Inr (u, s) else uart_vapi_cmd n (u, s))"

section \<open>Reset and configuration\<close>

text \<open>Reset leaves \<^verbatim>\<open>vapi.dlh\<close> alone.\<close>

definition uart_reset :: "nat \<Rightarrow> 'z port \<Rightarrow> 'z port outcome" where
  "uart_reset n us = (case us of (u, s) \<Rightarrow>
     let u = u\<lparr>fifo_len := (if uart16550 u then 16 else 1), rxbuf_head := 0, rxbuf_tail := 0, txbuf_head := 0, txbuf_tail := 0,
            txbuf_full := 0, rxbuf_full := 0, u_char_clks := 0, u_txser := 0, u_rxser := 0, u_loopback := 0,
            u_receiving := False, recv_break := False, u_ints := 0,
            u_txbuf := replicate 16 0, u_rxbuf := replicate 16 0\<rparr>;
         u = u\<lparr>u_dll := 0, u_dlh := 0, u_ier := 0, u_iir := UART_IIR_NO_INT, u_fcr := 0, u_lcr := 0x03, u_mcr := 0,
            u_lsr := UART_LSR_TXBUFE OR UART_LSR_TXSERE, u_msr := 0, u_scr := 0\<rparr>;
         u = u\<lparr>v_skew := 0, v_lcr := 0, v_dll := 0, v_char_clks := 0, vapi_buf_head := 0, vapi_buf_tail := 0,
            vapi_buf := replicate 128 0\<rparr>
     in uart_sched_recv_check n (u, s))"

definition uart_baseaddr :: "u32 \<Rightarrow> uart \<Rightarrow> uart" where
  "uart_baseaddr v u = u\<lparr>u_baseaddr := v\<rparr>"

definition uart_jitter :: "int \<Rightarrow> uart \<Rightarrow> uart" where
  "uart_jitter v u = u\<lparr>u_jitter := v\<rparr>"

definition uart_irq :: "int \<Rightarrow> uart \<Rightarrow> uart" where
  "uart_irq v u = u\<lparr>u_irq := v\<rparr>"

definition uart_16550 :: "int \<Rightarrow> uart \<Rightarrow> uart" where
  "uart_16550 v u = u\<lparr>uart16550 := v \<noteq> 0\<rparr>"

definition uart_vapi_id :: "int \<Rightarrow> uart \<Rightarrow> uart" where
  "uart_vapi_id v u = u\<lparr>u_vapi_id := of_int v\<rparr>"

definition uart_enabled :: "int \<Rightarrow> uart \<Rightarrow> uart" where
  "uart_enabled v u = u\<lparr>u_enabled := v \<noteq> 0\<rparr>"

text \<open>A section starts from the contents \<open>junk\<close> of a fresh allocation.\<close>

definition uart_sec_start :: "uart \<Rightarrow> uart" where
  "uart_sec_start junk =
     junk\<lparr>u_enabled := True, u_baseaddr := 0, u_irq := 0, uart16550 := False, u_jitter := 0, u_vapi_id := 0\<rparr>"

end
