(* ===== verification/Gpio.thy ===== *)
theory Gpio
  imports Interrupts
begin

text \<open>
  The general purpose I/O port, \<^verbatim>\<open>peripheral/gpio.c\<close>: registers that are written for the next
  clock and read from the current one, the clock that computes outputs and edges, the external clock,
  and the inputs from the verification interface. Registers are \<^verbatim>\<open>unsigned long\<close>; a function
  takes the port and the processor, and \<open>g_vapi_out\<close> holds what was sent to the verification interface.
\<close>

record gpio_regs =
  g_in :: u64
  g_out :: u64
  g_oe :: u64
  g_inte :: u64
  g_ptrig :: u64
  g_aux :: u64
  g_ctrl :: u64
  g_ints :: u64
  g_external_clock :: bool

record gpio =
  g_enabled :: bool
  g_baseaddr :: u32
  g_irq :: int
  g_base_vapi_id :: u64
  g_auxiliary_inputs :: u64
  g_curr :: gpio_regs
  g_next :: gpio_regs
  g_vapi_out :: "(u64 \<times> u64) list"

abbreviation (input) RGPIO_CTRL_ECLK :: u64 where "RGPIO_CTRL_ECLK \<equiv> 1"
abbreviation (input) RGPIO_CTRL_NEC :: u64 where "RGPIO_CTRL_NEC \<equiv> 2"
abbreviation (input) RGPIO_CTRL_INTE :: u64 where "RGPIO_CTRL_INTE \<equiv> 4"
abbreviation (input) RGPIO_CTRL_INTS :: u64 where "RGPIO_CTRL_INTS \<equiv> 8"

abbreviation upd_next :: "(gpio_regs \<Rightarrow> gpio_regs) \<Rightarrow> gpio \<Rightarrow> gpio" where
  "upd_next f g \<equiv> g\<lparr>g_next := f (g_next g)\<rparr>"

section \<open>Registers\<close>

definition gpio_read32 :: "u32 \<Rightarrow> gpio \<Rightarrow> u32" where
  "gpio_read32 addr g =
     (let c = g_curr g
      in ucast (if addr = 0x00 then g_in c OR g_out c
                else if addr = 0x04 then g_out c
                else if addr = 0x08 then g_oe c
                else if addr = 0x0C then g_inte c
                else if addr = 0x10 then g_ptrig c
                else if addr = 0x14 then g_aux c
                else if addr = 0x18 then g_ctrl c
                else if addr = 0x1C then g_ints c
                else 0))"

definition gpio_write32 :: "u32 \<Rightarrow> u32 \<Rightarrow> gpio \<times> 'z machine_scheme \<Rightarrow> (gpio \<times> 'z machine_scheme) outcome" where
  "gpio_write32 addr value gs = (case gs of (g, s) \<Rightarrow>
     let v = ucast value
     in if addr = 0x04 then Inr (upd_next (g_out_update (\<lambda>_. v)) g, s)
        else if addr = 0x08 then Inr (upd_next (g_oe_update (\<lambda>_. v)) g, s)
        else if addr = 0x0C then Inr (upd_next (g_inte_update (\<lambda>_. v)) g, s)
        else if addr = 0x10 then Inr (upd_next (g_ptrig_update (\<lambda>_. v)) g, s)
        else if addr = 0x14 then Inr (upd_next (g_aux_update (\<lambda>_. v)) g, s)
        else if addr = 0x18 then Inr (upd_next (g_ctrl_update (\<lambda>_. v)) g, s)
        else if addr = 0x1C
        then bind_outcome (if g_ints (g_next g) \<noteq> 0 \<and> value = 0 then clear_interrupt (g_irq g) s else Inr s)
               (\<lambda>s. Inr (upd_next (g_ints_update (\<lambda>_. v)) g, s))
        else Inr gs)"

section \<open>Clock\<close>

text \<open>
  The edges on inputs that raise an interrupt. They are computed in \<^verbatim>\<open>unsigned\<close> variables:
  bits above 31 are lost.
\<close>

definition gpio_edges :: "gpio_regs \<Rightarrow> gpio_regs \<Rightarrow> u32" where
  "gpio_edges c x =
     (let changed = ucast (g_in x XOR g_in c);
          set_bits = changed AND ucast (g_in x);
          cleared = changed AND ucast (g_in c)
      in (ucast (g_ptrig x) AND set_bits) OR (NOT (ucast (g_ptrig x)) AND cleared))"

definition gpio_device_clock :: "nat \<Rightarrow> gpio \<times> 'z machine_scheme \<Rightarrow> (gpio \<times> 'z machine_scheme) outcome" where
  "gpio_device_clock n gs = (case gs of (g, s) \<Rightarrow>
     let c = g_curr g;
         x = g_next g;
         x = x\<lparr>g_in := g_in x AND NOT (g_oe x)\<rparr>;
         x = x\<lparr>g_out := (g_out x AND NOT (g_aux x)) OR (g_auxiliary_inputs g AND g_aux x)\<rparr>;
         x = x\<lparr>g_out := g_out x AND g_oe x\<rparr>;
         g = (if g_out x \<noteq> g_out c \<and> g_base_vapi_id g \<noteq> 0
              then g\<lparr>g_vapi_out := g_vapi_out g @ [(g_base_vapi_id g, g_out x)]\<rparr> else g);
         hit = gpio_edges c x AND ucast (g_inte x);
         ring = (g_in x \<noteq> g_in c \<and> g_ctrl x AND RGPIO_CTRL_INTE \<noteq> 0 \<and> hit \<noteq> 0);
         x = (if ring then x\<lparr>g_ctrl := g_ctrl x OR RGPIO_CTRL_INTS, g_ints := g_ints x OR ucast hit\<rparr> else x)
     in bind_outcome (if ring then SCHED_ADD (Gpio_do_int n) 1 s else Inr s)
          (\<lambda>s. Inr (g\<lparr>g_next := x, g_curr := x\<rparr>, s)))"

definition gpio_clock :: "nat \<Rightarrow> gpio \<times> 'z machine_scheme \<Rightarrow> (gpio \<times> 'z machine_scheme) outcome" where
  "gpio_clock n gs =
     bind_outcome (if g_ctrl (g_curr (fst gs)) AND RGPIO_CTRL_ECLK = 0 then gpio_device_clock n gs else Inr gs)
       (\<lambda>(g, s). bind_outcome (SCHED_ADD (Gpio_clock n) 1 s) (\<lambda>s. Inr (g, s)))"

definition gpio_do_int :: "gpio \<times> 'z machine_scheme \<Rightarrow> (gpio \<times> 'z machine_scheme) outcome" where
  "gpio_do_int gs = (case gs of (g, s) \<Rightarrow> bind_outcome (report_interrupt (g_irq g) s) (\<lambda>s. Inr (g, s)))"

definition gpio_external_clock :: "nat \<Rightarrow> u64 \<Rightarrow> gpio \<times> 'z machine_scheme \<Rightarrow> (gpio \<times> 'z machine_scheme) outcome" where
  "gpio_external_clock n value gs = (case gs of (g, s) \<Rightarrow>
     let use_external = (g_ctrl (g_curr g) AND RGPIO_CTRL_ECLK = RGPIO_CTRL_ECLK);
         negative_edge = (g_ctrl (g_curr g) AND RGPIO_CTRL_NEC = RGPIO_CTRL_NEC);
         v = (value \<noteq> 0);
         g = upd_next (g_external_clock_update (\<lambda>_. v)) g
     in if use_external \<and> v \<noteq> g_external_clock (g_curr g) \<and> v \<noteq> negative_edge
           \<and> g_ctrl (g_curr g) AND RGPIO_CTRL_ECLK \<noteq> 0
        then gpio_device_clock n (g, s) else Inr (g, s))"

definition gpio_vapi_read :: "nat \<Rightarrow> u64 \<Rightarrow> u64 \<Rightarrow> gpio \<times> 'z machine_scheme \<Rightarrow> (gpio \<times> 'z machine_scheme) outcome" where
  "gpio_vapi_read n vid v gs = (case gs of (g, s) \<Rightarrow>
     let which = (ucast (vid - g_base_vapi_id g) :: u32)
     in if which = 0 then Inr (upd_next (g_in_update (\<lambda>_. v)) g, s)
        else if which = 1 then Inr (g\<lparr>g_auxiliary_inputs := v\<rparr>, s)
        else if which = 2 then gpio_external_clock n v (g, s)
        else if which = 3 then Inr (upd_next (g_oe_update (\<lambda>_. v)) g, s)
        else if which = 4 then Inr (upd_next (g_inte_update (\<lambda>_. v)) g, s)
        else if which = 5 then Inr (upd_next (g_ptrig_update (\<lambda>_. v)) g, s)
        else if which = 6 then Inr (upd_next (g_aux_update (\<lambda>_. v)) g, s)
        else if which = 7 then Inr (upd_next (g_ctrl_update (\<lambda>_. v)) g, s)
        else Inr gs)"

section \<open>Reset and configuration\<close>

text \<open>Reset starts the clock and leaves the registers as they are.\<close>

definition gpio_reset :: "nat \<Rightarrow> gpio \<times> 'z machine_scheme \<Rightarrow> (gpio \<times> 'z machine_scheme) outcome" where
  "gpio_reset n gs = (case gs of (g, s) \<Rightarrow> bind_outcome (SCHED_ADD (Gpio_clock n) 1 s) (\<lambda>s. Inr (g, s)))"

definition gpio_baseaddr :: "u32 \<Rightarrow> gpio \<Rightarrow> gpio" where
  "gpio_baseaddr v g = g\<lparr>g_baseaddr := v\<rparr>"

definition gpio_irq :: "int \<Rightarrow> gpio \<Rightarrow> gpio" where
  "gpio_irq v g = g\<lparr>g_irq := v\<rparr>"

definition gpio_base_vapi_id :: "int \<Rightarrow> gpio \<Rightarrow> gpio" where
  "gpio_base_vapi_id v g = g\<lparr>g_base_vapi_id := of_int v\<rparr>"

definition gpio_enabled :: "int \<Rightarrow> gpio \<Rightarrow> gpio" where
  "gpio_enabled v g = g\<lparr>g_enabled := v \<noteq> 0\<rparr>"

definition zero_gpio_regs :: gpio_regs where
  "zero_gpio_regs = \<lparr>g_in = 0, g_out = 0, g_oe = 0, g_inte = 0, g_ptrig = 0, g_aux = 0, g_ctrl = 0, g_ints = 0,
     g_external_clock = False\<rparr>"

definition gpio_sec_start :: gpio where
  "gpio_sec_start = \<lparr>g_enabled = True, g_baseaddr = 0, g_irq = 0, g_base_vapi_id = 0, g_auxiliary_inputs = 0,
     g_curr = zero_gpio_regs, g_next = zero_gpio_regs, g_vapi_out = []\<rparr>"

end
