(* ===== verification/Dma.thy ===== *)
theory Dma
  imports Interrupts
begin

text \<open>
  The registers of the DMA controller, \<^verbatim>\<open>peripheral/dma.c\<close>: 31 channels with the bit fields of
  \<^verbatim>\<open>peripheral/dma-defs.h\<close>, their reads and writes, reset and configuration. The transfers, which
  need memory, are in DmaTransfer.thy. Registers are \<^verbatim>\<open>unsigned long\<close>. The number of the controller
  and of the channel stand for the pointer a job carries.
\<close>

record dma_channel =
  ch_mask :: u64
  ch_referenced :: bool
  load_next_descriptor :: bool
  current_descriptor :: u64
  ch_source :: u32
  ch_destination :: u32
  source_mask :: u32
  destination_mask :: u32
  chunk_size :: u64
  total_size :: u64
  words_transferred :: u64
  ch_csr :: u64
  ch_sz :: u64
  ch_a0 :: u64
  ch_am0 :: u64
  ch_a1 :: u64
  ch_am1 :: u64
  ch_desc :: u64
  ch_swptr :: u64
  dma_req_i :: bool
  dma_ack_o :: bool
  dma_nd_i :: bool

record dma =
  d_enabled :: bool
  d_baseaddr :: u32
  d_irq :: int
  d_vapi_id :: int
  d_csr :: u64
  int_msk_a :: u64
  int_msk_b :: u64
  int_src_a :: u64
  int_src_b :: u64
  dma_ch :: "dma_channel list"

section \<open>Fields\<close>

abbreviation (input) CH_EN :: nat where "CH_EN \<equiv> 0"
abbreviation (input) DST_SEL :: nat where "DST_SEL \<equiv> 1"
abbreviation (input) SRC_SEL :: nat where "SRC_SEL \<equiv> 2"
abbreviation (input) INC_DST :: nat where "INC_DST \<equiv> 3"
abbreviation (input) INC_SRC :: nat where "INC_SRC \<equiv> 4"
abbreviation (input) CH_MODE :: nat where "CH_MODE \<equiv> 5"
abbreviation (input) CH_ARS :: nat where "CH_ARS \<equiv> 6"
abbreviation (input) USE_ED :: nat where "USE_ED \<equiv> 7"
abbreviation (input) SZ_WB :: nat where "SZ_WB \<equiv> 8"
abbreviation (input) CH_STOP :: nat where "CH_STOP \<equiv> 9"
abbreviation (input) CH_BUSY :: nat where "CH_BUSY \<equiv> 10"
abbreviation (input) CH_DONE :: nat where "CH_DONE \<equiv> 11"
abbreviation (input) CH_ERR :: nat where "CH_ERR \<equiv> 12"
abbreviation (input) INE_ERR :: nat where "INE_ERR \<equiv> 17"
abbreviation (input) INE_DONE :: nat where "INE_DONE \<equiv> 18"
abbreviation (input) INT_ERR :: nat where "INT_ERR \<equiv> 20"
abbreviation (input) INT_DONE :: nat where "INT_DONE \<equiv> 21"
abbreviation (input) INT_CHUNK_DONE :: nat where "INT_CHUNK_DONE \<equiv> 22"
abbreviation (input) DMA_CH_CSR_WRITE_MASK :: u64 where "DMA_CH_CSR_WRITE_MASK \<equiv> 0x000FE3FF"

text \<open>The flag macros of \<^verbatim>\<open>peripheral/fields.h\<close>.\<close>

abbreviation set_flag :: "nat \<Rightarrow> u64 \<Rightarrow> u64" where
  "set_flag n v \<equiv> v OR push_bit n 1"

abbreviation clear_flag :: "nat \<Rightarrow> u64 \<Rightarrow> u64" where
  "clear_flag n v \<equiv> v AND NOT (push_bit n 1)"

definition assign_flag :: "nat \<Rightarrow> bool \<Rightarrow> u64 \<Rightarrow> u64" where
  "assign_flag n b v = (if b then set_flag n v else clear_flag n v)"

definition get_field :: "nat \<Rightarrow> nat \<Rightarrow> u64 \<Rightarrow> u64" where
  "get_field off width v = drop_bit off v AND mask width"

definition set_field :: "nat \<Rightarrow> nat \<Rightarrow> u64 \<Rightarrow> u64 \<Rightarrow> u64" where
  "set_field off width x v = (v AND NOT (push_bit off (mask width))) OR push_bit off x"

section \<open>Registers\<close>

definition upd_ch :: "nat \<Rightarrow> (dma_channel \<Rightarrow> dma_channel) \<Rightarrow> dma \<Rightarrow> dma" where
  "upd_ch c f d = d\<lparr>dma_ch := (dma_ch d)[c := f (dma_ch d ! c)]\<rparr>"

text \<open>Reading the status of a channel clears its interrupt and error flags.\<close>

definition dma_read_ch_csr :: "dma_channel \<Rightarrow> u64 \<times> dma_channel" where
  "dma_read_ch_csr h =
     (ch_csr h, h\<lparr>ch_csr := clear_flag CH_ERR (clear_flag INT_ERR (clear_flag INT_DONE (clear_flag INT_CHUNK_DONE (ch_csr h))))\<rparr>)"

definition dma_read32 :: "u32 \<Rightarrow> dma \<times> 'z machine_scheme \<Rightarrow> (u32 \<times> dma \<times> 'z machine_scheme) outcome" where
  "dma_read32 addr ds = (case ds of (d, s) \<Rightarrow>
     if addr < 0x20
     then
       (if addr = 0x00 then Inr (ucast (d_csr d), ds)
        else if addr = 0x04 then Inr (ucast (int_msk_a d), ds)
        else if addr = 0x08 then Inr (ucast (int_msk_b d), ds)
        else if addr = 0x0C
        then bind_outcome (if int_src_a d \<noteq> 0 then clear_interrupt (d_irq d) s else Inr s)
               (\<lambda>s. Inr (ucast (int_src_a d), d\<lparr>int_src_a := 0\<rparr>, s))
        else if addr = 0x10 then Inr (ucast (int_src_b d), ds)
        else Inr (0, ds))
     else
       (let chno = unat ((addr - 0x20) div 0x20); r = (addr - 0x20) mod 0x20
        in if length (dma_ch d) \<le> chno then Inl Undefined_behaviour
           else
             (let h = dma_ch d ! chno
              in if r = 0x00 then (case dma_read_ch_csr h of (v, h) \<Rightarrow> Inr (ucast v, upd_ch chno (\<lambda>_. h) d, s))
                 else if r = 0x04 then Inr (ucast (ch_sz h), ds)
                 else if r = 0x08 then Inr (ucast (ch_a0 h), ds)
                 else if r = 0x0C then Inr (ucast (ch_am0 h), ds)
                 else if r = 0x10 then Inr (ucast (ch_a1 h), ds)
                 else if r = 0x14 then Inr (ucast (ch_am1 h), ds)
                 else if r = 0x18 then Inr (ucast (ch_desc h), ds)
                 else if r = 0x1C then Inr (ucast (ch_swptr h), ds)
                 else Inr (0, ds))))"

text \<open>A write that enables a channel starts its clock; one without the enable bit stops it.\<close>

definition dma_write_ch_csr ::
  "nat \<Rightarrow> nat \<Rightarrow> u64 \<Rightarrow> dma \<times> 'z machine_scheme \<Rightarrow> (dma \<times> 'z machine_scheme) outcome" where
  "dma_write_ch_csr k c value ds = (case ds of (d, s) \<Rightarrow>
     bind_outcome
       (if \<not> bit (ch_csr (dma_ch d ! c)) CH_EN \<and> bit value CH_EN then SCHED_ADD (Dma_channel_clock k c) 1 s
        else if \<not> bit value CH_EN then Inr (SCHED_FIND_REMOVE (Dma_channel_clock k c) s)
        else Inr s)
       (\<lambda>s. Inr (upd_ch c (\<lambda>h. h\<lparr>ch_csr := (ch_csr h AND NOT DMA_CH_CSR_WRITE_MASK) OR (value AND DMA_CH_CSR_WRITE_MASK)\<rparr>) d, s)))"

definition dma_write32 ::
  "nat \<Rightarrow> u32 \<Rightarrow> u32 \<Rightarrow> dma \<times> 'z machine_scheme \<Rightarrow> (dma \<times> 'z machine_scheme) outcome" where
  "dma_write32 k addr value ds = (case ds of (d, s) \<Rightarrow>
     let v = ucast value
     in if addr < 0x20
        then
          (if addr = 0x04 then Inr (d\<lparr>int_msk_a := v\<rparr>, s)
           else if addr = 0x08 then Inr (d\<lparr>int_msk_b := v\<rparr>, s)
           else if addr = 0x0C then Inr (d\<lparr>int_src_a := v\<rparr>, s)
           else if addr = 0x10 then Inr (d\<lparr>int_src_b := v\<rparr>, s)
           else Inr ds)
        else
          (let chno = unat ((addr - 0x20) div 0x20); r = (addr - 0x20) mod 0x20
           in if length (dma_ch d) \<le> chno then Inl Undefined_behaviour
              else
                (let d = upd_ch chno (ch_referenced_update (\<lambda>_. True)) d
                 in if r = 0x00 then dma_write_ch_csr k chno v (d, s)
                    else if r = 0x04 then Inr (upd_ch chno (ch_sz_update (\<lambda>_. v)) d, s)
                    else if r = 0x08 then Inr (upd_ch chno (ch_a0_update (\<lambda>_. v)) d, s)
                    else if r = 0x0C then Inr (upd_ch chno (ch_am0_update (\<lambda>_. v)) d, s)
                    else if r = 0x10 then Inr (upd_ch chno (ch_a1_update (\<lambda>_. v)) d, s)
                    else if r = 0x14 then Inr (upd_ch chno (ch_am1_update (\<lambda>_. v)) d, s)
                    else if r = 0x18 then Inr (upd_ch chno (ch_desc_update (\<lambda>_. v)) d, s)
                    else if r = 0x1C then Inr (upd_ch chno (ch_swptr_update (\<lambda>_. v)) d, s)
                    else Inr (d, s))))"

section \<open>Reset, configuration and control lines\<close>

definition zero_channel :: dma_channel where
  "zero_channel = \<lparr>ch_mask = 0, ch_referenced = False, load_next_descriptor = False, current_descriptor = 0, ch_source = 0,
     ch_destination = 0, source_mask = 0, destination_mask = 0, chunk_size = 0, total_size = 0, words_transferred = 0,
     ch_csr = 0, ch_sz = 0, ch_a0 = 0, ch_am0 = 0, ch_a1 = 0, ch_am1 = 0, ch_desc = 0, ch_swptr = 0,
     dma_req_i = False, dma_ack_o = False, dma_nd_i = False\<rparr>"

definition dma_reset :: "dma \<Rightarrow> dma" where
  "dma_reset d = d\<lparr>d_csr := 0, int_msk_a := 0, int_msk_b := 0, int_src_a := 0, int_src_b := 0,
     dma_ch := map (\<lambda>n. zero_channel\<lparr>ch_mask := push_bit n 1, ch_am0 := 0xFFFFFFFC, ch_am1 := 0xFFFFFFFC\<rparr>) [0..<31]\<rparr>"

definition dma_baseaddr :: "u32 \<Rightarrow> dma \<Rightarrow> dma" where
  "dma_baseaddr v d = d\<lparr>d_baseaddr := v\<rparr>"

definition dma_irq :: "int \<Rightarrow> dma \<Rightarrow> dma" where
  "dma_irq v d = d\<lparr>d_irq := v\<rparr>"

definition dma_vapi_id :: "int \<Rightarrow> dma \<Rightarrow> dma" where
  "dma_vapi_id v d = d\<lparr>d_vapi_id := v\<rparr>"

definition dma_enabled :: "int \<Rightarrow> dma \<Rightarrow> dma" where
  "dma_enabled v d = d\<lparr>d_enabled := v \<noteq> 0\<rparr>"

definition dma_sec_start :: "dma \<Rightarrow> dma" where
  "dma_sec_start junk = junk\<lparr>d_enabled := True, d_baseaddr := 0, d_irq := 0, d_vapi_id := 0\<rparr>"

definition set_dma_req_i :: "dma_channel \<Rightarrow> dma_channel" where
  "set_dma_req_i h = h\<lparr>dma_req_i := True\<rparr>"

definition clear_dma_req_i :: "dma_channel \<Rightarrow> dma_channel" where
  "clear_dma_req_i h = h\<lparr>dma_req_i := False\<rparr>"

definition set_dma_nd_i :: "dma_channel \<Rightarrow> dma_channel" where
  "set_dma_nd_i h = h\<lparr>dma_nd_i := True\<rparr>"

definition clear_dma_nd_i :: "dma_channel \<Rightarrow> dma_channel" where
  "clear_dma_nd_i h = h\<lparr>dma_nd_i := False\<rparr>"

definition check_dma_ack_o :: "dma_channel \<Rightarrow> bool" where
  "check_dma_ack_o h = dma_ack_o h"

end
