(* ===== verification/Board.thy ===== *)
theory Board
  imports Uart Gpio Dma Mmu
begin

text \<open>
  The state outside the processor core: the memory areas of \<^verbatim>\<open>cpu/common/abstract.c\<close>, the
  memory blocks of \<^verbatim>\<open>peripheral/memory.c\<close>, the caches of \<^verbatim>\<open>cache/\<close>, the memory
  controllers of \<^verbatim>\<open>peripheral/mc.c\<close> and the peripherals, as an extension of the processor record. Pointers to
  areas, blocks, devices and list nodes are indices into the list of what was allocated, in
  order of allocation; a function pointer is a constructor for each function that can be installed,
  with its \<^verbatim>\<open>dat\<close> argument. Blocks are lists of bytes in host order, and an access outside of
  one is undefined. Log files are not modelled.
\<close>

section \<open>Memory areas\<close>

text \<open>
  The functions installed for reading and for writing; one constructor stands for the 32, 16 and 8
  bit versions of a function, which differ in the slot they are installed in.
\<close>

datatype read_fn = Simmem_read nat | Simmem_read_zero | Eval_mem_inv | Eval_mem_inv_direct
  | Mc_read_word nat | Uart_read nat | Gpio_read nat | Dma_read nat
datatype write_fn = Simmem_write nat | Simmem_write_null | Set_mem_inv | Set_mem_inv_direct
  | Mc_write_word nat | Uart_write nat | Gpio_write nat | Dma_write nat

record mem_ops =
  readfunc32 :: "read_fn option"
  readfunc16 :: "read_fn option"
  readfunc8 :: "read_fn option"
  writefunc32 :: "write_fn option"
  writefunc16 :: "write_fn option"
  writefunc8 :: "write_fn option"
  writeprog32 :: "write_fn option"
  writeprog8 :: "write_fn option"
  delayr :: int
  delayw :: int

record dev_memarea =
  addr_mask :: u32
  addr_compare :: u32
  area_size :: u32
  size_mask :: u32
  area_valid :: bool
  ops :: mem_ops
  direct_ops :: mem_ops

section \<open>Caches\<close>

text \<open>The \<^verbatim>\<open>dc\<close> part of the configuration, one way of a set, and \<^verbatim>\<open>struct ic\<close>.\<close>

record dc_config =
  dc_enable :: bool
  dc_ways :: nat
  dc_sets :: nat
  dc_block :: nat
  dc_states :: int
  dc_store_miss :: int
  dc_store_hit :: int
  dc_load_miss :: int
  dc_load_hit :: int

record dc_way =
  dc_line :: "nat \<Rightarrow> u32"
  dc_tag :: u32
  dc_lru :: int

record ic =
  ic_mem :: "u8 list"
  ic_lrus :: "nat \<Rightarrow> nat"
  ic_tags :: "nat \<Rightarrow> u32"
  ic_enable :: bool
  ic_ways :: nat
  ic_sets :: nat
  ic_block :: nat
  ic_states :: nat
  ic_miss :: int
  ic_hit :: int
  ic_block_log2 :: nat
  ic_set_mask :: u32
  ic_tag_mask :: u32
  ic_last_way :: nat
  ic_offset_mask :: u32
  ic_block_mask :: u32
  ic_reload :: nat

section \<open>Memory controllers\<close>

record mc_area =
  ma_mem :: nat
  ma_cs :: u32
  ma_mc :: int
  ma_next :: "nat option"

record mc =
  csr :: u32
  poc :: u32
  ba_mask :: u32
  csc :: "nat \<Rightarrow> u32"
  tms :: "nat \<Rightarrow> u32"
  mc_base :: u32
  mc_enable :: bool
  mc_idx :: int
  mc_own :: "nat option"

section \<open>The board\<close>

text \<open>
  \<^verbatim>\<open>words_bigendian\<close> is the build setting \<^verbatim>\<open>WORDS_BIGENDIAN\<close> of the host.
\<close>

record board = machine +
  words_bigendian :: bool
  dev_list :: "dev_memarea list"
  cur_area :: "nat option"
  mc_dev_area :: "nat option"
  cur_vadd :: u32
  blocks :: "u8 list list"
  dcfg :: dc_config
  dcache :: "nat \<Rightarrow> nat \<Rightarrow> dc_way"
  ic_state :: "ic option"
  mcs :: "mc list"
  mc_nodes :: "mc_area list"
  mc_areas :: "nat option"
  uarts :: "uart list"
  gpios :: "gpio list"
  dmas :: "dma list"

definition no_ops :: mem_ops where
  "no_ops = \<lparr>readfunc32 = None, readfunc16 = None, readfunc8 = None, writefunc32 = None,
     writefunc16 = None, writefunc8 = None, writeprog32 = None, writeprog8 = None,
     delayr = 0, delayw = 0\<rparr>"

definition default_dc :: dc_config where
  "default_dc = \<lparr>dc_enable = False, dc_ways = 1, dc_sets = 1, dc_block = 1, dc_states = 2,
     dc_store_miss = 0, dc_store_hit = 0, dc_load_miss = 2, dc_load_hit = 2\<rparr>"

definition zero_board :: board where
  "zero_board = machine.extend zero_machine
     \<lparr>words_bigendian = False, dev_list = [], cur_area = None, mc_dev_area = None, cur_vadd = 0,
      blocks = [], dcfg = default_dc, dcache = (\<lambda>_ _. \<lparr>dc_line = (\<lambda>_. 0), dc_tag = 0, dc_lru = 0\<rparr>),
      ic_state = None, mcs = [], mc_nodes = [], mc_areas = None, uarts = [], gpios = [], dmas = []\<rparr>"

end
