(* ===== verification/Areas.thy ===== *)
theory Areas
  imports Board
begin

text \<open>
  Memory areas, \<^verbatim>\<open>cpu/common/abstract.c\<close>: registration with the overlap test, and the lookup
  with its one-entry cache \<^verbatim>\<open>cur_area\<close> and the priority of the memory controller's own area.
\<close>

section \<open>Registration\<close>

text \<open>The loop of \<^verbatim>\<open>bit_mask\<close>; a shift by 32 is undefined.\<close>

function bit_mask_loop :: "nat \<Rightarrow> u32 \<Rightarrow> u32 outcome" where
  "bit_mask_loop i data =
     (if 32 \<le> i then Inl Undefined_behaviour
      else if drop_bit i data \<noteq> 0 then bit_mask_loop (Suc i) (data OR push_bit i 1)
      else Inr data)"
  by auto

termination bit_mask_loop
  by (relation "measure (\<lambda>(i, _). 32 - i)") auto

declare bit_mask_loop.simps [simp del]

definition bit_mask :: "u32 \<Rightarrow> u32 outcome" where
  "bit_mask data = bit_mask_loop 0 (data - 1)"

text \<open>The test of the new area against a registered one; sums wrap at 32 bits.\<close>

definition areas_overlap :: "u32 \<Rightarrow> u32 \<Rightarrow> dev_memarea \<Rightarrow> bool" where
  "areas_overlap cmp sz p \<longleftrightarrow>
     (cmp \<ge> addr_compare p \<and> cmp < addr_compare p + area_size p)
     \<or> (cmp + sz > addr_compare p \<and> cmp < addr_compare p + area_size p)"

definition register_memoryarea_mask ::
  "u32 \<Rightarrow> u32 \<Rightarrow> u32 \<Rightarrow> bool \<Rightarrow> 'z board_scheme \<Rightarrow> (nat \<times> 'z board_scheme) outcome" where
  "register_memoryarea_mask mask_addr cmp sz mc_dev s =
     bind_outcome (bit_mask sz) (\<lambda>sm.
       let cmp = cmp AND mask_addr
       in if list_ex (areas_overlap cmp sz) (dev_list s) then Inl Exit_called
          else
            (let i = length (dev_list s);
                 s = s\<lparr>dev_list := dev_list s @
                        [\<lparr>addr_mask = mask_addr, addr_compare = cmp, area_size = sz,
                          size_mask = sm, area_valid = True, ops = no_ops, direct_ops = no_ops\<rparr>],
                       cur_area := Some i\<rparr>
             in Inr (i, if mc_dev then s\<lparr>mc_dev_area := Some i\<rparr> else s)))"

text \<open>The functions a device leaves out are replaced by ones that report the access.\<close>

definition or_else :: "'a option \<Rightarrow> 'a \<Rightarrow> 'a option" where
  "or_else f g = (case f of None \<Rightarrow> Some g | Some h \<Rightarrow> Some h)"

definition installed_ops :: "mem_ops \<Rightarrow> mem_ops" where
  "installed_ops f =
     (let f = f\<lparr>readfunc32 := or_else (readfunc32 f) Eval_mem_inv,
               readfunc16 := or_else (readfunc16 f) Eval_mem_inv,
               readfunc8 := or_else (readfunc8 f) Eval_mem_inv,
               writefunc32 := or_else (writefunc32 f) Set_mem_inv,
               writefunc16 := or_else (writefunc16 f) Set_mem_inv,
               writefunc8 := or_else (writefunc8 f) Set_mem_inv\<rparr>;
          f = (if writeprog8 f = None then f\<lparr>writeprog8 := writefunc8 f\<rparr> else f)
      in if writeprog32 f = None then f\<lparr>writeprog32 := writefunc32 f\<rparr> else f)"

definition installed_direct :: "mem_ops \<Rightarrow> mem_ops" where
  "installed_direct f =
     f\<lparr>readfunc32 := or_else (readfunc32 f) Eval_mem_inv_direct,
       readfunc16 := or_else (readfunc16 f) Eval_mem_inv_direct,
       readfunc8 := or_else (readfunc8 f) Eval_mem_inv_direct,
       writefunc32 := or_else (writefunc32 f) Set_mem_inv_direct,
       writefunc16 := or_else (writefunc16 f) Set_mem_inv_direct,
       writefunc8 := or_else (writefunc8 f) Set_mem_inv_direct\<rparr>"

definition upd_area :: "nat \<Rightarrow> (dev_memarea \<Rightarrow> dev_memarea) \<Rightarrow> 'z board_scheme \<Rightarrow> 'z board_scheme" where
  "upd_area i f s = s\<lparr>dev_list := (dev_list s)[i := f (dev_list s ! i)]\<rparr>"

definition reg_mem_area ::
  "u32 \<Rightarrow> u32 \<Rightarrow> bool \<Rightarrow> mem_ops \<Rightarrow> 'z board_scheme \<Rightarrow> (nat \<times> 'z board_scheme) outcome" where
  "reg_mem_area addr sz mc_dev f s =
     bind_outcome (bit_mask sz) (\<lambda>sm.
       bind_outcome (register_memoryarea_mask (NOT sm) (addr AND NOT sm) (sm + 1) mc_dev s) (\<lambda>(i, s).
         Inr (i, upd_area i (\<lambda>a. a\<lparr>ops := installed_ops f, direct_ops := installed_direct f\<rparr>) s)))"

section \<open>Lookup\<close>

definition in_area :: "u32 \<Rightarrow> dev_memarea \<Rightarrow> bool" where
  "in_area addr a \<longleftrightarrow> addr AND addr_mask a = addr_compare a AND addr_mask a"

text \<open>The walk over \<^verbatim>\<open>dev_list\<close>: the first valid area that holds the address.\<close>

fun find_area :: "u32 \<Rightarrow> nat \<Rightarrow> dev_memarea list \<Rightarrow> nat option" where
  "find_area addr i [] = None"
| "find_area addr i (a # as) =
     (if in_area addr a \<and> area_valid a then Some i else find_area addr (Suc i) as)"

definition cached_in :: "u32 \<Rightarrow> nat option \<Rightarrow> 'z board_scheme \<Rightarrow> bool" where
  "cached_in addr c s = (case c of None \<Rightarrow> False | Some i \<Rightarrow> in_area addr (dev_list s ! i))"

definition verify_memoryarea :: "u32 \<Rightarrow> 'z board_scheme \<Rightarrow> nat option \<times> 'z board_scheme" where
  "verify_memoryarea addr s =
     (if cached_in addr (mc_dev_area s) s then (mc_dev_area s, s\<lparr>cur_area := mc_dev_area s\<rparr>)
      else if cached_in addr (cur_area s) s then (cur_area s, s)
      else (let r = find_area addr 0 (dev_list s) in (r, s\<lparr>cur_area := r\<rparr>)))"

definition set_mem_valid :: "nat \<Rightarrow> bool \<Rightarrow> 'z board_scheme \<Rightarrow> 'z board_scheme" where
  "set_mem_valid i v s = upd_area i (\<lambda>a. a\<lparr>area_valid := v\<rparr>) s"

definition adjust_rw_delay :: "nat \<Rightarrow> int \<Rightarrow> int \<Rightarrow> 'z board_scheme \<Rightarrow> 'z board_scheme" where
  "adjust_rw_delay i r w s = upd_area i (\<lambda>a. a\<lparr>ops := (ops a)\<lparr>delayr := r, delayw := w\<rparr>\<rparr>) s"

section \<open>Lemmas\<close>

lemma or_mask_absorb:
  fixes d :: u32
  assumes "drop_bit i d = 0"
  shows "d OR mask i = mask i"
proof (rule bit_word_eqI)
  fix j assume j: "j < LENGTH(32)"
  have "\<not> bit d j \<or> j < i"
  proof -
    have "i \<le> j \<Longrightarrow> bit (drop_bit i d) (j - i) = bit d j" by (simp add: bit_drop_bit_eq)
    with assms show ?thesis by (cases "i \<le> j") auto
  qed
  with j show "bit (d OR mask i) j = bit (mask i :: u32) j" by (auto simp: bit_simps)
qed

lemma bit_mask_loop_result:
  assumes "unat d < 2 ^ 31" "i \<le> 31" "\<And>j. j < i \<Longrightarrow> 2 ^ j \<le> unat d"
  shows "\<exists>k\<le>31. bit_mask_loop i (d OR mask i) = Inr (mask k) \<and> unat d < 2 ^ k \<and> (\<forall>j<k. 2 ^ j \<le> unat d)"
  using assms(2,3)
proof (induction "31 - i" arbitrary: i)
  case 0
  then have i: "i = 31" by simp
  have "drop_bit 31 d = 0" using assms(1) by (simp add: word_unat_eq_iff unat_drop_bit)
  then have "d OR mask 31 = mask 31" by (rule or_mask_absorb)
  moreover have "drop_bit 31 (mask 31 :: u32) = 0" by (simp add: mask_eq_exp_minus_1)
  ultimately show ?case
    using 0 assms(1) unfolding i by (intro exI[of _ 31]) (simp add: bit_mask_loop.simps[of 31])
next
  case (Suc n)
  then have i: "i < 31" by simp
  have drop: "drop_bit i (d OR mask i) = drop_bit i d" by (rule bit_word_eqI) (auto simp: bit_simps)
  show ?case
  proof (cases "drop_bit i d = 0")
    case True
    have "d OR mask i = mask i" using True by (rule or_mask_absorb)
    moreover have "unat d < 2 ^ i"
      using True by (metis div_eq_0_iff nat_zero_less_power_iff unat_0 unat_drop_bit power_eq_0_iff zero_neq_numeral)
    ultimately show ?thesis
      using i Suc.prems(2) True drop by (intro exI[of _ i]) (simp add: bit_mask_loop.simps[of i])
  next
    case False
    have step: "(d OR mask i) OR push_bit i 1 = d OR mask (Suc i)"
      by (rule bit_word_eqI) (auto simp: bit_simps bit_1_iff)
    have "2 ^ i \<le> unat d"
      using False by (metis div_less unat_drop_bit not_le unat_0 word_unat_eq_iff)
    then have "2 ^ j \<le> unat d" if "j < Suc i" for j using Suc.prems(2) that less_Suc_eq by auto
    with Suc.hyps i have "\<exists>k\<le>31. bit_mask_loop (Suc i) (d OR mask (Suc i)) = Inr (mask k)
        \<and> unat d < 2 ^ k \<and> (\<forall>j<k. 2 ^ j \<le> unat d)" by simp
    then show ?thesis
      using i False drop step by (simp add: bit_mask_loop.simps[of i] flip: or.assoc)
  qed
qed

text \<open>A size above 2^31, and size 0, end in the undefined shift.\<close>

lemma bit_mask_loop_top:
  assumes "bit d 31" "i \<le> 32"
  shows "bit_mask_loop i d = Inl Undefined_behaviour"
  using assms
proof (induction "32 - i" arbitrary: i d)
  case 0
  then have "i = 32" by simp
  then show ?case by (simp add: bit_mask_loop.simps[of 32])
next
  case (Suc n)
  then have i: "i < 32" by simp
  have "bit (drop_bit i d) (31 - i)" using i Suc.prems(1) by (simp add: bit_drop_bit_eq)
  then have "drop_bit i d \<noteq> 0" by auto
  moreover have "bit (d OR push_bit i 1) 31" using Suc.prems(1) by (simp add: bit_or_iff)
  ultimately show ?case
    using Suc.hyps i by (simp add: bit_mask_loop.simps[of i])
qed

lemma bit_mask_size:
  assumes "bit_mask sz = Inr m"
  shows "unat (sz - 1) < 2 ^ 31"
proof (rule ccontr)
  assume "\<not> unat (sz - 1) < 2 ^ 31"
  moreover have "unat (sz - 1) < 2 ^ 32" using unsigned_less[of "sz - 1", where 'a = nat] by simp
  ultimately have "unat (sz - 1) div 2 ^ 31 = 1" by (intro div_nat_eqI) simp_all
  then have "bit (unat (sz - 1)) 31" by (simp add: bit_iff_odd)
  then have "bit (sz - 1) 31" by (simp add: bit_unsigned_iff)
  with assms show False by (simp add: bit_mask_def bit_mask_loop_top)
qed

text \<open>The mask covers the size with the smallest power of two.\<close>

lemma bit_mask_result:
  assumes "unat (sz - 1) < 2 ^ 31"
  obtains k where "k \<le> 31" "bit_mask sz = Inr (mask k)" "unat (sz - 1) < 2 ^ k"
    "\<And>j. j < k \<Longrightarrow> 2 ^ j \<le> unat (sz - 1)"
  using bit_mask_loop_result[OF assms, of 0] unfolding bit_mask_def by auto

section \<open>Areas as address ranges\<close>

text \<open>An area is an aligned power of two that does not reach the end of the address space.\<close>

definition area_ok :: "dev_memarea \<Rightarrow> bool" where
  "area_ok a \<longleftrightarrow> area_valid a \<and> (\<exists>k\<le>31. size_mask a = mask k \<and> addr_mask a = NOT (mask k)
     \<and> area_size a = 2 ^ k \<and> 2 ^ k dvd unat (addr_compare a) \<and> unat (addr_compare a) + 2 ^ k < 2 ^ 32)"

definition area_range :: "dev_memarea \<Rightarrow> nat set" where
  "area_range a = {unat (addr_compare a) ..< unat (addr_compare a) + unat (area_size a)}"

lemma unat_power: "k \<le> 31 \<Longrightarrow> unat (2 ^ k :: u32) = 2 ^ k"
proof -
  assume "k \<le> 31"
  then have "(2::nat) ^ k < 2 ^ LENGTH(32)" by (intro power_strict_increasing) simp_all
  then have "unat (of_nat (2 ^ k) :: u32) = 2 ^ k" by (simp only: unat_of_nat mod_less)
  then show ?thesis by simp
qed

lemma and_not_mask_iff:
  fixes a b :: u32
  shows "a AND NOT (mask k) = b AND NOT (mask k) \<longleftrightarrow> unat a div 2 ^ k = unat b div 2 ^ k"
proof -
  have "a AND NOT (mask k) = b AND NOT (mask k) \<longleftrightarrow> drop_bit k a = drop_bit k b"
  proof
    assume *: "a AND NOT (mask k) = b AND NOT (mask k)"
    have "bit a (k + n) = bit b (k + n)" for n
    proof -
      have "bit (a AND NOT (mask k)) (k + n) = bit (b AND NOT (mask k)) (k + n)" using * by simp
      then show ?thesis by (auto simp: bit_simps dest: bit_imp_le_length)
    qed
    then show "drop_bit k a = drop_bit k b" by (simp add: bit_eq_iff bit_simps)
  next
    assume *: "drop_bit k a = drop_bit k b"
    have "bit a n = bit b n" if "k \<le> n" for n
      using arg_cong[OF *, of "\<lambda>w. bit w (n - k)"] that by (simp add: bit_simps)
    then show "a AND NOT (mask k) = b AND NOT (mask k)" by (auto simp: bit_eq_iff bit_simps not_less)
  qed
  then show ?thesis by (simp add: word_unat_eq_iff unat_drop_bit)
qed

lemma div_aligned_iff:
  fixes a c :: nat
  assumes "0 < n" "n dvd c"
  shows "a div n = c div n \<longleftrightarrow> c \<le> a \<and> a < c + n"
proof
  assume "a div n = c div n"
  with assms show "c \<le> a \<and> a < c + n"
    by (metis add.commute add_less_cancel_left div_mult_mod_eq dvd_div_mult_self le_add1 mod_less_divisor)
next
  assume "c \<le> a \<and> a < c + n"
  then obtain d where "a = c + d" "d < n" using less_diff_conv2 nat_le_iff_add by auto
  with assms show "a div n = c div n" by (auto elim!: dvdE)
qed

lemma in_area_range:
  assumes "area_ok a"
  shows "in_area addr a \<longleftrightarrow> unat addr \<in> area_range a"
proof -
  from assms obtain k where k: "k \<le> 31" "addr_mask a = NOT (mask k)" "area_size a = 2 ^ k"
    "2 ^ k dvd unat (addr_compare a)" unfolding area_ok_def by blast
  then have "unat (area_size a) = 2 ^ k" by (simp add: unat_power)
  with div_aligned_iff[OF _ k(4), of "unat addr"] show ?thesis
    unfolding in_area_def k(2) and_not_mask_iff area_range_def by simp
qed

lemma area_end:
  "area_ok a \<Longrightarrow> unat (addr_compare a + area_size a) = unat (addr_compare a) + unat (area_size a)"
  unfolding area_ok_def by (auto simp: unat_word_ariths unat_power)

lemma not_overlap_disjoint:
  assumes "area_ok a" "area_ok b" "\<not> areas_overlap (addr_compare a) (area_size a) b"
  shows "area_range a \<inter> area_range b = {}"
  using assms(3) area_end[OF assms(1)] area_end[OF assms(2)]
  unfolding areas_overlap_def area_range_def word_less_nat_alt word_le_nat_alt by auto

text \<open>What registration keeps.\<close>

definition areas_inv :: "'z board_scheme \<Rightarrow> bool" where
  "areas_inv s \<longleftrightarrow> (\<forall>a \<in> set (dev_list s). area_ok a)
     \<and> (\<forall>i j. i < j \<and> j < length (dev_list s) \<longrightarrow> area_range (dev_list s ! i) \<inter> area_range (dev_list s ! j) = {})
     \<and> (\<forall>i. cur_area s = Some i \<longrightarrow> i < length (dev_list s))
     \<and> (\<forall>i. mc_dev_area s = Some i \<longrightarrow> i < length (dev_list s))"

lemma areas_unique:
  assumes "areas_inv s" "i < length (dev_list s)" "j < length (dev_list s)"
    "in_area addr (dev_list s ! i)" "in_area addr (dev_list s ! j)"
  shows "i = j"
proof -
  have "unat addr \<in> area_range (dev_list s ! i)" "unat addr \<in> area_range (dev_list s ! j)"
    using assms in_area_range unfolding areas_inv_def by auto
  with assms(1-3) show ?thesis
    unfolding areas_inv_def by (metis disjoint_iff linorder_neqE_nat)
qed

lemma find_area_Some:
  "find_area addr n as = Some i \<longleftrightarrow> (\<exists>k<length as. i = n + k \<and> in_area addr (as ! k) \<and> area_valid (as ! k)
     \<and> (\<forall>j<k. \<not> (in_area addr (as ! j) \<and> area_valid (as ! j))))"
proof (induction "as" arbitrary: n)
  case (Cons a as)
  show ?case
  proof (cases "in_area addr a \<and> area_valid a")
    case True
    then show ?thesis by (force simp: less_Suc_eq_0_disj)
  next
    case False
    then have "(\<exists>k<length (a # as). i = n + k \<and> in_area addr ((a # as) ! k) \<and> area_valid ((a # as) ! k)
         \<and> (\<forall>j<k. \<not> (in_area addr ((a # as) ! j) \<and> area_valid ((a # as) ! j))))
      \<longleftrightarrow> (\<exists>k<length as. i = Suc n + k \<and> in_area addr (as ! k) \<and> area_valid (as ! k)
         \<and> (\<forall>j<k. \<not> (in_area addr (as ! j) \<and> area_valid (as ! j))))"
      by (auto simp: Ex_less_Suc2 All_less_Suc2)
    with False show ?thesis by (auto simp: Cons)
  qed
qed simp

lemma find_area_None:
  "find_area addr n as = None \<longleftrightarrow> (\<forall>a \<in> set as. \<not> (in_area addr a \<and> area_valid a))"
  by (induction "as" arbitrary: n) auto

lemma find_area_hit:
  assumes inv: "areas_inv s" and that: "i < length (dev_list s)" "in_area addr (dev_list s ! i)"
  shows "find_area addr 0 (dev_list s) = Some i"
proof (cases "find_area addr 0 (dev_list s)")
  case None
  moreover have "area_valid (dev_list s ! i)"
    using inv that(1) unfolding areas_inv_def area_ok_def by simp
  ultimately show ?thesis using that by (auto simp: find_area_None dest!: bspec)
next
  case (Some j)
  then have "j < length (dev_list s)" "in_area addr (dev_list s ! j)" by (auto simp: find_area_Some)
  with areas_unique[OF inv _ that(1) _ that(2)] Some show ?thesis by simp
qed

lemma verify_unique:
  assumes inv: "areas_inv s"
  shows "verify_memoryarea addr s = (find_area addr 0 (dev_list s), s\<lparr>cur_area := find_area addr 0 (dev_list s)\<rparr>)"
proof -
  note hit = find_area_hit[OF inv]
  show ?thesis
  proof (cases "cached_in addr (mc_dev_area s) s")
    case True
    then obtain i where "mc_dev_area s = Some i" "in_area addr (dev_list s ! i)"
      by (auto simp: cached_in_def split: option.splits)
    with hit[of i] True inv show ?thesis by (simp add: verify_memoryarea_def areas_inv_def)
  next
    case no_mc: False
    show ?thesis
    proof (cases "cached_in addr (cur_area s) s")
      case True
      then obtain i where "cur_area s = Some i" "in_area addr (dev_list s ! i)"
        by (auto simp: cached_in_def split: option.splits)
      with hit[of i] True no_mc inv show ?thesis by (simp add: verify_memoryarea_def areas_inv_def)
    qed (use no_mc in \<open>simp add: verify_memoryarea_def Let_def\<close>)
  qed
qed

lemma bit_mask_power:
  assumes "k \<le> 31"
  shows "bit_mask (2 ^ k) = Inr (mask k)"
proof -
  have m1: "unat ((2 ^ k :: u32) - 1) = 2 ^ k - 1"
    using unat_power[OF assms] by (simp add: unat_sub_if_size word_size unat_minus_one)
  have "(2::nat) ^ k \<le> 2 ^ 31" using assms by (intro power_increasing) simp_all
  moreover have "(0::nat) < 2 ^ k" by simp
  ultimately have lt: "unat ((2 ^ k :: u32) - 1) < 2 ^ 31" unfolding m1 by linarith
  obtain k' where k': "k' \<le> 31" "bit_mask (2 ^ k) = Inr (mask k')" "unat ((2 ^ k :: u32) - 1) < 2 ^ k'"
    "\<And>j. j < k' \<Longrightarrow> 2 ^ j \<le> unat ((2 ^ k :: u32) - 1)"
    using bit_mask_result[OF lt] by blast
  have "k' = k"
  proof (rule antisym)
    show "k \<le> k'"
    proof (rule ccontr)
      assume "\<not> k \<le> k'"
      then have "(2::nat) ^ k' < 2 ^ k" by simp
      with k'(3) show False unfolding m1 by linarith
    qed
    have "\<not> (2::nat) ^ k \<le> 2 ^ k - 1" by (simp add: not_le)
    then show "k' \<le> k" using k'(4)[of k] m1 not_le by metis
  qed
  with k'(2) show ?thesis by simp
qed

lemma aligned_compare: "2 ^ k dvd unat (addr AND NOT (mask k) :: u32)"
proof -
  have "take_bit k (addr AND NOT (mask k)) = 0" by (rule bit_word_eqI) (auto simp: bit_simps)
  then have "unat (take_bit k (addr AND NOT (mask k))) = 0" by simp
  then have "take_bit k (unat (addr AND NOT (mask k))) = 0" by (simp only: unsigned_take_bit_eq)
  then show ?thesis by (simp only: take_bit_eq_mod mod_0_imp_dvd)
qed

text \<open>The area a registration adds: the smallest aligned power of two that covers the size.\<close>

definition new_area :: "nat \<Rightarrow> u32 \<Rightarrow> mem_ops \<Rightarrow> dev_memarea" where
  "new_area k addr f = \<lparr>addr_mask = NOT (mask k), addr_compare = addr AND NOT (mask k), area_size = 2 ^ k,
     size_mask = mask k, area_valid = True, ops = installed_ops f, direct_ops = installed_direct f\<rparr>"

lemma reg_mem_area_shape:
  assumes reg: "reg_mem_area addr sz mc_dev f s = Inr (i, s')" and sz: "unat (sz - 1) < 2 ^ 31"
  obtains k where "k \<le> 31" "unat sz \<le> 2 ^ k" "i = length (dev_list s)"
    "\<not> list_ex (areas_overlap (addr AND NOT (mask k)) (2 ^ k)) (dev_list s)"
    "s' = s\<lparr>dev_list := dev_list s @ [new_area k addr f], cur_area := Some i,
            mc_dev_area := (if mc_dev then Some i else mc_dev_area s)\<rparr>"
proof -
  obtain k where k: "k \<le> 31" "bit_mask sz = Inr (mask k)" "unat (sz - 1) < 2 ^ k"
    "\<And>j. j < k \<Longrightarrow> 2 ^ j \<le> unat (sz - 1)" using bit_mask_result[OF sz] by blast
  have one: "mask k + 1 = (2 ^ k :: u32)" by (simp add: mask_eq_exp_minus_1)
  have c: "(addr AND NOT (mask k)) AND NOT (mask k) = addr AND NOT (mask k)" by (simp add: and.assoc)
  have "unat sz \<le> 2 ^ k" using k(3) by (cases "sz = 0") (simp_all add: unat_minus_one)
  moreover have "i = length (dev_list s)" "\<not> list_ex (areas_overlap (addr AND NOT (mask k)) (2 ^ k)) (dev_list s)"
    "s' = s\<lparr>dev_list := dev_list s @ [new_area k addr f], cur_area := Some i,
            mc_dev_area := (if mc_dev then Some i else mc_dev_area s)\<rparr>"
    using reg k(2) bit_mask_power[OF k(1)] one c
    by (auto simp: reg_mem_area_def register_memoryarea_mask_def Let_def upd_area_def bind_outcome_eq_Inr
        new_area_def nth_append list_update_append split: if_splits)
  ultimately show thesis using that k(1) by blast
qed

lemma new_area_ok:
  assumes "k \<le> 31" "unat (addr_compare (new_area k addr f)) + 2 ^ k < 2 ^ 32"
  shows "area_ok (new_area k addr f)" "in_area addr (new_area k addr f)"
  using assms aligned_compare[of k addr]
  by (auto simp: area_ok_def new_area_def in_area_def and.assoc intro!: exI[of _ k])

lemma areas_inv_append:
  assumes inv: "areas_inv s" and ok: "area_ok a"
    and no: "\<not> list_ex (areas_overlap (addr_compare a) (area_size a)) (dev_list s)"
    and s': "dev_list s' = dev_list s @ [a]" "cur_area s' = Some (length (dev_list s))"
      "mc_dev_area s' = (if mc_dev then Some (length (dev_list s)) else mc_dev_area s)"
  shows "areas_inv s'"
proof -
  have new: "area_range p \<inter> area_range a = {}" if "p \<in> set (dev_list s)" for p
    using that no inv not_overlap_disjoint[OF ok, of p] by (auto simp: areas_inv_def list_ex_iff)
  show ?thesis
    unfolding areas_inv_def
  proof (intro conjI allI impI ballI)
    fix p assume "p \<in> set (dev_list s')"
    then show "area_ok p" using inv ok unfolding areas_inv_def s'(1) by auto
  next
    fix x y assume "x < y \<and> y < length (dev_list s')"
    then show "area_range (dev_list s' ! x) \<inter> area_range (dev_list s' ! y) = {}"
      using inv new[of "dev_list s ! x"] unfolding areas_inv_def s'(1)
      by (cases "y < length (dev_list s)") (simp_all add: nth_append less_Suc_eq)
  next
    show "x < length (dev_list s')" if "cur_area s' = Some x" for x using that s' by simp
    show "x < length (dev_list s')" if "mc_dev_area s' = Some x" for x
      using that s' inv by (auto simp: areas_inv_def less_Suc_eq split: if_splits)
  qed
qed

lemma reg_mem_area_inv:
  assumes inv: "areas_inv s" and reg: "reg_mem_area addr sz mc_dev f s = Inr (i, s')"
    and top: "unat (addr_compare (dev_list s' ! i)) + unat (area_size (dev_list s' ! i)) < 2 ^ 32"
  shows "areas_inv s'"
proof -
  have sz: "unat (sz - 1) < 2 ^ 31" using reg by (auto simp: reg_mem_area_def bind_outcome_eq_Inr dest: bit_mask_size)
  obtain k where k: "k \<le> 31" "i = length (dev_list s)"
    "\<not> list_ex (areas_overlap (addr AND NOT (mask k)) (2 ^ k)) (dev_list s)"
    "s' = s\<lparr>dev_list := dev_list s @ [new_area k addr f], cur_area := Some i,
            mc_dev_area := (if mc_dev then Some i else mc_dev_area s)\<rparr>"
    using reg_mem_area_shape[OF reg sz] by blast
  have "area_ok (new_area k addr f)"
    using top k(1,2,4) by (intro new_area_ok) (simp_all add: nth_append new_area_def unat_power)
  then show ?thesis by (rule areas_inv_append[OF inv, where mc_dev = mc_dev]) (use k in \<open>simp_all add: new_area_def\<close>)
qed

text \<open>
  Boards reached by registering areas, of any size that is accepted, that do not end at the very end of the
  address space, and by looking up addresses.
\<close>

inductive area_steps :: "'z board_scheme \<Rightarrow> bool" where
  start: "dev_list s = [] \<Longrightarrow> cur_area s = None \<Longrightarrow> mc_dev_area s = None \<Longrightarrow> area_steps s"
| register: "area_steps s \<Longrightarrow> reg_mem_area addr sz mc_dev f s = Inr (i, s') \<Longrightarrow>
    unat (addr_compare (dev_list s' ! i)) + unat (area_size (dev_list s' ! i)) < 2 ^ 32 \<Longrightarrow> area_steps s'"
| lookup: "area_steps s \<Longrightarrow> verify_memoryarea addr s = (r, s') \<Longrightarrow> area_steps s'"

lemma verify_inv:
  assumes "areas_inv s" "verify_memoryarea addr s = (r, s')"
  shows "areas_inv s'"
proof -
  have s': "dev_list s' = dev_list s" "cur_area s' = find_area addr 0 (dev_list s)" "mc_dev_area s' = mc_dev_area s"
    using assms by (auto simp: verify_unique)
  have "i < length (dev_list s)" if "find_area addr 0 (dev_list s) = Some i" for i
    using that by (auto simp: find_area_Some)
  then show ?thesis using assms(1) unfolding areas_inv_def s' by blast
qed

lemma area_steps_inv: "area_steps s \<Longrightarrow> areas_inv s"
proof (induction rule: area_steps.induct)
  case (start s)
  then show ?case by (simp add: areas_inv_def)
next
  case (register s sz addr mc_dev f i s')
  then show ?case using reg_mem_area_inv by blast
next
  case (lookup s addr r s')
  then show ?case using verify_inv by blast
qed

section \<open>Properties\<close>

text \<open>An area that ends at the very end of the address space is not seen: it can be registered twice.\<close>

lemma top_area_twice:
  "list_ex (areas_overlap 0xfffffc00 0x400) [new_area 10 0xfffffc00 f] = False"
  by (simp add: areas_overlap_def new_area_def mask_eq_exp_minus_1)

text \<open>
  C26: registered areas. After any sequence of lookups and of registrations that succeed, of areas that do
  not end at the very end of the address space, where the sum of address and size wraps to 0 and the overlap
  test is blind, the areas are disjoint, a lookup finds an area exactly when one holds the
  address, and what it finds does not depend on the lookup cache \<^verbatim>\<open>cur_area\<close> or on the
  priority of the memory controller; a lookup changes only the cache.
\<close>

theorem verify_memoryarea_exact:
  assumes "area_steps s"
  shows "verify_memoryarea addr s = (find_area addr 0 (dev_list s), s\<lparr>cur_area := find_area addr 0 (dev_list s)\<rparr>)
    \<and> (\<forall>i<length (dev_list s). in_area addr (dev_list s ! i) \<longleftrightarrow> find_area addr 0 (dev_list s) = Some i)
    \<and> (\<forall>i j. i < j \<and> j < length (dev_list s) \<longrightarrow>
          area_range (dev_list s ! i) \<inter> area_range (dev_list s ! j) = {})"
proof -
  have inv: "areas_inv s" using assms by (rule area_steps_inv)
  have "in_area addr (dev_list s ! i) \<longleftrightarrow> find_area addr 0 (dev_list s) = Some i" if "i < length (dev_list s)" for i
  proof
    assume "in_area addr (dev_list s ! i)"
    then show "find_area addr 0 (dev_list s) = Some i" using find_area_hit[OF inv that] by blast
  qed (auto simp: find_area_Some)
  with verify_unique[OF inv] inv show ?thesis unfolding areas_inv_def by blast
qed

text \<open>One area of 1024 bytes at address 0.\<close>

lemma one_area:
  "reg_mem_area 0 1024 False no_ops zero_board = Inr (0, zero_board\<lparr>dev_list :=
     [\<lparr>addr_mask = 0xfffffc00, addr_compare = 0, area_size = 1024, size_mask = 0x3ff, area_valid = True,
       ops = installed_ops no_ops, direct_ops = installed_direct no_ops\<rparr>], cur_area := Some 0\<rparr>)"
  by (simp add: reg_mem_area_def register_memoryarea_mask_def bit_mask_def bit_mask_loop.simps
      zero_board_def machine.defs zero_machine_def upd_area_def Let_def)

theorem verify_memoryarea_exact_witness:
  "\<exists>s. area_steps (s :: board) \<and> fst (verify_memoryarea 0x3ff s) = Some 0 \<and> fst (verify_memoryarea 0x400 s) = None"
proof -
  have "area_steps zero_board"
    by (rule area_steps.start) (simp_all add: zero_board_def machine.defs)
  from area_steps.register[OF this one_area] have *: "area_steps (snd (case reg_mem_area 0 1024 False no_ops zero_board of Inr r \<Rightarrow> r))"
    unfolding one_area by simp
  show ?thesis
    using * verify_memoryarea_exact[OF *, of "0x3ff"] verify_memoryarea_exact[OF *, of "0x400"]
    by (intro exI[of _ "snd (case reg_mem_area 0 1024 False no_ops zero_board of Inr r \<Rightarrow> r)"])
      (simp add: one_area in_area_def)
qed

end
