(* ===== verification/Mc.thy ===== *)
theory Mc
  imports Areas
begin

text \<open>
  The memory controller, \<^verbatim>\<open>peripheral/mc.c\<close>: its registers, the chip selects that move and
  enable memory areas, and the reset, which takes the areas of the controller over from the global
  list \<^verbatim>\<open>mc_areas\<close>. The lists are linked nodes whose \<^verbatim>\<open>next\<close> pointers the reset
  rewrites; a search of a list that visits more nodes than exist is on a cycle and does not end.
\<close>

section \<open>Chip selects\<close>

abbreviation (input) MC_CSC_MEMTYPE_SDRAM :: u32 where "MC_CSC_MEMTYPE_SDRAM \<equiv> 0"
abbreviation (input) MC_CSC_MEMTYPE_SSRAM :: u32 where "MC_CSC_MEMTYPE_SSRAM \<equiv> 1"
abbreviation (input) MC_CSC_MEMTYPE_ASYNC :: u32 where "MC_CSC_MEMTYPE_ASYNC \<equiv> 2"
abbreviation (input) MC_CSC_MEMTYPE_SYNC :: u32 where "MC_CSC_MEMTYPE_SYNC \<equiv> 3"

fun find_cs :: "nat \<Rightarrow> u32 \<Rightarrow> mc_area list \<Rightarrow> nat option \<Rightarrow> nat option outcome" where
  "find_cs _ cs ns None = Inr None"
| "find_cs 0 cs ns (Some n) = Inl Diverges"
| "find_cs (Suc fuel) cs ns (Some n) =
     (if ma_cs (ns ! n) = cs then Inr (Some n) else find_cs fuel cs ns (ma_next (ns ! n)))"

text \<open>
  The conditions on the memory type are those of the source, which joins the field and the mask by
  \<^verbatim>\<open>&&\<close> and compares the mask with the type.
\<close>

definition cs_delays :: "u32 \<Rightarrow> u32 \<Rightarrow> nat \<Rightarrow> 'z board_scheme \<Rightarrow> 'z board_scheme" where
  "cs_delays c t mem s =
     (if drop_bit 1 c \<noteq> 0 \<and> (0x07 :: u32) = MC_CSC_MEMTYPE_ASYNC then
        adjust_rw_delay mem (uint ((t AND 0xff) + (drop_bit 8 t AND 0x0f)))
          (uint ((drop_bit 12 t AND 0x0f) + (drop_bit 16 t AND 0x0f) + (drop_bit 20 t AND 0x3f))) s
      else if drop_bit 1 c \<noteq> 0 \<and> (0x07 :: u32) = MC_CSC_MEMTYPE_SDRAM then
        adjust_rw_delay mem (uint (3 + (drop_bit 4 t AND 0x03))) (uint (3 + (drop_bit 4 t AND 0x03))) s
      else if drop_bit 1 c \<noteq> 0 \<and> (0x07 :: u32) = MC_CSC_MEMTYPE_SSRAM then adjust_rw_delay mem 2 2 s
      else if drop_bit 1 c \<noteq> 0 \<and> (0x07 :: u32) = MC_CSC_MEMTYPE_SYNC then adjust_rw_delay mem 2 2 s
      else s)"

definition set_csc_tms :: "u32 \<Rightarrow> u32 \<Rightarrow> u32 \<Rightarrow> nat \<Rightarrow> 'z board_scheme \<Rightarrow> 'z board_scheme outcome" where
  "set_csc_tms cs c t i s =
     bind_outcome (find_cs (length (mc_nodes s)) cs (mc_nodes s) (mc_own (mcs s ! i))) (\<lambda>r.
       case r of
         None \<Rightarrow> Inr s
       | Some n \<Rightarrow>
           (let mem = ma_mem (mc_nodes s ! n);
                s = upd_area mem (\<lambda>a. a\<lparr>addr_mask := push_bit 22 (ba_mask (mcs s ! i)),
                                        addr_compare := push_bit 22 (drop_bit 16 c)\<rparr>) s;
                s = set_mem_valid mem (drop_bit 0 c AND 1 \<noteq> 0) s
            in Inr (cs_delays c t mem s)))"

section \<open>Registers\<close>

definition upd_mc :: "nat \<Rightarrow> (mc \<Rightarrow> mc) \<Rightarrow> 'z board_scheme \<Rightarrow> 'z board_scheme" where
  "upd_mc i f s = s\<lparr>mcs := (mcs s)[i := f (mcs s ! i)]\<rparr>"

text \<open>All chip selects again, in order.\<close>

definition set_all_cs :: "nat \<Rightarrow> 'z board_scheme \<Rightarrow> 'z board_scheme outcome" where
  "set_all_cs i s =
     fold (\<lambda>cs r. bind_outcome r (\<lambda>s. set_csc_tms (of_nat cs) (csc (mcs s ! i) cs) (tms (mcs s ! i) cs) i s))
       [0..<8] (Inr s)"

definition mc_write_word :: "nat \<Rightarrow> u32 \<Rightarrow> u32 \<Rightarrow> 'z board_scheme \<Rightarrow> 'z board_scheme outcome" where
  "mc_write_word i addr v s =
     (if addr = 0x00 then Inr (upd_mc i (\<lambda>m. m\<lparr>csr := v\<rparr>) s)
      else if addr = 0x04 then Inr s
      else if addr = 0x08 then set_all_cs i (upd_mc i (\<lambda>m. m\<lparr>ba_mask := v AND 0x3ff\<rparr>) s)
      else if addr \<ge> 0x10 \<and> addr \<le> 0x4c then
        (let a = addr - 0x10;
             cs = unat (drop_bit 3 a);
             s = (if drop_bit 2 a AND 1 \<noteq> 0 then upd_mc i (\<lambda>m. m\<lparr>tms := (tms m)(cs := v)\<rparr>) s
                  else upd_mc i (\<lambda>m. m\<lparr>csc := (csc m)(cs := v)\<rparr>) s)
         in set_csc_tms (drop_bit 3 a) (csc (mcs s ! i) cs) (tms (mcs s ! i) cs) i s)
      else Inr s)"

definition mc_read_word :: "nat \<Rightarrow> u32 \<Rightarrow> 'z board_scheme \<Rightarrow> u32" where
  "mc_read_word i addr s =
     (let m = mcs s ! i in
      if addr = 0x00 then csr m
      else if addr = 0x04 then poc m
      else if addr = 0x08 then ba_mask m
      else if addr \<ge> 0x10 \<and> addr \<le> 0x4c then
        (let a = addr - 0x10
         in if drop_bit 2 a AND 1 \<noteq> 0 then tms m (unat (drop_bit 3 a)) else csc m (unat (drop_bit 3 a)))
      else 0)"

section \<open>Reset\<close>

definition set_next :: "nat \<Rightarrow> nat option \<Rightarrow> 'z board_scheme \<Rightarrow> 'z board_scheme" where
  "set_next n p s = s\<lparr>mc_nodes := (mc_nodes s)[n := (mc_nodes s ! n)\<lparr>ma_next := p\<rparr>]\<rparr>"

text \<open>One node of the loop that grabs the areas: the node that follows, and the new state.\<close>

definition grab_node ::
  "nat \<Rightarrow> nat option \<Rightarrow> nat \<Rightarrow> 'z board_scheme \<Rightarrow> nat option \<times> 'z board_scheme" where
  "grab_node cur prev i s =
     (if ma_mc (mc_nodes s ! cur) = mc_idx (mcs s ! i) then
        (let following = ma_next (mc_nodes s ! cur);
             s = (case prev of Some p \<Rightarrow> set_next p following s | None \<Rightarrow> s\<lparr>mc_areas := following\<rparr>);
             tmp = ma_next (mc_nodes s ! cur);
             s = set_next cur (mc_own (mcs s ! i)) s
         in (tmp, upd_mc i (\<lambda>m. m\<lparr>mc_own := Some cur\<rparr>) s))
      else (ma_next (mc_nodes s ! cur), s))"

partial_function (option) grab_areas ::
  "nat option \<Rightarrow> nat option \<Rightarrow> nat \<Rightarrow> 'z board_scheme \<Rightarrow> 'z board_scheme option" where
  "grab_areas cur prev i s =
     (case cur of
        None \<Rightarrow> Some s
      | Some c \<Rightarrow> (case grab_node c prev i s of (nxt, s') \<Rightarrow> grab_areas nxt (Some c) i s'))"

fun invalidate_areas :: "nat \<Rightarrow> nat option \<Rightarrow> 'z board_scheme \<Rightarrow> 'z board_scheme outcome" where
  "invalidate_areas _ None s = Inr s"
| "invalidate_areas 0 (Some n) s = Inl Diverges"
| "invalidate_areas (Suc fuel) (Some n) s =
     invalidate_areas fuel (ma_next (mc_nodes s ! n)) (set_mem_valid (ma_mem (mc_nodes s ! n)) False s)"

definition mc_reset_regs :: "mc \<Rightarrow> mc" where
  "mc_reset_regs m =
     (let c = push_bit 1 (drop_bit 2 (poc m AND 0x0c)) OR push_bit 4 (poc m AND 0x03) OR 1;
          t = (if drop_bit 1 c \<noteq> 0 \<and> (0x07 :: u32) = MC_CSC_MEMTYPE_ASYNC then 0x03ffffff
               else if drop_bit 1 c \<noteq> 0 \<and> (0x07 :: u32) = MC_CSC_MEMTYPE_SDRAM then 0x0fff83ff
               else if drop_bit 1 c \<noteq> 0 \<and> (0x07 :: u32) = MC_CSC_MEMTYPE_SSRAM then 0
               else if drop_bit 1 c \<noteq> 0 \<and> (0x07 :: u32) = MC_CSC_MEMTYPE_SYNC then 0x01ffffff
               else 0)
      in m\<lparr>csr := 0, ba_mask := 0, csc := (\<lambda>_. 0)(0 := c), tms := (\<lambda>_. 0)(0 := t)\<rparr>)"

text \<open>\<open>None\<close> when the loop over \<^verbatim>\<open>mc_areas\<close> does not end.\<close>

definition mc_reset :: "nat \<Rightarrow> 'z board_scheme \<Rightarrow> 'z board_scheme outcome option" where
  "mc_reset i s =
     (let s = upd_mc i mc_reset_regs s in
      case grab_areas (mc_areas s) None i s of
        None \<Rightarrow> None
      | Some s \<Rightarrow>
          Some (bind_outcome (invalidate_areas (length (mc_nodes s)) (mc_own (mcs s ! i)) s) (\<lambda>s.
            set_csc_tms 0 (csc (mcs s ! i) 0) (tms (mcs s ! i) 0) i s)))"

section \<open>Configuration\<close>

definition mc_reg_mem_area :: "nat \<Rightarrow> u32 \<Rightarrow> int \<Rightarrow> 'z board_scheme \<Rightarrow> 'z board_scheme" where
  "mc_reg_mem_area mem cs m s =
     s\<lparr>mc_nodes := mc_nodes s @ [\<lparr>ma_mem = mem, ma_cs = cs, ma_mc = m, ma_next = mc_areas s\<rparr>],
       mc_areas := Some (length (mc_nodes s))\<rparr>"

definition mc_enabled :: "int \<Rightarrow> mc \<Rightarrow> mc" where
  "mc_enabled v m = m\<lparr>mc_enable := (v \<noteq> 0)\<rparr>"

definition mc_baseaddr :: "u32 \<Rightarrow> mc \<Rightarrow> mc" where
  "mc_baseaddr v m = m\<lparr>mc_base := v\<rparr>"

definition mc_poc :: "int \<Rightarrow> mc \<Rightarrow> mc" where
  "mc_poc v m = m\<lparr>poc := of_int v AND 0xf\<rparr>"

definition mc_index :: "int \<Rightarrow> mc \<Rightarrow> mc" where
  "mc_index v m = m\<lparr>mc_idx := v AND 7\<rparr>"

text \<open>Registers not set by \<^verbatim>\<open>mc_sec_start\<close> are whatever \<^verbatim>\<open>malloc\<close> returns: \<open>junk\<close>.\<close>

definition mc_sec_start :: "mc \<Rightarrow> mc" where
  "mc_sec_start junk = junk\<lparr>mc_enable := True, mc_base := 0, poc := 0, mc_idx := 0, mc_own := None\<rparr>"

definition mc_sec_end :: "mc \<Rightarrow> 'z board_scheme \<Rightarrow> 'z board_scheme outcome" where
  "mc_sec_end m s =
     (if \<not> mc_enable m then Inr s
      else
        (let i = length (mcs s);
             s = s\<lparr>mcs := mcs s @ [m]\<rparr>;
             f = no_ops\<lparr>readfunc32 := Some (Mc_read_word i), writefunc32 := Some (Mc_write_word i),
                        delayr := 2, delayw := 2\<rparr>
         in bind_outcome (reg_mem_area (mc_base m) 0x50 True f s) (\<lambda>(_, s). Inr s)))"

section \<open>Properties\<close>

lemma upd_area_fields [simp]:
  "mc_nodes (upd_area i f s) = mc_nodes s" "mcs (upd_area i f s) = mcs s" "mc_areas (upd_area i f s) = mc_areas s"
  "mc_nodes (set_mem_valid i v s) = mc_nodes s" "mcs (set_mem_valid i v s) = mcs s"
  "mc_areas (set_mem_valid i v s) = mc_areas s"
  by (simp_all add: upd_area_def set_mem_valid_def)

text \<open>The conditions on the memory type never hold.\<close>

lemma cs_delays_nothing [simp]: "cs_delays c t mem s = s"
  by (simp add: cs_delays_def)

lemma grab_areas_simps [simp]:
  "grab_areas None prev i s = Some s"
  "grab_areas (Some c) prev i s = (case grab_node c prev i s of (nxt, s') \<Rightarrow> grab_areas nxt (Some c) i s')"
  by (subst grab_areas.simps, simp)+

text \<open>Setting a chip select changes areas only, and none of their functions and delays.\<close>

lemma map_ops_update: "map ops (as[i := (as ! i)\<lparr>addr_mask := x, addr_compare := y, area_valid := z\<rparr>]) = map ops as"
proof (rule nth_equalityI)
  fix j assume "j < length (map ops (as[i := (as ! i)\<lparr>addr_mask := x, addr_compare := y, area_valid := z\<rparr>]))"
  then show "map ops (as[i := (as ! i)\<lparr>addr_mask := x, addr_compare := y, area_valid := z\<rparr>]) ! j = map ops as ! j"
    by (cases "i = j") simp_all
qed simp

lemma mc_reset_regs_fields [simp]:
  "mc_idx (mc_reset_regs m) = mc_idx m" "mc_own (mc_reset_regs m) = mc_own m"
  by (simp_all add: mc_reset_regs_def Let_def)

lemma set_csc_tms_result:
  assumes "find_cs (length (mc_nodes s)) cs (mc_nodes s) (mc_own (mcs s ! i)) = Inr r"
  shows "\<exists>dl. set_csc_tms cs c t i s = Inr (s\<lparr>dev_list := dl\<rparr>) \<and> map ops dl = map ops (dev_list s)"
proof (cases r)
  case None
  then show ?thesis using assms by (intro exI[of _ "dev_list s"]) (simp add: set_csc_tms_def)
next
  case (Some n)
  let ?m = "ma_mem (mc_nodes s ! n)"
  show ?thesis
  proof (cases "?m < length (dev_list s)")
    case True
    then have "set_csc_tms cs c t i s = Inr (s\<lparr>dev_list := (dev_list s)[?m := (dev_list s ! ?m)
        \<lparr>addr_mask := push_bit 22 (ba_mask (mcs s ! i)), addr_compare := push_bit 22 (drop_bit 16 c),
         area_valid := (c AND 1 \<noteq> 0)\<rparr>]\<rparr>)"
      using assms Some by (simp add: set_csc_tms_def Let_def upd_area_def set_mem_valid_def)
    then show ?thesis using map_ops_update by blast
  next
    case False
    then show ?thesis
      using assms Some
      by (intro exI[of _ "dev_list s"])
        (simp add: set_csc_tms_def Let_def upd_area_def set_mem_valid_def list_update_beyond)
  qed
qed

text \<open>
  The reset of a memory controller with three areas. The areas are registered in the order 0, 1
  and 2; the first reset leaves areas 0 and 1 in the controller's list and loses area 2, while the
  global list still points to area 1, which the controller now owns. A second reset makes the
  controller's list a cycle, and the loop that invalidates its areas does not end. No write to a
  chip select changes the delays of an area, whatever the memory type.
\<close>

lemma mc_reset_loses_area:
  "let s = mc_reg_mem_area 2 c2 x (mc_reg_mem_area 1 c1 x (mc_reg_mem_area 0 c0 x
        (zero_board\<lparr>mcs := [m\<lparr>mc_own := None, mc_idx := x\<rparr>], dev_list := [a0, a1, a2]\<rparr>)))
   in \<exists>s'. mc_reset 0 s = Some (Inr s')
      \<and> mc_own (mcs s' ! 0) = Some 0 \<and> ma_next (mc_nodes s' ! 0) = Some 1 \<and> ma_next (mc_nodes s' ! 1) = None
      \<and> mc_areas s' = Some 1 \<and> map ops (dev_list s') = [ops a0, ops a1, ops a2]
      \<and> mc_reset 0 s' = Some (Inl Diverges)"
proof -
  let ?s = "mc_reg_mem_area 2 c2 x (mc_reg_mem_area 1 c1 x (mc_reg_mem_area 0 c0 x
        (zero_board\<lparr>mcs := [m\<lparr>mc_own := None, mc_idx := x\<rparr>], dev_list := [a0, a1, a2]\<rparr>)))"
  let ?n = "[\<lparr>ma_mem = 0, ma_cs = c0, ma_mc = x, ma_next = Some 1\<rparr>,
             \<lparr>ma_mem = 1, ma_cs = c1, ma_mc = x, ma_next = None\<rparr>,
             \<lparr>ma_mem = 2, ma_cs = c2, ma_mc = x, ma_next = Some 0\<rparr>]"
  let ?m = "(mc_reset_regs (m\<lparr>mc_own := None, mc_idx := x\<rparr>))\<lparr>mc_own := Some 0\<rparr>"
  let ?t = "zero_board\<lparr>mcs := [?m], dev_list := [a0\<lparr>area_valid := False\<rparr>, a1\<lparr>area_valid := False\<rparr>, a2],
              mc_nodes := ?n, mc_areas := Some 1\<rparr>"
  have "\<exists>r. find_cs (length (mc_nodes ?t)) 0 (mc_nodes ?t) (mc_own (mcs ?t ! 0)) = Inr r" 
    by (simp add: numeral_eq_Suc)
  then obtain dl where dl: "set_csc_tms 0 (csc ?m 0) (tms ?m 0) 0 ?t = Inr (?t\<lparr>dev_list := dl\<rparr>)"
    "map ops dl = map ops (dev_list ?t)"
    using set_csc_tms_result[of ?t 0 0] by force
  have "mc_reset 0 ?s = Some (set_csc_tms 0 (csc ?m 0) (tms ?m 0) 0 ?t)"
    by (simp add: mc_reset_def mc_reg_mem_area_def zero_board_def machine.defs upd_mc_def
        grab_node_def set_next_def Let_def numeral_eq_Suc set_mem_valid_def upd_area_def)
  moreover have "mc_reset 0 (?t\<lparr>dev_list := dl\<rparr>) = Some (Inl Diverges)"
    by (simp add: mc_reset_def mc_reg_mem_area_def zero_board_def machine.defs upd_mc_def mc_reset_regs_def
        grab_node_def set_next_def Let_def numeral_eq_Suc set_mem_valid_def upd_area_def)
  ultimately show ?thesis using dl by (simp add: Let_def zero_board_def machine.defs)
qed
end
