(* ===== verification/Layout.thy ===== *)
theory Layout
  imports Prelude
begin

text \<open>
  The memory behind a simulated block and its access functions (\<^verbatim>\<open>simmem_read32\<close> and its
  relatives in \<^verbatim>\<open>peripheral/memory.c\<close>). The simulated machine is big endian; on a little
  endian host words are stored in host order and the addresses of smaller accesses are exchanged
  within the word. The locale \<open>byte_memory\<close> is the contract of a big endian memory of bytes; its
  interpretation shows that the functions keep it on hosts of either byte order.
\<close>

section \<open>Host memory\<close>

text \<open>Reading and writing an unsigned integer through a pointer, on a host of either byte order.\<close>

definition join16 :: "u8 \<Rightarrow> u8 \<Rightarrow> u16" where
  "join16 hi lo = push_bit 8 (ucast hi) OR ucast lo"

definition join32 :: "u8 \<Rightarrow> u8 \<Rightarrow> u8 \<Rightarrow> u8 \<Rightarrow> u32" where
  "join32 a b c d = push_bit 24 (ucast a) OR push_bit 16 (ucast b) OR push_bit 8 (ucast c) OR ucast d"

definition host_read8 :: "u8 list \<Rightarrow> nat \<Rightarrow> u8 outcome" where
  "host_read8 m a = (if a < length m then Inr (m ! a) else Inl Undefined_behaviour)"

definition host_read16 :: "bool \<Rightarrow> u8 list \<Rightarrow> nat \<Rightarrow> u16 outcome" where
  "host_read16 be m a =
     (if a + 2 \<le> length m
      then Inr (if be then join16 (m ! a) (m ! (a + 1)) else join16 (m ! (a + 1)) (m ! a))
      else Inl Undefined_behaviour)"

definition host_read32 :: "bool \<Rightarrow> u8 list \<Rightarrow> nat \<Rightarrow> u32 outcome" where
  "host_read32 be m a =
     (if a + 4 \<le> length m
      then Inr (if be then join32 (m ! a) (m ! (a + 1)) (m ! (a + 2)) (m ! (a + 3))
                else join32 (m ! (a + 3)) (m ! (a + 2)) (m ! (a + 1)) (m ! a))
      else Inl Undefined_behaviour)"

definition host_write8 :: "u8 list \<Rightarrow> nat \<Rightarrow> u8 \<Rightarrow> u8 list outcome" where
  "host_write8 m a v = (if a < length m then Inr (m[a := v]) else Inl Undefined_behaviour)"

definition host_write16 :: "bool \<Rightarrow> u8 list \<Rightarrow> nat \<Rightarrow> u16 \<Rightarrow> u8 list outcome" where
  "host_write16 be m a v =
     (if a + 2 \<le> length m
      then Inr (if be then m[a := ucast (drop_bit 8 v), a + 1 := ucast v]
                else m[a := ucast v, a + 1 := ucast (drop_bit 8 v)])
      else Inl Undefined_behaviour)"

definition host_write32 :: "bool \<Rightarrow> u8 list \<Rightarrow> nat \<Rightarrow> u32 \<Rightarrow> u8 list outcome" where
  "host_write32 be m a v =
     (if a + 4 \<le> length m
      then Inr (if be
        then m[a := ucast (drop_bit 24 v), a + 1 := ucast (drop_bit 16 v),
               a + 2 := ucast (drop_bit 8 v), a + 3 := ucast v]
        else m[a := ucast v, a + 1 := ucast (drop_bit 8 v),
               a + 2 := ucast (drop_bit 16 v), a + 3 := ucast (drop_bit 24 v)])
      else Inl Undefined_behaviour)"

section \<open>Simulated memory\<close>

definition simmem_read32 :: "bool \<Rightarrow> u8 list \<Rightarrow> u32 \<Rightarrow> u32 outcome" where
  "simmem_read32 be m addr = host_read32 be m (unat addr)"

definition simmem_read16 :: "bool \<Rightarrow> u8 list \<Rightarrow> u32 \<Rightarrow> u16 outcome" where
  "simmem_read16 be m addr = host_read16 be m (unat (if be then addr else addr XOR 2))"

definition simmem_read8 :: "bool \<Rightarrow> u8 list \<Rightarrow> u32 \<Rightarrow> u8 outcome" where
  "simmem_read8 be m addr = host_read8 m (unat (if be then addr else addr XOR 3))"

definition simmem_write32 :: "bool \<Rightarrow> u8 list \<Rightarrow> u32 \<Rightarrow> u32 \<Rightarrow> u8 list outcome" where
  "simmem_write32 be m addr v = host_write32 be m (unat addr) v"

definition simmem_write16 :: "bool \<Rightarrow> u8 list \<Rightarrow> u32 \<Rightarrow> u16 \<Rightarrow> u8 list outcome" where
  "simmem_write16 be m addr v = host_write16 be m (unat (if be then addr else addr XOR 2)) v"

definition simmem_write8 :: "bool \<Rightarrow> u8 list \<Rightarrow> u32 \<Rightarrow> u8 \<Rightarrow> u8 list outcome" where
  "simmem_write8 be m addr v = host_write8 m (unat (if be then addr else addr XOR 3)) v"

lemma join32_split:
  "join32 (ucast (drop_bit 24 v)) (ucast (drop_bit 16 v)) (ucast (drop_bit 8 v)) (ucast v) = v"
proof (rule bit_word_eqI)
  fix n assume "n < LENGTH(32)"
  then consider "n < 8" | "8 \<le> n" "n < 16" | "16 \<le> n" "n < 24" | "24 \<le> n" "n < 32" by force
  then show "bit (join32 (ucast (drop_bit 24 v)) (ucast (drop_bit 16 v)) (ucast (drop_bit 8 v)) (ucast v)) n
      = bit v n"
    by cases (auto simp: join32_def bit_simps dest: bit_imp_le_length)
qed

section \<open>Big endian memory\<close>

text \<open>
  The contract of a memory: reads and writes of the three widths act on one list of bytes in which
  the most significant byte of a halfword or word comes first.
\<close>

locale byte_memory =
  fixes rd8 :: "'m \<Rightarrow> u32 \<Rightarrow> u8 outcome" and rd16 :: "'m \<Rightarrow> u32 \<Rightarrow> u16 outcome"
    and rd32 :: "'m \<Rightarrow> u32 \<Rightarrow> u32 outcome"
    and wr8 :: "'m \<Rightarrow> u32 \<Rightarrow> u8 \<Rightarrow> 'm outcome" and wr16 :: "'m \<Rightarrow> u32 \<Rightarrow> u16 \<Rightarrow> 'm outcome"
    and wr32 :: "'m \<Rightarrow> u32 \<Rightarrow> u32 \<Rightarrow> 'm outcome"
    and bytes :: "'m \<Rightarrow> u8 list" and ok :: "'m \<Rightarrow> bool"
  assumes rd8: "ok m \<Longrightarrow> unat a < length (bytes m) \<Longrightarrow> rd8 m a = Inr (bytes m ! unat a)"
    and rd16: "ok m \<Longrightarrow> 2 dvd unat a \<Longrightarrow> unat a + 2 \<le> length (bytes m) \<Longrightarrow>
      rd16 m a = Inr (join16 (bytes m ! unat a) (bytes m ! (unat a + 1)))"
    and rd32: "ok m \<Longrightarrow> 4 dvd unat a \<Longrightarrow> unat a + 4 \<le> length (bytes m) \<Longrightarrow>
      rd32 m a = Inr (join32 (bytes m ! unat a) (bytes m ! (unat a + 1))
                        (bytes m ! (unat a + 2)) (bytes m ! (unat a + 3)))"
    and wr8: "ok m \<Longrightarrow> unat a < length (bytes m) \<Longrightarrow>
      \<exists>m'. wr8 m a v8 = Inr m' \<and> ok m' \<and> bytes m' = (bytes m)[unat a := v8]"
    and wr16: "ok m \<Longrightarrow> 2 dvd unat a \<Longrightarrow> unat a + 2 \<le> length (bytes m) \<Longrightarrow>
      \<exists>m'. wr16 m a v16 = Inr m' \<and> ok m'
        \<and> bytes m' = (bytes m)[unat a := ucast (drop_bit 8 v16), unat a + 1 := ucast v16]"
    and wr32: "ok m \<Longrightarrow> 4 dvd unat a \<Longrightarrow> unat a + 4 \<le> length (bytes m) \<Longrightarrow>
      \<exists>m'. wr32 m a v = Inr m' \<and> ok m'
        \<and> bytes m' = (bytes m)[unat a := ucast (drop_bit 24 v), unat a + 1 := ucast (drop_bit 16 v),
             unat a + 2 := ucast (drop_bit 8 v), unat a + 3 := ucast v]"
begin

lemma wr32_rd32:
  assumes "ok m" "4 dvd unat a" "unat a + 4 \<le> length (bytes m)" "wr32 m a v = Inr m'"
  shows "rd32 m' a = Inr (join32 (ucast (drop_bit 24 v)) (ucast (drop_bit 16 v)) (ucast (drop_bit 8 v)) (ucast v))"
proof -
  from wr32[OF assms(1-3), of v] assms(4) have "ok m'"
    "bytes m' = (bytes m)[unat a := ucast (drop_bit 24 v), unat a + 1 := ucast (drop_bit 16 v),
             unat a + 2 := ucast (drop_bit 8 v), unat a + 3 := ucast v]" by auto
  with assms(2,3) rd32[of m' a] show ?thesis by (simp add: nth_list_update)
qed

lemma wr32_rd8:
  assumes "ok m" "4 dvd unat a" "unat a + 4 \<le> length (bytes m)" "wr32 m a v = Inr m'"
    and "unat b = unat a + k" "k < 4"
  shows "rd8 m' b = Inr (ucast (drop_bit (8 * (3 - k)) v))"
proof -
  from wr32[OF assms(1-3), of v] assms(4) have "ok m'"
    "bytes m' = (bytes m)[unat a := ucast (drop_bit 24 v), unat a + 1 := ucast (drop_bit 16 v),
             unat a + 2 := ucast (drop_bit 8 v), unat a + 3 := ucast v]" by auto
  moreover have "k \<in> {0, 1, 2, 3}" using assms(6) by auto
  ultimately show ?thesis using assms(3,5) rd8[of m' b] by (auto simp: nth_list_update)
qed

lemma wr8_rd8:
  assumes "ok m" "unat a < length (bytes m)" "unat b < length (bytes m)" "wr8 m a v = Inr m'"
  shows "rd8 m' b = (if a = b then Inr v else rd8 m b)"
proof -
  from wr8[OF assms(1,2), of v] assms(4) have "ok m'" "bytes m' = (bytes m)[unat a := v]" by auto
  with assms(1-3) rd8[of m' b] rd8[of m b] show ?thesis by (simp add: nth_list_update word_unat_eq_iff)
qed

lemma wr8_rd32_disjoint:
  assumes "ok m" "unat a < length (bytes m)" "4 dvd unat b" "unat b + 4 \<le> length (bytes m)"
    "unat a div 4 \<noteq> unat b div 4" "wr8 m a v = Inr m'"
  shows "rd32 m' b = rd32 m b"
proof -
  from wr8[OF assms(1,2), of v] assms(6) have "ok m'" "bytes m' = (bytes m)[unat a := v]" by auto
  moreover have "unat a \<noteq> unat b" "unat a \<noteq> unat b + 1" "unat a \<noteq> unat b + 2" "unat a \<noteq> unat b + 3"
    using assms(3,5) by auto
  ultimately show ?thesis
    using assms(1,3,4) rd32[of m' b] rd32[of m b] by simp
qed

end

text \<open>The bytes of the simulated machine: exchanged within each word on a little endian host.\<close>

definition guest_bytes :: "bool \<Rightarrow> u8 list \<Rightarrow> u8 list" where
  "guest_bytes be m = (if be then m else map (\<lambda>a. m ! (a XOR 3)) [0..<length m])"

abbreviation (input) whole_words :: "u8 list \<Rightarrow> bool" where
  "whole_words m \<equiv> 4 dvd length m"

lemma length_guest_bytes [simp]: "length (guest_bytes be m) = length m"
  by (simp add: guest_bytes_def)

text \<open>An address within its word.\<close>

lemma word_address:
  obtains q r where "(a :: nat) = 4 * q + r" "r < 4"
    "(4 * q + r) div 2 = 2 * q + r div 2" "(2 * q + r div 2) div 2 = q" "(4 * q + r) div 4 = q"
    "(4 * q + r) mod 4 = r" "even (4 * q + r) = even r" "even (2 * q + r div 2) = even (r div 2)"
proof -
  obtain q r where a: "a = 4 * q + r" "r < 4"
    by (metis mod_div_mult_eq mod_less_divisor mult.commute add.commute zero_less_numeral)
  from a(2) show thesis by (intro that[OF a]) (simp_all add: div_mult2_eq[of _ 2 2, simplified])
qed

lemma xor_nat_2_bits:
  fixes a :: nat
  assumes "k div 2 = 1"
  shows "a XOR k = of_bool (odd a \<noteq> odd k) + 2 * (of_bool (even (a div 2)) + 2 * (a div 2 div 2))"
proof -
  have 1: "a XOR k = of_bool (odd a \<noteq> odd k) + 2 * ((a div 2) XOR (k div 2))" by (rule xor_rec)
  have 2: "(a div 2) XOR 1 = of_bool (odd (a div 2) \<noteq> odd (1::nat)) + 2 * ((a div 2 div 2) XOR (1 div 2))"
    by (rule xor_rec)
  show ?thesis unfolding 1 assms 2 by simp
qed

lemma xor_3_nat: "(a :: nat) XOR 3 = 4 * (a div 4) + (3 - a mod 4)"
proof (rule word_address[of a])
  fix q r assume h: "a = 4 * q + r" "r < 4"
    "(4 * q + r) div 2 = 2 * q + r div 2" "(2 * q + r div 2) div 2 = q" "(4 * q + r) div 4 = q"
    "(4 * q + r) mod 4 = r" "even (4 * q + r) = even r" "even (2 * q + r div 2) = even (r div 2)"
  have "a XOR 3 = of_bool (odd a \<noteq> odd (3::nat)) + 2 * (of_bool (even (a div 2)) + 2 * (a div 2 div 2))"
    by (rule xor_nat_2_bits) simp
  moreover have "r \<in> {0, 1, 2, 3}" using h(2) by auto
  ultimately show ?thesis unfolding h(1) h(3-8) by auto
qed

lemma xor_2_nat: "even a \<Longrightarrow> (a :: nat) XOR 2 = 4 * (a div 4) + (2 - a mod 4)"
proof (rule word_address[of a])
  fix q r assume "even a" and h: "a = 4 * q + r" "r < 4"
    "(4 * q + r) div 2 = 2 * q + r div 2" "(2 * q + r div 2) div 2 = q" "(4 * q + r) div 4 = q"
    "(4 * q + r) mod 4 = r" "even (4 * q + r) = even r" "even (2 * q + r div 2) = even (r div 2)"
  have "a XOR 2 = of_bool (odd a \<noteq> odd (2::nat)) + 2 * (of_bool (even (a div 2)) + 2 * (a div 2 div 2))"
    by (rule xor_nat_2_bits) simp
  moreover have "r = 0 \<or> r = 1 \<or> r = 2 \<or> r = 3" using h(2) by linarith
  then have "r \<in> {0, 2}" using \<open>even a\<close> unfolding h(1) h(7) by auto
  ultimately show ?thesis unfolding h(1) h(3-8) by auto
qed

lemma xor_3_twice: "((a :: nat) XOR 3) XOR 3 = a"
  by (simp add: xor.assoc)

lemma guest_nth:
  "whole_words m \<Longrightarrow> a < length m \<Longrightarrow> guest_bytes be m ! a = (if be then m ! a else m ! (a XOR 3))"
  by (simp add: guest_bytes_def)

lemma xor_3_less: "whole_words m \<Longrightarrow> a < length m \<Longrightarrow> a XOR 3 < length m"
  unfolding xor_3_nat by presburger

lemma guest_update:
  assumes "whole_words m" "a < length m"
  shows "guest_bytes be (m[(if be then a else a XOR 3) := v]) = (guest_bytes be m)[a := v]"
proof (cases be)
  case False
  show ?thesis
  proof (rule nth_equalityI)
    fix i assume "i < length (guest_bytes be (m[(if be then a else a XOR 3) := v]))"
    then have i: "i < length m" by simp
    have "(i XOR 3 = a XOR 3) = (i = a)" by (metis xor_3_twice)
    with False assms i xor_3_less[OF assms(1) i] xor_3_less[OF assms]
    show "guest_bytes be (m[(if be then a else a XOR 3) := v]) ! i = (guest_bytes be m)[a := v] ! i"
      by (auto simp: guest_nth nth_list_update)
  qed simp
qed (simp add: guest_bytes_def)

lemma unat_xor: "unat (a XOR b :: u32) = unat a XOR unat b"
  by (simp add: unsigned_xor_eq)

lemma unat_add_in_word:
  assumes "k < 4" "4 dvd unat (a :: u32)"
  shows "unat (a + of_nat k) = unat a + k"
proof -
  obtain q where q: "unat a = 4 * q" using assms(2) by blast
  have "q < 2 ^ 30" using unsigned_less[of a, where ?'a = nat] q by simp
  then have "4 * q + k < 2 ^ 32" using assms(1) by simp
  moreover have "unat (of_nat k :: u32) = k" using assms(1) by (simp add: unat_of_nat)
  ultimately show ?thesis using q by (simp add: unat_word_ariths)
qed

text \<open>Both layouts keep the contract.\<close>

lemma read_layout:
  assumes "whole_words m"
  shows "unat a < length m \<Longrightarrow> simmem_read8 be m a = Inr (guest_bytes be m ! unat a)"
    and "2 dvd unat a \<Longrightarrow> unat a + 2 \<le> length m \<Longrightarrow> simmem_read16 be m a
      = Inr (join16 (guest_bytes be m ! unat a) (guest_bytes be m ! (unat a + 1)))"
    and "4 dvd unat a \<Longrightarrow> unat a + 4 \<le> length m \<Longrightarrow> simmem_read32 be m a
      = Inr (join32 (guest_bytes be m ! unat a) (guest_bytes be m ! (unat a + 1))
                (guest_bytes be m ! (unat a + 2)) (guest_bytes be m ! (unat a + 3)))"
proof -
  show "simmem_read8 be m a = Inr (guest_bytes be m ! unat a)" if "unat a < length m"
    using assms that xor_3_less[OF assms that]
    by (simp add: simmem_read8_def host_read8_def guest_nth unat_xor)
next
  assume a: "2 dvd unat a" "unat a + 2 \<le> length m"
  have x2: "unat a XOR 2 = 4 * (unat a div 4) + (2 - unat a mod 4)" using a(1) by (rule xor_2_nat)
  have r: "unat a mod 4 = 0 \<or> unat a mod 4 = 2" using a(1) by presburger
  have "unat a XOR 3 = (unat a XOR 2) + 1" "(unat a + 1) XOR 3 = unat a XOR 2"
    "(unat a XOR 2) + 2 \<le> length m"
    unfolding x2 xor_3_nat using r a assms by (auto simp: mod_Suc div_Suc) presburger+
  then show "simmem_read16 be m a = Inr (join16 (guest_bytes be m ! unat a) (guest_bytes be m ! (unat a + 1)))"
    using assms a by (simp add: simmem_read16_def host_read16_def guest_nth unat_xor)
next
  assume a: "4 dvd unat a" "unat a + 4 \<le> length m"
  have "unat a XOR 3 = unat a + 3" "(unat a + 1) XOR 3 = unat a + 2"
    "(unat a + 2) XOR 3 = unat a + 1" "(unat a + 3) XOR 3 = unat a"
    unfolding xor_3_nat using a by presburger+
  then show "simmem_read32 be m a = Inr (join32 (guest_bytes be m ! unat a) (guest_bytes be m ! (unat a + 1))
                (guest_bytes be m ! (unat a + 2)) (guest_bytes be m ! (unat a + 3)))"
    using assms a by (simp add: simmem_read32_def host_read32_def guest_nth)
qed

lemma guest_update2:
  assumes "whole_words m" "a < length m" "b < length m"
  shows "guest_bytes be (m[(if be then a else a XOR 3) := v, (if be then b else b XOR 3) := w])
    = (guest_bytes be m)[a := v, b := w]"
  using assms by (simp add: guest_update)

lemma write_layout:
  assumes "whole_words m"
  shows "unat a < length m \<Longrightarrow>
      \<exists>m'. simmem_write8 be m a v8 = Inr m' \<and> whole_words m' \<and> guest_bytes be m' = (guest_bytes be m)[unat a := v8]"
    and "2 dvd unat a \<Longrightarrow> unat a + 2 \<le> length m \<Longrightarrow>
      \<exists>m'. simmem_write16 be m a v16 = Inr m' \<and> whole_words m' \<and> guest_bytes be m'
         = (guest_bytes be m)[unat a := ucast (drop_bit 8 v16), unat a + 1 := ucast v16]"
    and "4 dvd unat a \<Longrightarrow> unat a + 4 \<le> length m \<Longrightarrow>
      \<exists>m'. simmem_write32 be m a v = Inr m' \<and> whole_words m' \<and> guest_bytes be m'
         = (guest_bytes be m)[unat a := ucast (drop_bit 24 v), unat a + 1 := ucast (drop_bit 16 v),
             unat a + 2 := ucast (drop_bit 8 v), unat a + 3 := ucast v]"
proof -
  show "\<exists>m'. simmem_write8 be m a v8 = Inr m' \<and> whole_words m' \<and> guest_bytes be m' = (guest_bytes be m)[unat a := v8]"
    if "unat a < length m"
    using assms that xor_3_less[OF assms that] guest_update[OF assms that, of be v8]
    by (cases be) (simp_all add: simmem_write8_def host_write8_def unat_xor)
next
  assume a: "2 dvd unat a" "unat a + 2 \<le> length m"
  have x2: "unat a XOR 2 = 4 * (unat a div 4) + (2 - unat a mod 4)" using a(1) by (rule xor_2_nat)
  have r: "unat a mod 4 = 0 \<or> unat a mod 4 = 2" using a(1) by presburger
  have "unat a XOR 3 = (unat a XOR 2) + 1" "(unat a + 1) XOR 3 = unat a XOR 2"
    "(unat a XOR 2) + 2 \<le> length m"
    unfolding x2 xor_3_nat using r a assms by (auto simp: mod_Suc div_Suc) presburger+
  then show "\<exists>m'. simmem_write16 be m a v16 = Inr m' \<and> whole_words m' \<and> guest_bytes be m'
         = (guest_bytes be m)[unat a := ucast (drop_bit 8 v16), unat a + 1 := ucast v16]"
    using assms a guest_update2[OF assms, of "unat a" "unat a + 1" be "ucast (drop_bit 8 v16)" "ucast v16"]
    by (cases be) (simp_all add: simmem_write16_def host_write16_def unat_xor list_update_swap)
next
  assume a: "4 dvd unat a" "unat a + 4 \<le> length m"
  have x: "unat a XOR 3 = unat a + 3" "(unat a + 1) XOR 3 = unat a + 2"
    "(unat a + 2) XOR 3 = unat a + 1" "(unat a + 3) XOR 3 = unat a"
    unfolding xor_3_nat using a by presburger+
  let ?m = "m[(if be then unat a else unat a XOR 3) := ucast (drop_bit 24 v),
              (if be then unat a + 1 else (unat a + 1) XOR 3) := ucast (drop_bit 16 v)]"
  have "guest_bytes be (?m[(if be then unat a + 2 else (unat a + 2) XOR 3) := ucast (drop_bit 8 v),
              (if be then unat a + 3 else (unat a + 3) XOR 3) := ucast v])
      = (guest_bytes be m)[unat a := ucast (drop_bit 24 v), unat a + 1 := ucast (drop_bit 16 v),
             unat a + 2 := ucast (drop_bit 8 v), unat a + 3 := ucast v]"
    using assms a by (subst guest_update2, simp, simp, simp) (subst guest_update2, simp_all)
  then show "\<exists>m'. simmem_write32 be m a v = Inr m' \<and> whole_words m' \<and> guest_bytes be m'
         = (guest_bytes be m)[unat a := ucast (drop_bit 24 v), unat a + 1 := ucast (drop_bit 16 v),
             unat a + 2 := ucast (drop_bit 8 v), unat a + 3 := ucast v]"
    using assms a unfolding x
    by (cases be) (simp_all add: simmem_write32_def host_write32_def list_update_swap)
qed

interpretation sim: byte_memory "simmem_read8 be" "simmem_read16 be" "simmem_read32 be"
  "simmem_write8 be" "simmem_write16 be" "simmem_write32 be" "guest_bytes be" "\<lambda>m. 4 dvd length m"
  for be
proof unfold_locales
qed (use read_layout write_layout in \<open>simp_all only: length_guest_bytes\<close>)

section \<open>Properties\<close>

text \<open>
  C18: words and bytes. On a host of either byte order a word stored at an aligned address of a block
  is what a word load returns; its bytes are loaded most significant first from the four addresses;
  the bytes of every other word are kept, and so is the size of the block.
\<close>

theorem simmem_word_roundtrip:
  assumes "4 dvd length m" "4 dvd unat a" "unat a + 4 \<le> length m"
  shows "\<exists>m'. simmem_write32 be m a v = Inr m' \<and> length m' = length m
     \<and> simmem_read32 be m' a = Inr v
     \<and> (\<forall>k<4. simmem_read8 be m' (a + of_nat k) = Inr (ucast (drop_bit (8 * (3 - k)) v)))
     \<and> (\<forall>c. unat c < length m \<and> unat c div 4 \<noteq> unat a div 4 \<longrightarrow>
          simmem_read8 be m' c = simmem_read8 be m c)"
proof -
  from sim.wr32[of m a be v] assms obtain m' where m': "simmem_write32 be m a v = Inr m'"
    "4 dvd length m'" "guest_bytes be m' = (guest_bytes be m)[unat a := ucast (drop_bit 24 v),
      unat a + 1 := ucast (drop_bit 16 v), unat a + 2 := ucast (drop_bit 8 v), unat a + 3 := ucast v]"
    by auto
  have len: "length m' = length m" using arg_cong[OF m'(3), of length] by simp
  have "simmem_read32 be m' a = Inr v"
    using sim.wr32_rd32[OF _ _ _ m'(1)] assms by (simp add: join32_split)
  moreover have "simmem_read8 be m' (a + of_nat k) = Inr (ucast (drop_bit (8 * (3 - k)) v))" if "k < 4" for k
  proof (rule sim.wr32_rd8[OF _ _ _ m'(1)])
    show "unat (a + of_nat k) = unat a + k" using that assms(2) by (rule unat_add_in_word)
  qed (use assms that in simp_all)
  moreover have "simmem_read8 be m' c = simmem_read8 be m c"
    if "unat c < length m" "unat c div 4 \<noteq> unat a div 4" for c
  proof -
    have "unat c \<noteq> unat a + i" if "i < 4" for i
      using that \<open>unat c div 4 \<noteq> unat a div 4\<close> assms(2) by auto
    from this[of 0] this[of 1] this[of 2] this[of 3] show ?thesis
      using sim.rd8[of m' c be] sim.rd8[of m c be] that m'(2,3) len assms(1) by simp
  qed
  ultimately show ?thesis using m'(1) len by blast
qed

theorem simmem_word_roundtrip_witness:
  "\<exists>m'. simmem_write32 False (replicate 8 7) 4 0x12345678 = Inr m' \<and> simmem_read32 False m' 4 = Inr 0x12345678
     \<and> simmem_read8 False m' 0 = Inr 7"
  using simmem_word_roundtrip[of "replicate 8 7" 4 False "0x12345678"]
  by (auto simp: simmem_read8_def host_read8_def dest!: spec[of _ 0])

end
