(* ===== verification/Memory.thy ===== *)
theory Memory
  imports Mc Layout
begin

text \<open>
  Simulated memory, \<^verbatim>\<open>peripheral/memory.c\<close>: its configuration section and reset, and the
  accesses of the processor to physical memory in \<^verbatim>\<open>cpu/common/abstract.c\<close>, which look the
  area up and call the function installed for the width. Warnings are not modelled.
\<close>

section \<open>Calls through an area\<close>

text \<open>\<^verbatim>\<open>eval_mem_32_inv\<close> and its relatives: a bus error at the address of the last store.\<close>

definition mem_inv :: "'z board_scheme \<Rightarrow> 'z board_scheme" where
  "mem_inv s = except_handle EXCEPT_BUSERR (cur_vadd s) s"

text \<open>A function of a device, run on the device's part of the board.\<close>

definition uart_run ::
  "nat \<Rightarrow> (uart \<times> 'z board_scheme \<Rightarrow> (uart \<times> 'z board_scheme) outcome) \<Rightarrow> 'z board_scheme \<Rightarrow> 'z board_scheme outcome" where
  "uart_run i f s = bind_outcome (f (uarts s ! i, s)) (\<lambda>(u, s). Inr (s\<lparr>uarts := (uarts s)[i := u]\<rparr>))"

definition gpio_run ::
  "nat \<Rightarrow> (gpio \<times> 'z board_scheme \<Rightarrow> (gpio \<times> 'z board_scheme) outcome) \<Rightarrow> 'z board_scheme \<Rightarrow> 'z board_scheme outcome" where
  "gpio_run i f s = bind_outcome (f (gpios s ! i, s)) (\<lambda>(g, s). Inr (s\<lparr>gpios := (gpios s)[i := g]\<rparr>))"

definition dma_run ::
  "nat \<Rightarrow> (dma \<times> 'z board_scheme \<Rightarrow> (dma \<times> 'z board_scheme) outcome) \<Rightarrow> 'z board_scheme \<Rightarrow> 'z board_scheme outcome" where
  "dma_run i f s = bind_outcome (f (dmas s ! i, s)) (\<lambda>(d, s). Inr (s\<lparr>dmas := (dmas s)[i := d]\<rparr>))"

definition uart_access ::
  "nat \<Rightarrow> (uart \<times> 'z board_scheme \<Rightarrow> ('v \<times> uart \<times> 'z board_scheme) outcome) \<Rightarrow> 'z board_scheme \<Rightarrow> ('v \<times> 'z board_scheme) outcome" where
  "uart_access i f s = bind_outcome (f (uarts s ! i, s)) (\<lambda>(v, u, s). Inr (v, s\<lparr>uarts := (uarts s)[i := u]\<rparr>))"

definition dma_access ::
  "nat \<Rightarrow> (dma \<times> 'z board_scheme \<Rightarrow> ('v \<times> dma \<times> 'z board_scheme) outcome) \<Rightarrow> 'z board_scheme \<Rightarrow> ('v \<times> 'z board_scheme) outcome" where
  "dma_access i f s = bind_outcome (f (dmas s ! i, s)) (\<lambda>(v, d, s). Inr (v, s\<lparr>dmas := (dmas s)[i := d]\<rparr>))"

definition call_read32 :: "read_fn option \<Rightarrow> u32 \<Rightarrow> 'z board_scheme \<Rightarrow> (u32 \<times> 'z board_scheme) outcome" where
  "call_read32 f addr s =
     (case f of
        None \<Rightarrow> Inl Null_deref
      | Some (Simmem_read b) \<Rightarrow>
          bind_outcome (simmem_read32 (words_bigendian s) (blocks s ! b) addr) (\<lambda>v. Inr (v, s))
      | Some Simmem_read_zero \<Rightarrow> Inr (0, s)
      | Some Eval_mem_inv \<Rightarrow> Inr (0, mem_inv s)
      | Some Eval_mem_inv_direct \<Rightarrow> Inr (0, s)
      | Some (Mc_read_word i) \<Rightarrow> Inr (mc_read_word i addr s, s)
      | Some (Gpio_read i) \<Rightarrow> Inr (gpio_read32 addr (gpios s ! i), s)
      | Some (Dma_read i) \<Rightarrow> dma_access i (dma_read32 addr) s
      | Some (Uart_read i) \<Rightarrow> Inl Undefined_behaviour)"

text \<open>
  The memory controller and the peripherals are called at the width their functions are installed
  for: 8 bits for the serial port, 32 for the others.
\<close>

definition call_read16 :: "read_fn option \<Rightarrow> u32 \<Rightarrow> 'z board_scheme \<Rightarrow> (u16 \<times> 'z board_scheme) outcome" where
  "call_read16 f addr s =
     (case f of
        None \<Rightarrow> Inl Null_deref
      | Some (Simmem_read b) \<Rightarrow>
          bind_outcome (simmem_read16 (words_bigendian s) (blocks s ! b) addr) (\<lambda>v. Inr (v, s))
      | Some Simmem_read_zero \<Rightarrow> Inr (0, s)
      | Some Eval_mem_inv \<Rightarrow> Inr (0, mem_inv s)
      | Some Eval_mem_inv_direct \<Rightarrow> Inr (0, s)
      | Some _ \<Rightarrow> Inl Undefined_behaviour)"

definition call_read8 :: "read_fn option \<Rightarrow> u32 \<Rightarrow> 'z board_scheme \<Rightarrow> (u8 \<times> 'z board_scheme) outcome" where
  "call_read8 f addr s =
     (case f of
        None \<Rightarrow> Inl Null_deref
      | Some (Simmem_read b) \<Rightarrow>
          bind_outcome (simmem_read8 (words_bigendian s) (blocks s ! b) addr) (\<lambda>v. Inr (v, s))
      | Some Simmem_read_zero \<Rightarrow> Inr (0, s)
      | Some Eval_mem_inv \<Rightarrow> Inr (0, mem_inv s)
      | Some Eval_mem_inv_direct \<Rightarrow> Inr (0, s)
      | Some (Uart_read i) \<Rightarrow> uart_access i (uart_read_byte i addr) s
      | Some _ \<Rightarrow> Inl Undefined_behaviour)"

abbreviation set_block :: "nat \<Rightarrow> u8 list \<Rightarrow> 'z board_scheme \<Rightarrow> 'z board_scheme" where
  "set_block b m s \<equiv> s\<lparr>blocks := (blocks s)[b := m]\<rparr>"

definition call_write32 :: "write_fn option \<Rightarrow> u32 \<Rightarrow> u32 \<Rightarrow> 'z board_scheme \<Rightarrow> 'z board_scheme outcome" where
  "call_write32 f addr v s =
     (case f of
        None \<Rightarrow> Inl Null_deref
      | Some (Simmem_write b) \<Rightarrow>
          bind_outcome (simmem_write32 (words_bigendian s) (blocks s ! b) addr v) (\<lambda>m. Inr (set_block b m s))
      | Some Simmem_write_null \<Rightarrow> Inr s
      | Some Set_mem_inv \<Rightarrow> Inr (mem_inv s)
      | Some Set_mem_inv_direct \<Rightarrow> Inr s
      | Some (Mc_write_word i) \<Rightarrow> mc_write_word i addr v s
      | Some (Gpio_write i) \<Rightarrow> gpio_run i (gpio_write32 addr v) s
      | Some (Dma_write i) \<Rightarrow> dma_run i (dma_write32 i addr v) s
      | Some (Uart_write i) \<Rightarrow> Inl Undefined_behaviour)"

definition call_write16 :: "write_fn option \<Rightarrow> u32 \<Rightarrow> u16 \<Rightarrow> 'z board_scheme \<Rightarrow> 'z board_scheme outcome" where
  "call_write16 f addr v s =
     (case f of
        None \<Rightarrow> Inl Null_deref
      | Some (Simmem_write b) \<Rightarrow>
          bind_outcome (simmem_write16 (words_bigendian s) (blocks s ! b) addr v) (\<lambda>m. Inr (set_block b m s))
      | Some Simmem_write_null \<Rightarrow> Inr s
      | Some Set_mem_inv \<Rightarrow> Inr (mem_inv s)
      | Some Set_mem_inv_direct \<Rightarrow> Inr s
      | Some _ \<Rightarrow> Inl Undefined_behaviour)"

definition call_write8 :: "write_fn option \<Rightarrow> u32 \<Rightarrow> u8 \<Rightarrow> 'z board_scheme \<Rightarrow> 'z board_scheme outcome" where
  "call_write8 f addr v s =
     (case f of
        None \<Rightarrow> Inl Null_deref
      | Some (Simmem_write b) \<Rightarrow>
          bind_outcome (simmem_write8 (words_bigendian s) (blocks s ! b) addr v) (\<lambda>m. Inr (set_block b m s))
      | Some Simmem_write_null \<Rightarrow> Inr s
      | Some Set_mem_inv \<Rightarrow> Inr (mem_inv s)
      | Some Set_mem_inv_direct \<Rightarrow> Inr s
      | Some (Uart_write i) \<Rightarrow> uart_run i (uart_write_byte i addr v) s
      | Some _ \<Rightarrow> Inl Undefined_behaviour)"

section \<open>Physical accesses\<close>

definition evalsim_mem32 :: "u32 \<Rightarrow> u32 \<Rightarrow> 'z board_scheme \<Rightarrow> (u32 \<times> 'z board_scheme) outcome" where
  "evalsim_mem32 memaddr vaddr s =
     (case verify_memoryarea memaddr s of
        (Some i, s) \<Rightarrow>
          (let a = dev_list s ! i; s = s\<lparr>mem_cycles := mem_cycles s + delayr (ops a)\<rparr>
           in call_read32 (readfunc32 (ops a)) (memaddr AND size_mask a) s)
      | (None, s) \<Rightarrow> Inr (0, except_handle EXCEPT_BUSERR vaddr s))"

definition evalsim_mem16 :: "u32 \<Rightarrow> u32 \<Rightarrow> 'z board_scheme \<Rightarrow> (u16 \<times> 'z board_scheme) outcome" where
  "evalsim_mem16 memaddr vaddr s =
     (case verify_memoryarea memaddr s of
        (Some i, s) \<Rightarrow>
          (let a = dev_list s ! i; s = s\<lparr>mem_cycles := mem_cycles s + delayr (ops a)\<rparr>
           in call_read16 (readfunc16 (ops a)) (memaddr AND size_mask a) s)
      | (None, s) \<Rightarrow> Inr (0, except_handle EXCEPT_BUSERR vaddr s))"

definition evalsim_mem8 :: "u32 \<Rightarrow> u32 \<Rightarrow> 'z board_scheme \<Rightarrow> (u8 \<times> 'z board_scheme) outcome" where
  "evalsim_mem8 memaddr vaddr s =
     (case verify_memoryarea memaddr s of
        (Some i, s) \<Rightarrow>
          (let a = dev_list s ! i; s = s\<lparr>mem_cycles := mem_cycles s + delayr (ops a)\<rparr>
           in call_read8 (readfunc8 (ops a)) (memaddr AND size_mask a) s)
      | (None, s) \<Rightarrow> Inr (0, except_handle EXCEPT_BUSERR vaddr s))"

definition setsim_mem32 :: "u32 \<Rightarrow> u32 \<Rightarrow> u32 \<Rightarrow> 'z board_scheme \<Rightarrow> 'z board_scheme outcome" where
  "setsim_mem32 memaddr vaddr v s =
     (case verify_memoryarea memaddr s of
        (Some i, s) \<Rightarrow>
          (let a = dev_list s ! i;
               s = s\<lparr>cur_vadd := vaddr, mem_cycles := mem_cycles s + delayw (ops a)\<rparr>
           in call_write32 (writefunc32 (ops a)) (memaddr AND size_mask a) v s)
      | (None, s) \<Rightarrow> Inr (except_handle EXCEPT_BUSERR vaddr s))"

definition setsim_mem16 :: "u32 \<Rightarrow> u32 \<Rightarrow> u16 \<Rightarrow> 'z board_scheme \<Rightarrow> 'z board_scheme outcome" where
  "setsim_mem16 memaddr vaddr v s =
     (case verify_memoryarea memaddr s of
        (Some i, s) \<Rightarrow>
          (let a = dev_list s ! i;
               s = s\<lparr>cur_vadd := vaddr, mem_cycles := mem_cycles s + delayw (ops a)\<rparr>
           in call_write16 (writefunc16 (ops a)) (memaddr AND size_mask a) v s)
      | (None, s) \<Rightarrow> Inr (except_handle EXCEPT_BUSERR vaddr s))"

definition setsim_mem8 :: "u32 \<Rightarrow> u32 \<Rightarrow> u8 \<Rightarrow> 'z board_scheme \<Rightarrow> 'z board_scheme outcome" where
  "setsim_mem8 memaddr vaddr v s =
     (case verify_memoryarea memaddr s of
        (Some i, s) \<Rightarrow>
          (let a = dev_list s ! i;
               s = s\<lparr>cur_vadd := vaddr, mem_cycles := mem_cycles s + delayw (ops a)\<rparr>
           in call_write8 (writefunc8 (ops a)) (memaddr AND size_mask a) v s)
      | (None, s) \<Rightarrow> Inr (except_handle EXCEPT_BUSERR vaddr s))"

text \<open>Program loading, which also writes memory the processor cannot write.\<close>

definition set_program32 :: "u32 \<Rightarrow> u32 \<Rightarrow> 'z board_scheme \<Rightarrow> 'z board_scheme outcome" where
  "set_program32 memaddr v s =
     (if memaddr AND 3 \<noteq> 0 then Inr s
      else
        (case verify_memoryarea memaddr s of
           (Some i, s) \<Rightarrow>
             (let a = dev_list s ! i in call_write32 (writeprog32 (ops a)) (memaddr AND size_mask a) v s)
         | (None, s) \<Rightarrow> Inr s))"

definition set_program8 :: "u32 \<Rightarrow> u8 \<Rightarrow> 'z board_scheme \<Rightarrow> 'z board_scheme outcome" where
  "set_program8 memaddr v s =
     (case verify_memoryarea memaddr s of
        (Some i, s) \<Rightarrow>
          (let a = dev_list s ! i in call_write8 (writeprog8 (ops a)) (memaddr AND size_mask a) v s)
      | (None, s) \<Rightarrow> Inr s)"

section \<open>Memory blocks\<close>

datatype mem_type = MT_UNKNOWN | MT_PATTERN | MT_RANDOM | MT_EXITNOPS

record mem_config =
  cm_ce :: int
  cm_mc :: int
  cm_base :: u32
  cm_size :: u32
  cm_delayr :: int
  cm_delayw :: int
  cm_block :: nat
  cm_pattern :: int
  cm_seed :: int
  cm_type :: mem_type

text \<open>
  The \<^verbatim>\<open>i\<close>-th call of \<^verbatim>\<open>random\<close> after the seeding returns \<open>rnd i\<close>.
\<close>

definition reset_byte :: "(nat \<Rightarrow> nat) \<Rightarrow> mem_config \<Rightarrow> nat \<Rightarrow> u8 \<Rightarrow> u8" where
  "reset_byte rnd m i old =
     (case cm_type m of
        MT_RANDOM \<Rightarrow> of_nat (rnd i) AND 0xff
      | MT_PATTERN \<Rightarrow> of_int (cm_pattern m)
      | MT_UNKNOWN \<Rightarrow> old
      | MT_EXITNOPS \<Rightarrow> (if i mod 4 = 3 then 0x15 else if i mod 4 = 0 then 0x01 else 0x00))"

definition mem_reset :: "(nat \<Rightarrow> nat) \<Rightarrow> mem_config \<Rightarrow> 'z board_scheme \<Rightarrow> 'z board_scheme" where
  "mem_reset rnd m s =
     (let b = blocks s ! cm_block m
      in set_block (cm_block m)
           (map (\<lambda>i. if i < unat (cm_size m) then reset_byte rnd m i (b ! i) else b ! i) [0..<length b]) s)"

definition memory_random_seed :: "int \<Rightarrow> mem_config \<Rightarrow> mem_config" where
  "memory_random_seed v m = m\<lparr>cm_seed := v\<rparr>"

definition memory_pattern :: "int \<Rightarrow> mem_config \<Rightarrow> mem_config" where
  "memory_pattern v m = m\<lparr>cm_pattern := v AND 0xff\<rparr>"

text \<open>Comparison of ASCII strings without regard to case.\<close>

definition lower :: "char \<Rightarrow> char" where
  "lower c = (if 65 \<le> (of_char c :: nat) \<and> (of_char c :: nat) \<le> 90 then char_of (of_char c + 32 :: nat) else c)"

definition same_word :: "string \<Rightarrow> string \<Rightarrow> bool" where
  "same_word a b = (map lower a = map lower b)"

definition memory_type :: "string \<Rightarrow> mem_config \<Rightarrow> mem_config" where
  "memory_type v m =
     (if same_word v ''unknown'' then m\<lparr>cm_type := MT_UNKNOWN\<rparr>
      else if same_word v ''random'' then m\<lparr>cm_type := MT_RANDOM\<rparr>
      else if same_word v ''pattern'' then m\<lparr>cm_type := MT_PATTERN\<rparr>
      else if same_word v ''zero'' then m\<lparr>cm_type := MT_PATTERN, cm_pattern := 0\<rparr>
      else if same_word v ''exitnops'' then m\<lparr>cm_type := MT_EXITNOPS, cm_pattern := 0\<rparr>
      else m)"

definition memory_ce :: "int \<Rightarrow> mem_config \<Rightarrow> mem_config" where
  "memory_ce v m = m\<lparr>cm_ce := v\<rparr>"

definition memory_mc :: "int \<Rightarrow> mem_config \<Rightarrow> mem_config" where
  "memory_mc v m = m\<lparr>cm_mc := v\<rparr>"

definition memory_baseaddr :: "u32 \<Rightarrow> mem_config \<Rightarrow> mem_config" where
  "memory_baseaddr v m = m\<lparr>cm_base := v\<rparr>"

definition memory_size :: "int \<Rightarrow> mem_config \<Rightarrow> mem_config" where
  "memory_size v m = m\<lparr>cm_size := of_int v\<rparr>"

definition memory_delayr :: "int \<Rightarrow> mem_config \<Rightarrow> mem_config" where
  "memory_delayr v m = m\<lparr>cm_delayr := v\<rparr>"

definition memory_delayw :: "int \<Rightarrow> mem_config \<Rightarrow> mem_config" where
  "memory_delayw v m = m\<lparr>cm_delayw := v\<rparr>"

text \<open>The block pointer is not set before the end of the section: \<open>junk\<close>.\<close>

definition memory_sec_start :: "nat \<Rightarrow> mem_config" where
  "memory_sec_start junk = \<lparr>cm_ce = -1, cm_mc = 0, cm_base = 0, cm_size = 1024, cm_delayr = 1,
     cm_delayw = 1, cm_block = junk, cm_pattern = 0, cm_seed = -1, cm_type = MT_UNKNOWN\<rparr>"

definition memory_ops :: "mem_config \<Rightarrow> nat \<Rightarrow> mem_ops" where
  "memory_ops m b =
     (let rd = (if cm_delayr m > 0 then Simmem_read b else Simmem_read_zero);
          wr = (if cm_delayw m > 0 then Simmem_write b else Simmem_write_null)
      in \<lparr>readfunc32 = Some rd, readfunc16 = Some rd, readfunc8 = Some rd, writefunc32 = Some wr,
          writefunc16 = Some wr, writefunc8 = Some wr, writeprog32 = Some (Simmem_write b),
          writeprog8 = Some (Simmem_write b), delayr = cm_delayr m, delayw = cm_delayw m\<rparr>)"

definition round_size :: "u32 \<Rightarrow> u32" where
  "round_size v = (if v AND 3 \<noteq> 0 then (v AND NOT 3) + 4 else v)"

text \<open>
  The end of a section: the block is allocated with contents \<open>junk\<close>, the area registered. \<open>None\<close>
  when the section is dropped.
\<close>

definition memory_sec_end ::
  "(nat \<Rightarrow> u8) \<Rightarrow> mem_config \<Rightarrow> 'z board_scheme \<Rightarrow> (mem_config option \<times> 'z board_scheme) outcome" where
  "memory_sec_end junk m s =
     (if cm_size m = 0 then Inr (None, s)
      else
        (let b = length (blocks s);
             m = m\<lparr>cm_size := round_size (cm_size m), cm_block := b\<rparr>;
             s = s\<lparr>blocks := blocks s @ [map junk [0..<unat (cm_size m)]]\<rparr>
         in bind_outcome (reg_mem_area (cm_base m) (cm_size m) False (memory_ops m b) s) (\<lambda>(i, s).
              let s = set_mem_valid i True s;
                  s = (if cm_ce m \<ge> 0 then mc_reg_mem_area i (of_int (cm_ce m)) (cm_mc m) s else s)
              in Inr (Some m, s))))"

section \<open>Lemmas\<close>

text \<open>
  An address backed by plain memory: the area that holds it reads and writes block \<open>b\<close>, and the
  address is at offset \<open>off\<close> of the block.
\<close>

definition ram_at :: "'z board_scheme \<Rightarrow> u32 \<Rightarrow> nat \<Rightarrow> nat \<Rightarrow> bool" where
  "ram_at s addr b off \<longleftrightarrow> (\<exists>i. find_area addr 0 (dev_list s) = Some i
     \<and> readfunc32 (ops (dev_list s ! i)) = Some (Simmem_read b)
     \<and> readfunc16 (ops (dev_list s ! i)) = Some (Simmem_read b)
     \<and> readfunc8 (ops (dev_list s ! i)) = Some (Simmem_read b)
     \<and> writefunc32 (ops (dev_list s ! i)) = Some (Simmem_write b)
     \<and> writefunc16 (ops (dev_list s ! i)) = Some (Simmem_write b)
     \<and> writefunc8 (ops (dev_list s ! i)) = Some (Simmem_write b)
     \<and> off = unat (addr AND size_mask (dev_list s ! i)))"

text \<open>Accesses to plain memory change the block, the cycle count and the lookup cache.\<close>

definition touch_area :: "u32 \<Rightarrow> (dev_memarea \<Rightarrow> int) \<Rightarrow> 'z board_scheme \<Rightarrow> 'z board_scheme" where
  "touch_area addr delay s = s\<lparr>cur_area := find_area addr 0 (dev_list s),
     mem_cycles := mem_cycles s + (case find_area addr 0 (dev_list s) of None \<Rightarrow> 0 | Some i \<Rightarrow> delay (dev_list s ! i))\<rparr>"

lemma evalsim_ram:
  assumes "areas_inv s" "ram_at s addr b off"
  shows "evalsim_mem32 addr va s =
      bind_outcome (host_read32 (words_bigendian s) (blocks s ! b) off)
        (\<lambda>v. Inr (v, touch_area addr (\<lambda>a. delayr (ops a)) s))"
    and "evalsim_mem8 addr va s =
      bind_outcome (simmem_read8 (words_bigendian s) (blocks s ! b) (of_nat off))
        (\<lambda>v. Inr (v, touch_area addr (\<lambda>a. delayr (ops a)) s))"
  using assms(2) unfolding evalsim_mem32_def evalsim_mem8_def verify_unique[OF assms(1)] ram_at_def
  by (auto simp: call_read32_def call_read8_def touch_area_def simmem_read32_def Let_def)

lemma vadd_area_swap: "s\<lparr>cur_vadd := va, cur_area := c\<rparr> = s\<lparr>cur_area := c, cur_vadd := va\<rparr>"
  by simp

lemma setsim_ram:
  assumes "areas_inv s" "ram_at s addr b off"
  shows "setsim_mem32 addr va v s =
      bind_outcome (host_write32 (words_bigendian s) (blocks s ! b) off v)
        (\<lambda>m. Inr (set_block b m (touch_area addr (\<lambda>a. delayw (ops a)) (s\<lparr>cur_vadd := va\<rparr>))))"
  using assms(2) unfolding setsim_mem32_def verify_unique[OF assms(1)] ram_at_def
  by (auto simp: call_write32_def touch_area_def simmem_write32_def vadd_area_swap Let_def)

lemma areas_inv_touch [simp]:
  assumes "areas_inv s"
  shows "areas_inv (touch_area addr d s)"
  using verify_inv[OF assms, of addr] unfolding verify_unique[OF assms]
  by (simp add: touch_area_def areas_inv_def)

lemma touch_area_fields [simp]:
  "dev_list (touch_area addr d s) = dev_list s" "blocks (touch_area addr d s) = blocks s"
  "words_bigendian (touch_area addr d s) = words_bigendian s" "reg (touch_area addr d s) = reg s"
  "sprs (touch_area addr d s) = sprs s" "pc (touch_area addr d s) = pc s"
  "mc_dev_area (touch_area addr d s) = mc_dev_area s" "except_pending (touch_area addr d s) = except_pending s"
  by (simp_all add: touch_area_def)

lemma areas_inv_store [simp]:
  "areas_inv (s\<lparr>cur_vadd := va\<rparr>) = areas_inv s" "areas_inv (s\<lparr>blocks := bs\<rparr>) = areas_inv s"
  by (simp_all add: areas_inv_def)

lemma ram_at_store [simp]:
  "ram_at (s\<lparr>cur_vadd := va\<rparr>) = ram_at s" "ram_at (s\<lparr>blocks := bs\<rparr>) = ram_at s"
  "ram_at (touch_area addr d s) = ram_at s"
  by (simp_all add: ram_at_def fun_eq_iff)

lemma host_write32_read32:
  assumes "host_write32 be m a v = Inr m'"
  shows "host_read32 be m' a = Inr v"
    and "4 dvd a \<Longrightarrow> 4 dvd c \<Longrightarrow> c \<noteq> a \<Longrightarrow> host_read32 be m' c = host_read32 be m c"
    and "length m' = length m"
proof -
  have m: "a + 4 \<le> length m" and m': "m' = (if be
        then m[a := ucast (drop_bit 24 v), a + 1 := ucast (drop_bit 16 v),
               a + 2 := ucast (drop_bit 8 v), a + 3 := ucast v]
        else m[a := ucast v, a + 1 := ucast (drop_bit 8 v),
               a + 2 := ucast (drop_bit 16 v), a + 3 := ucast (drop_bit 24 v)])"
    using assms by (auto simp: host_write32_def split: if_splits)
  show "host_read32 be m' a = Inr v"
    using m join32_split[of v] unfolding m' by (simp add: host_read32_def nth_list_update)
  show "length m' = length m" unfolding m' by simp
  assume "4 dvd a" "4 dvd c" "c \<noteq> a"
  then have "a + i \<noteq> c + j" if "i < 4" "j < 4" for i j using that by presburger
  from this[of 0 0] this[of 0 1] this[of 0 2] this[of 0 3] this[of 1 0] this[of 1 1] this[of 1 2] this[of 1 3]
    this[of 2 0] this[of 2 1] this[of 2 2] this[of 2 3] this[of 3 0] this[of 3 1] this[of 3 2] this[of 3 3]
  show "host_read32 be m' c = host_read32 be m c"
    unfolding m' by (simp add: host_read32_def)
qed

lemma unat_and_not_mask: "unat (v AND NOT (mask k) :: u32) = 2 ^ k * (unat v div 2 ^ k)"
proof -
  have eq: "v AND NOT (mask k) = push_bit k (drop_bit k v)"
    by (rule bit_word_eqI) (auto simp: bit_simps)
  have "unat (push_bit k (drop_bit k v)) = take_bit LENGTH(32) (2 ^ k * (unat v div 2 ^ k))"
    by (simp add: unsigned_push_bit_eq push_bit_eq_mult[where 'a = nat] unat_drop_bit mult.commute
        del: push_bit_of_nat)
  moreover have "2 ^ k * (unat v div 2 ^ k) < 2 ^ LENGTH(32)"
    using times_div_less_eq_dividend[of "2 ^ k" "unat v"] unsigned_less[of v] by (rule le_less_trans)
  ultimately show ?thesis
    unfolding eq by (simp only: take_bit_nat_eq_self)
qed

lemma and_3_dvd: "v AND 3 = 0 \<longleftrightarrow> 4 dvd unat (v :: u32)"
proof -
  have "v AND 3 = take_bit 2 v" by (simp add: take_bit_eq_mask mask_eq_exp_minus_1)
  then have "v AND 3 = 0 \<longleftrightarrow> take_bit 2 (unat v) = 0" by (simp add: word_unat_eq_iff unsigned_take_bit_eq)
  then show ?thesis by (simp add: take_bit_eq_mod dvd_eq_mod_eq_0)
qed

lemma unat_round_size:
  assumes "unat v \<le> 2 ^ 31"
  shows "unat (round_size v) = 4 * ((unat v + 3) div 4)"
proof (cases "v AND 3 = 0")
  case True
  then have "4 dvd unat v" by (simp add: and_3_dvd)
  then show ?thesis using True by (auto simp: round_size_def elim!: dvdE)
next
  case False
  then have "\<not> 4 dvd unat v" by (simp add: and_3_dvd)
  then have "(unat v + 3) div 4 = unat v div 4 + 1" by presburger
  moreover have "unat (v AND NOT 3) = 4 * (unat v div 4)"
    using unat_and_not_mask[of v 2] by (simp add: mask_eq_exp_minus_1)
  ultimately show ?thesis using False assms by (simp add: round_size_def unat_word_ariths)
qed
lemma round_size_bound:
  assumes "unat v \<le> 2 ^ 31" "v \<noteq> 0"
  shows "unat (round_size v - 1) < 2 ^ 31"
proof -
  have "0 < unat v" using assms(2) by (simp add: unat_gt_0)
  then have pos: "0 < 4 * ((unat v + 3) div 4)" by presburger
  have "(unat v + 3) div 4 \<le> (2 ^ 31 + 3) div 4" using assms(1) by (intro div_le_mono) simp
  then have "4 * ((unat v + 3) div 4) \<le> 2 ^ 31" by simp
  moreover have "unat (round_size v - 1) = 4 * ((unat v + 3) div 4) - 1"
    using unat_round_size[OF assms(1)] pos by (metis less_numeral_extra(3) unat_0 unat_minus_one)
  ultimately show ?thesis using pos by linarith
qed

lemma offset_in_area:
  assumes "area_ok a" "unat addr \<in> area_range a"
  shows "unat (addr AND size_mask a) = unat addr - unat (addr_compare a)"
proof -
  from assms(1) obtain k where k: "k \<le> 31" "size_mask a = mask k" "area_size a = 2 ^ k"
    "2 ^ k dvd unat (addr_compare a)" unfolding area_ok_def by blast
  have "unat (addr AND mask k) = take_bit k (unat addr)"
    by (simp only: take_bit_eq_mask[symmetric] unsigned_take_bit_eq)
  then have "unat (addr AND mask k) = unat addr mod 2 ^ k" by (simp only: take_bit_eq_mod)
  moreover have "unat (addr_compare a) \<le> unat addr" "unat addr - unat (addr_compare a) < 2 ^ k"
    using assms(2) k(1,3) by (auto simp: area_range_def unat_power)
  then have "unat addr mod 2 ^ k = unat addr - unat (addr_compare a)"
    using k(4) by (metis add_diff_inverse_nat dvd_add_right_iff mod_add_left_eq mod_less dvd_eq_mod_eq_0 add_0 not_less)
  ultimately show ?thesis by (simp add: k(2))
qed

lemma xor_3_outside: "4 dvd n \<Longrightarrow> (a XOR 3 < n) = (a < (n :: nat))"
  unfolding xor_3_nat by presburger

lemma installed_memory_ops:
  "readfunc8 (installed_ops (memory_ops m b)) = Some (if cm_delayr m > 0 then Simmem_read b else Simmem_read_zero)"
  by (simp add: installed_ops_def memory_ops_def or_else_def Let_def)

text \<open>The area a section adds, and the block behind it.\<close>

lemma memory_sec_end_shape:
  assumes "memory_sec_end junk m s = Inr (Some m', s')" "unat (cm_size m) \<le> 2 ^ 31"
  obtains k f where "k \<le> 31" "dev_list s' = dev_list s @ [new_area k (cm_base m) f]"
    "\<not> list_ex (areas_overlap (cm_base m AND NOT (mask k)) (2 ^ k)) (dev_list s)"
    "cm_delayr m > 0 \<Longrightarrow> readfunc8 (installed_ops f) = Some (Simmem_read (length (blocks s)))"
    "cur_area s' = Some (length (dev_list s))" "mc_dev_area s' = mc_dev_area s"
    "blocks s' = blocks s @ [map junk [0..<4 * ((unat (cm_size m) + 3) div 4)]]"
    "words_bigendian s' = words_bigendian s"
proof -
  let ?b = "length (blocks s)"
  let ?m = "m\<lparr>cm_size := round_size (cm_size m), cm_block := ?b\<rparr>"
  let ?s = "s\<lparr>blocks := blocks s @ [map junk [0..<unat (cm_size ?m)]]\<rparr>"
  let ?fin = "\<lambda>i s. if cm_ce m \<ge> 0 then mc_reg_mem_area i (of_int (cm_ce m)) (cm_mc m) (set_mem_valid i True s)
        else set_mem_valid i True s"
  have sz0: "cm_size m \<noteq> 0" using assms(1) by (auto simp: memory_sec_end_def split: if_splits)
  have "bind_outcome (reg_mem_area (cm_base m) (cm_size ?m) False (memory_ops ?m ?b) ?s)
        (\<lambda>(i, s). Inr (Some ?m, ?fin i s)) = Inr (Some m', s')"
    using assms(1) sz0 by (simp add: memory_sec_end_def Let_def cong: if_cong)
  then obtain i s1 where r: "reg_mem_area (cm_base m) (cm_size ?m) False (memory_ops ?m ?b) ?s = Inr (i, s1)"
    "s' = ?fin i s1" unfolding bind_outcome_eq_Inr by (auto simp: split_beta)
  obtain k where k: "k \<le> 31" "i = length (dev_list s)"
    "\<not> list_ex (areas_overlap (cm_base m AND NOT (mask k)) (2 ^ k)) (dev_list s)"
    "s1 = ?s\<lparr>dev_list := dev_list s @ [new_area k (cm_base m) (memory_ops ?m ?b)], cur_area := Some i,
            mc_dev_area := mc_dev_area s\<rparr>"
  proof (rule reg_mem_area_shape[OF r(1)])
    show "unat (cm_size ?m - 1) < 2 ^ 31" using round_size_bound[OF assms(2) sz0] by simp
  next
    fix k assume "k \<le> 31" "i = length (dev_list ?s)"
      "\<not> list_ex (areas_overlap (cm_base m AND NOT (mask k)) (2 ^ k)) (dev_list ?s)"
      "s1 = ?s\<lparr>dev_list := dev_list ?s @ [new_area k (cm_base m) (memory_ops ?m ?b)], cur_area := Some i,
            mc_dev_area := (if False then Some i else mc_dev_area ?s)\<rparr>"
    then show thesis by (intro that[of k]) simp_all
  qed
  show thesis
    by (rule that[of k "memory_ops ?m ?b"])
      (use k r(2) unat_round_size[OF assms(2)] in \<open>simp_all add: set_mem_valid_def upd_area_def mc_reg_mem_area_def
        nth_append list_update_append new_area_def installed_memory_ops\<close>)
qed

text \<open>A board with one memory section of 13 bytes at address 0, filled with the number of the byte.\<close>

definition small_section :: mem_config where
  "small_section = (memory_sec_start 0)\<lparr>cm_size := 13\<rparr>"

definition small_board :: board where
  "small_board = zero_board\<lparr>dev_list := [new_area 4 0 (memory_ops small_section 0)], cur_area := Some 0,
     blocks := [map of_nat [0..<16]]\<rparr>"

lemma small_board_end:
  "memory_sec_end of_nat small_section zero_board
     = Inr (Some (small_section\<lparr>cm_size := 16, cm_block := 0\<rparr>), small_board)"
  by (simp add: memory_sec_end_def small_section_def small_board_def memory_sec_start_def round_size_def
      reg_mem_area_def register_memoryarea_mask_def bit_mask_def bit_mask_loop.simps new_area_def
      mask_eq_exp_minus_1 memory_ops_def
      zero_board_def machine.defs zero_machine_def upd_area_def set_mem_valid_def Let_def)

lemma small_board_fields:
  "dev_list small_board ! 0 = new_area 4 0 (memory_ops small_section 0)" "length (dev_list small_board) = 1"
  "dev_list small_board = [new_area 4 0 (memory_ops small_section 0)]"
  "cur_area small_board = Some 0" "mc_dev_area small_board = None" "words_bigendian small_board = False"
  "blocks small_board = [map of_nat [0..<16]]"
  by (simp_all add: small_board_def zero_board_def machine.defs)

lemma small_section_size: "cm_size small_section = 13" "cm_delayr small_section = 1"
  by (simp_all add: small_section_def memory_sec_start_def)

lemma zero_board_inv: "areas_inv zero_board" "dev_list zero_board = []" "words_bigendian zero_board = False"
  by (simp_all add: areas_inv_def zero_board_def machine.defs)

lemma small_board_inv: "areas_inv small_board"
proof -
  have "area_ok (new_area 4 0 (memory_ops small_section 0))" by (rule new_area_ok) (simp_all add: new_area_def)
  then show ?thesis by (simp add: areas_inv_def small_board_fields)
qed

section \<open>Properties\<close>

text \<open>
  C13: memory is memory. On a board whose areas have been registered, a word stored to an address
  backed by plain memory is what the next load of that address returns, on a host of either byte
  order; every other word of memory keeps its value, and so do the registers.
\<close>

theorem store_load_word:
  assumes "areas_inv s" "ram_at s addr b off" "b < length (blocks s)" "4 dvd off" "off + 4 \<le> length (blocks s ! b)"
  shows "\<exists>s1. setsim_mem32 addr va v s = Inr s1 \<and> reg s1 = reg s \<and> sprs s1 = sprs s
     \<and> map_sum id fst (evalsim_mem32 addr va' s1) = Inr v
     \<and> (\<forall>addr' b' off'. ram_at s addr' b' off' \<and> b' < length (blocks s) \<and> 4 dvd off' \<and> (b', off') \<noteq> (b, off) \<longrightarrow>
          map_sum id fst (evalsim_mem32 addr' va' s1) = map_sum id fst (evalsim_mem32 addr' va' s))"
proof -
  let ?t = "touch_area addr (\<lambda>a. delayw (ops a)) (s\<lparr>cur_vadd := va\<rparr>)"
  obtain m where m: "host_write32 (words_bigendian s) (blocks s ! b) off v = Inr m"
    using assms(5) by (auto simp: host_write32_def)
  let ?s1 = "set_block b m ?t"
  have s1: "setsim_mem32 addr va v s = Inr ?s1" using setsim_ram[OF assms(1,2)] m by simp
  have inv: "areas_inv ?s1" using assms(1) by simp
  have ram: "ram_at ?s1 = ram_at s" by simp
  have val: "map_sum id fst (bind_outcome r (\<lambda>v. Inr (v, x))) = r" for r :: "u32 outcome" and x :: "'a board_scheme"
    by (cases r) simp_all
  have "map_sum id fst (evalsim_mem32 addr va' ?s1) = Inr v"
    using evalsim_ram(1)[OF inv, of addr b off va'] assms(2,3) host_write32_read32(1)[OF m] val by simp
  moreover have "map_sum id fst (evalsim_mem32 addr' va' ?s1) = map_sum id fst (evalsim_mem32 addr' va' s)"
    if "ram_at s addr' b' off'" "b' < length (blocks s)" "4 dvd off'" "(b', off') \<noteq> (b, off)" for addr' b' off'
    using evalsim_ram(1)[OF inv, of addr' b' off' va'] evalsim_ram(1)[OF assms(1) that(1), of va'] that
      host_write32_read32(2)[OF m assms(4) that(3)] val
    by (cases "b' = b") auto
  ultimately show ?thesis using s1 by auto
qed

theorem store_load_word_witness:
  "\<exists>s1. setsim_mem32 8 8 0x12345678 small_board = Inr s1
     \<and> map_sum id fst (evalsim_mem32 8 8 s1) = Inr 0x12345678"
proof -
  have "ram_at small_board 8 0 8"
    by (simp add: ram_at_def small_board_fields in_area_def new_area_def installed_ops_def memory_ops_def
      small_section_def memory_sec_start_def or_else_def mask_eq_exp_minus_1 Let_def)
  from store_load_word[OF small_board_inv this, of 8 "0x12345678" 8] show ?thesis
    by (auto simp: small_board_fields)
qed

text \<open>
  C34: the area of a memory section. At the end of a section the new area holds the base address and
  is the one a lookup finds; a byte load at any address of the area returns the byte of the block at
  the distance from the start of the area, up to the size of the section rounded up to a word. From
  there to the end of the area, which is rounded up to a power of two, a load is outside of the
  allocated block and undefined.
\<close>

theorem memory_sec_end_maps:
  assumes "areas_inv s" "memory_sec_end junk m s = Inr (Some m', s')" "cm_delayr m > 0" "unat (cm_size m) \<le> 2 ^ 31"
    "a = dev_list s' ! length (dev_list s)" "unat (addr_compare a) + unat (area_size a) < 2 ^ 32"
    "unat addr \<in> area_range a" "off = unat addr - unat (addr_compare a)"
  shows "areas_inv s' \<and> in_area (cm_base m) a \<and> fst (verify_memoryarea addr s') = Some (length (dev_list s))
     \<and> map_sum id fst (evalsim_mem8 addr va s')
        = (if off < 4 * ((unat (cm_size m) + 3) div 4)
           then Inr (guest_bytes (words_bigendian s) (map junk [0..<4 * ((unat (cm_size m) + 3) div 4)]) ! off)
           else Inl Undefined_behaviour)"
proof -
  let ?b = "length (blocks s)" and ?n = "4 * ((unat (cm_size m) + 3) div 4)"
  obtain k f where k: "k \<le> 31" "dev_list s' = dev_list s @ [new_area k (cm_base m) f]"
    "\<not> list_ex (areas_overlap (cm_base m AND NOT (mask k)) (2 ^ k)) (dev_list s)"
    and f: "readfunc8 (installed_ops f) = Some (Simmem_read ?b)"
    and s': "cur_area s' = Some (length (dev_list s))" "mc_dev_area s' = mc_dev_area s"
      "blocks s' = blocks s @ [map junk [0..<?n]]" "words_bigendian s' = words_bigendian s"
    using memory_sec_end_shape[OF assms(2,4)] assms(3) by metis
  have a: "a = new_area k (cm_base m) f" using assms(5) k(2) by (simp add: nth_append)
  have ok: "area_ok a" "in_area (cm_base m) a"
    using new_area_ok[OF k(1), of "cm_base m" f] assms(6) k(1) unfolding a by (simp_all add: new_area_def unat_power)
  have inv: "areas_inv s'"
    by (rule areas_inv_append[OF assms(1) ok(1), where mc_dev = False])
      (use k s' a in \<open>simp_all add: new_area_def\<close>)
  have "find_area addr 0 (dev_list s') = Some (length (dev_list s))"
    by (rule find_area_hit[OF inv]) (use k(2) a in_area_range[OF ok(1)] assms(7) in \<open>simp_all add: nth_append\<close>)
  then have find: "verify_memoryarea addr s' = (Some (length (dev_list s)), s'\<lparr>cur_area := Some (length (dev_list s))\<rparr>)"
    using verify_unique[OF inv] by simp
  have f': "readfunc8 (ops a) = Some (Simmem_read ?b)" using f by (simp add: a new_area_def)
  have off: "unat (addr AND size_mask a) = off" using offset_in_area[OF ok(1) assms(7)] assms(8) by simp
  let ?r = "simmem_read8 (words_bigendian s) (map junk [0..<?n]) (addr AND size_mask a)"
  have "map_sum id fst (evalsim_mem8 addr va s') = ?r"
    using find f' s' assms(5) by (cases ?r) (simp_all add: evalsim_mem8_def Let_def call_read8_def nth_append)
  also have "\<dots> = (if off < ?n then Inr (guest_bytes (words_bigendian s) (map junk [0..<?n]) ! off)
      else Inl Undefined_behaviour)"
    using xor_3_outside[of ?n off] off
    by (simp add: simmem_read8_def host_read8_def guest_nth unat_xor)
  finally show ?thesis using inv ok(2) find by simp
qed

theorem memory_sec_end_maps_witness:
  "fst (verify_memoryarea 14 small_board) = Some 0 \<and> map_sum id fst (evalsim_mem8 14 14 small_board) = Inr 13"
proof -
  have "unat (14 :: u32) \<in> area_range (dev_list small_board ! length (dev_list zero_board))"
    by (simp add: small_board_fields zero_board_inv new_area_def area_range_def)
  from memory_sec_end_maps[OF zero_board_inv(1) small_board_end _ _ refl _ this refl, of 14]
  show ?thesis
    by (simp add: small_board_fields zero_board_inv new_area_def small_section_size guest_nth xor_3_nat)
qed

end
