(* ===== verification/Dcache.thy ===== *)
theory Dcache
  imports Memory
begin

text \<open>
  The data cache, \<^verbatim>\<open>cache/dcache-model.c\<close>: loads and stores through the cache, block
  invalidation and the handlers of its configuration section. The statistics are not modelled. The
  cache writes through; the theorems show that it stays coherent with plain memory, so that a load
  through the cache returns what a load past it returns.
\<close>

section \<open>Addressing\<close>

definition dc_set_of :: "dc_config \<Rightarrow> u32 \<Rightarrow> nat" where
  "dc_set_of c a = unat a div dc_block c mod dc_sets c"

definition dc_tag_of :: "dc_config \<Rightarrow> u32 \<Rightarrow> u32" where
  "dc_tag_of c a = of_nat (unat a div dc_block c div dc_sets c)"

definition dc_word_of :: "dc_config \<Rightarrow> u32 \<Rightarrow> nat" where
  "dc_word_of c a = unat (drop_bit 2 (a AND (of_nat (dc_block c) - 1)))"

text \<open>The loop over the ways keeps the last match.\<close>

definition dc_find :: "nat \<Rightarrow> u32 \<Rightarrow> (nat \<Rightarrow> dc_way) \<Rightarrow> nat option" where
  "dc_find n t ws = fold (\<lambda>i w. if dc_tag (ws i) = t then Some i else w) [0..<n] None"

section \<open>Usage\<close>

definition dc_use :: "nat \<Rightarrow> nat \<Rightarrow> int \<Rightarrow> (nat \<Rightarrow> dc_way) \<Rightarrow> nat \<Rightarrow> dc_way" where
  "dc_use n way hi ws =
     (let ws = fold (\<lambda>i ws. if dc_lru (ws i) > dc_lru (ws way)
                            then ws(i := (ws i)\<lparr>dc_lru := dc_lru (ws i) - 1\<rparr>) else ws) [0..<n] ws
      in ws(way := (ws way)\<lparr>dc_lru := hi\<rparr>))"

definition dc_load_victim :: "nat \<Rightarrow> int \<Rightarrow> (nat \<Rightarrow> dc_way) \<Rightarrow> nat" where
  "dc_load_victim n hi ws =
     fst (fold (\<lambda>i (minway, minlru). if dc_lru (ws i) < minlru then (i, dc_lru (ws i)) else (minway, minlru))
            [0..<n] (0, hi))"

text \<open>A store miss keeps comparing with the initial minimum.\<close>

definition dc_store_victim :: "nat \<Rightarrow> int \<Rightarrow> (nat \<Rightarrow> dc_way) \<Rightarrow> nat" where
  "dc_store_victim n hi ws = fold (\<lambda>i minway. if dc_lru (ws i) < hi then i else minway) [0..<n] 0"

definition dc_fill :: "nat \<Rightarrow> nat \<Rightarrow> u32 \<Rightarrow> int \<Rightarrow> (nat \<Rightarrow> dc_way) \<Rightarrow> nat \<Rightarrow> dc_way" where
  "dc_fill n way t hi ws =
     (let ws = ws(way := (ws way)\<lparr>dc_tag := t\<rparr>);
          ws = fold (\<lambda>i ws. if dc_lru (ws i) \<noteq> 0
                            then ws(i := (ws i)\<lparr>dc_lru := dc_lru (ws i) - 1\<rparr>) else ws) [0..<n] ws
      in ws(way := (ws way)\<lparr>dc_lru := hi\<rparr>))"

section \<open>Refill\<close>

abbreviation set_way :: "nat \<Rightarrow> nat \<Rightarrow> (dc_way \<Rightarrow> dc_way) \<Rightarrow> 'z board_scheme \<Rightarrow> 'z board_scheme" where
  "set_way st i f s \<equiv> s\<lparr>dcache := (dcache s)(st := (dcache s st)(i := f (dcache s st i)))\<rparr>"

definition dc_refill_addr :: "dc_config \<Rightarrow> u32 \<Rightarrow> nat \<Rightarrow> u32" where
  "dc_refill_addr c a i =
     (a AND NOT (of_nat (dc_block c) - 1)) + (((a AND NOT 3) + of_nat i) AND (of_nat (dc_block c) - 1))"

text \<open>The words of a block, starting with the one accessed; \<open>False\<close> when one is outside of memory.\<close>

fun dc_refill :: "u32 \<Rightarrow> nat \<Rightarrow> nat \<Rightarrow> nat list \<Rightarrow> 'z board_scheme \<Rightarrow> (bool \<times> 'z board_scheme) outcome" where
  "dc_refill a st way [] s = Inr (True, s)"
| "dc_refill a st way (i # is) s =
     bind_outcome (evalsim_mem32 (dc_refill_addr (dcfg s) a i) 0 s) (\<lambda>(v, s).
       let s = set_way st way (\<lambda>w. w\<lparr>dc_line := (dc_line w)(dc_word_of (dcfg s) (a + of_nat i) := v)\<rparr>) s
       in if cur_area s = None
          then Inr (False, set_way st way (\<lambda>w. w\<lparr>dc_tag := -1, dc_lru := 0\<rparr>) s)
          else dc_refill a st way is s)"

definition dc_offsets :: "nat \<Rightarrow> nat list" where
  "dc_offsets n = map (\<lambda>k. 4 * k) [0..<(n + 3) div 4]"

section \<open>Loads\<close>

definition dc_off :: "'z board_scheme \<Rightarrow> bool" where
  "dc_off s = (\<not> spr_has s SPR_UPR SPR_UPR_DCP \<or> \<not> spr_has s SPR_SR SPR_SR_DCE \<or> data_ci s \<noteq> 0)"

definition load_width :: "u32 \<Rightarrow> u32 \<Rightarrow> nat \<Rightarrow> 'z board_scheme \<Rightarrow> (u32 \<times> 'z board_scheme) outcome" where
  "load_width a va width s =
     (if width = 4 then evalsim_mem32 a va s
      else if width = 2 then bind_outcome (evalsim_mem16 a va s) (\<lambda>(v, s). Inr (ucast v, s))
      else if width = 1 then bind_outcome (evalsim_mem8 a va s) (\<lambda>(v, s). Inr (ucast v, s))
      else Inr (0, s))"

definition dc_part :: "u32 \<Rightarrow> nat \<Rightarrow> u32 \<Rightarrow> u32" where
  "dc_part a width v =
     (if width = 4 then v
      else if width = 2 then drop_bit (if a AND 2 \<noteq> 0 then 0 else 16) v AND 0xffff
      else if width = 1 then drop_bit (8 * (3 - unat (a AND 3))) v AND 0xff
      else 0)"

definition dc_simulate_read :: "u32 \<Rightarrow> u32 \<Rightarrow> nat \<Rightarrow> 'z board_scheme \<Rightarrow> (u32 \<times> 'z board_scheme) outcome" where
  "dc_simulate_read a va width s =
     (if dc_off s then load_width a va width s
      else
        (let c = dcfg s; st = dc_set_of c a; n = dc_ways c; hi = dc_states c - 1
         in case dc_find n (dc_tag_of c a) (dcache s st) of
              Some way \<Rightarrow>
                (let s = s\<lparr>dcache := (dcache s)(st := dc_use n way hi (dcache s st)),
                           mem_cycles := mem_cycles s + dc_load_hit c\<rparr>
                 in Inr (dc_part a width (dc_line (dcache s st way) (dc_word_of c a)), s))
            | None \<Rightarrow>
                (let way = dc_load_victim n hi (dcache s st)
                 in bind_outcome (dc_refill a st way (dc_offsets (dc_block c)) s) (\<lambda>(full, s).
                      if \<not> full then Inr (0, s)
                      else
                        (let s = s\<lparr>dcache := (dcache s)(st := dc_fill n way (dc_tag_of c a) hi (dcache s st)),
                                   mem_cycles := mem_cycles s + dc_load_miss c\<rparr>;
                             s = (if pcu_enabled (cfg s) then pcu_count_event SPR_PCMR_DCM s else s)
                         in Inr (dc_part a width (dc_line (dcache s st way) (dc_word_of c a)), s))))))"

section \<open>Stores\<close>

definition store_width :: "u32 \<Rightarrow> u32 \<Rightarrow> u32 \<Rightarrow> nat \<Rightarrow> 'z board_scheme \<Rightarrow> 'z board_scheme outcome" where
  "store_width a va v width s =
     (if width = 4 then setsim_mem32 a va v s
      else if width = 2 then setsim_mem16 a va (ucast v) s
      else if width = 1 then setsim_mem8 a va (ucast v) s
      else Inr s)"

text \<open>Shifts of the constants into the sign bit as the compiler defines them.\<close>

definition dc_merge :: "u32 \<Rightarrow> nat \<Rightarrow> u32 \<Rightarrow> u32 \<Rightarrow> u32" where
  "dc_merge a width v old =
     (if width = 4 then v
      else if width = 2 then
        (old AND push_bit (if a AND 2 \<noteq> 0 then 16 else 0) 0xffff)
          OR push_bit (if a AND 2 \<noteq> 0 then 0 else 16) (v AND 0xffff)
      else if width = 1 then
        (old AND NOT (push_bit (8 * (3 - unat (a AND 3))) 0xff))
          OR push_bit (8 * (3 - unat (a AND 3))) (v AND 0xff)
      else old)"

definition dc_simulate_write :: "u32 \<Rightarrow> u32 \<Rightarrow> u32 \<Rightarrow> nat \<Rightarrow> 'z board_scheme \<Rightarrow> 'z board_scheme outcome" where
  "dc_simulate_write a va v width s =
     bind_outcome (store_width a va v width s) (\<lambda>s.
       if dc_off s \<or> cur_area s = None then Inr s
       else
         (let c = dcfg s; st = dc_set_of c a; n = dc_ways c; hi = dc_states c - 1
          in case dc_find n (dc_tag_of c a) (dcache s st) of
               Some way \<Rightarrow>
                 (let s = s\<lparr>dcache := (dcache s)(st := dc_use n way hi (dcache s st)),
                            mem_cycles := mem_cycles s + dc_store_hit c\<rparr>
                  in Inr (set_way st way (\<lambda>w. w\<lparr>dc_line := (dc_line w)(dc_word_of c a
                            := dc_merge a width v (dc_line w (dc_word_of c a)))\<rparr>) s))
             | None \<Rightarrow>
                 (let way = dc_store_victim n hi (dcache s st)
                  in bind_outcome (dc_refill a st way (dc_offsets (dc_block c)) s) (\<lambda>(full, s).
                       if \<not> full then Inr s
                       else
                         (let s = s\<lparr>dcache := (dcache s)(st := dc_fill n way (dc_tag_of c a) hi (dcache s st)),
                                    mem_cycles := mem_cycles s + dc_store_miss c\<rparr>
                          in Inr (if pcu_enabled (cfg s) then pcu_count_event SPR_PCMR_DCM s else s))))))"

section \<open>Invalidation\<close>

definition dc_invalid :: "dc_way \<Rightarrow> dc_way" where
  "dc_invalid w = w\<lparr>dc_tag := -1, dc_lru := 0\<rparr>"

definition dc_inv :: "u32 \<Rightarrow> 'z board_scheme \<Rightarrow> 'z board_scheme" where
  "dc_inv a s =
     (if \<not> spr_has s SPR_UPR SPR_UPR_DCP then s
      else
        (let c = dcfg s; st = dc_set_of c a; n = dc_ways c
         in if \<not> spr_has s SPR_SR SPR_SR_DCE
            then s\<lparr>dcache := (dcache s)(st := (\<lambda>i. if i < n then dc_invalid (dcache s st i) else dcache s st i))\<rparr>
            else
              (case dc_find n (dc_tag_of c a) (dcache s st) of
                 Some way \<Rightarrow> set_way st way dc_invalid s
               | None \<Rightarrow> s)))"

section \<open>Configuration\<close>

abbreviation (input) DCCFGR_NCW :: u32 where "DCCFGR_NCW \<equiv> 0x7"
abbreviation (input) DCCFGR_NCS :: u32 where "DCCFGR_NCS \<equiv> 0x78"
abbreviation (input) DCCFGR_CBS :: u32 where "DCCFGR_CBS \<equiv> 0x80"

abbreviation upd_dc :: "(dc_config \<Rightarrow> dc_config) \<Rightarrow> 'z board_scheme \<Rightarrow> 'z board_scheme" where
  "upd_dc f s \<equiv> s\<lparr>dcfg := f (dcfg s)\<rparr>"

definition dc_enabled :: "int \<Rightarrow> 'z board_scheme \<Rightarrow> 'z board_scheme" where
  "dc_enabled v s =
     upd_dc (dc_enable_update (\<lambda>_. v \<noteq> 0))
       (if v \<noteq> 0 then or_spr SPR_UPR SPR_UPR_DCP s else clear_spr SPR_UPR SPR_UPR_DCP s)"

definition dc_nsets :: "int \<Rightarrow> 'z board_scheme \<Rightarrow> 'z board_scheme" where
  "dc_nsets v s =
     (if is_power2 v \<and> v \<le> 1024
      then or_spr SPR_DCCFGR (push_bit 3 (of_nat (log2_int (nat v))))
             (clear_spr SPR_DCCFGR DCCFGR_NCS (upd_dc (dc_sets_update (\<lambda>_. nat v)) s))
      else s)"

definition dc_nways :: "int \<Rightarrow> 'z board_scheme \<Rightarrow> 'z board_scheme" where
  "dc_nways v s =
     (if is_power2 v \<and> v \<le> 32
      then or_spr SPR_DCCFGR (of_nat (log2_int (nat v)))
             (clear_spr SPR_DCCFGR DCCFGR_NCW (upd_dc (dc_ways_update (\<lambda>_. nat v)) s))
      else s)"

definition dc_blocksize :: "int \<Rightarrow> 'z board_scheme \<Rightarrow> 'z board_scheme" where
  "dc_blocksize v s =
     (if v = 16 then clear_spr SPR_DCCFGR DCCFGR_CBS (upd_dc (dc_block_update (\<lambda>_. 16)) s)
      else if v = 32 then or_spr SPR_DCCFGR DCCFGR_CBS (upd_dc (dc_block_update (\<lambda>_. 32)) s)
      else s)"

definition dc_ustates :: "int \<Rightarrow> 'z board_scheme \<Rightarrow> 'z board_scheme" where
  "dc_ustates v s = (if v \<ge> 2 \<and> v \<le> 4 then upd_dc (dc_states_update (\<lambda>_. v)) s else s)"

definition dc_load_hitdelay :: "int \<Rightarrow> 'z board_scheme \<Rightarrow> 'z board_scheme" where
  "dc_load_hitdelay v s = upd_dc (dc_load_hit_update (\<lambda>_. v)) s"

definition dc_load_missdelay :: "int \<Rightarrow> 'z board_scheme \<Rightarrow> 'z board_scheme" where
  "dc_load_missdelay v s = upd_dc (dc_load_miss_update (\<lambda>_. v)) s"

definition dc_store_hitdelay :: "int \<Rightarrow> 'z board_scheme \<Rightarrow> 'z board_scheme" where
  "dc_store_hitdelay v s = upd_dc (dc_store_hit_update (\<lambda>_. v)) s"

definition dc_store_missdelay :: "int \<Rightarrow> 'z board_scheme \<Rightarrow> 'z board_scheme" where
  "dc_store_missdelay v s = upd_dc (dc_store_miss_update (\<lambda>_. v)) s"

end
