(* ===== verification/Coherence.thy ===== *)
theory Coherence
  imports Dcache
begin

text \<open>
  Coherence of the data cache: the lines of the cache hold the words of plain memory, every load and
  store keeps them so, and the cache cannot be seen by loads of any width.
\<close>

section \<open>Words and their parts\<close>

text \<open>The word of the simulated machine at an offset of a block.\<close>

definition word_at :: "bool \<Rightarrow> u8 list \<Rightarrow> nat \<Rightarrow> u32" where
  "word_at be m off = join32 (guest_bytes be m ! off) (guest_bytes be m ! (off + 1))
     (guest_bytes be m ! (off + 2)) (guest_bytes be m ! (off + 3))"

lemma ff_mask: "(0xff :: u32) = mask 8" "(0xffff :: u32) = mask 16"
  by (simp_all add: mask_eq_exp_minus_1)

lemma nat_less_4: "k < 4 \<Longrightarrow> k = 0 \<or> k = 1 \<or> k = 2 \<or> k = (3 :: nat)"
  by linarith

lemma join32_byte:
  assumes "k < 4"
  shows "drop_bit (8 * (3 - k)) (join32 b0 b1 b2 b3) AND 0xff = ucast ([b0, b1, b2, b3] ! k)"
proof (rule bit_word_eqI)
  fix n assume "n < LENGTH(32)"
  then show "bit (drop_bit (8 * (3 - k)) (join32 b0 b1 b2 b3) AND 0xff) n = bit (ucast ([b0, b1, b2, b3] ! k) :: u32) n"
    using nat_less_4[OF assms]
    by (elim disjE) (auto simp: join32_def ff_mask bit_simps dest: bit_imp_le_length)
qed

lemma join32_half:
  "drop_bit 16 (join32 b0 b1 b2 b3) AND 0xffff = ucast (join16 b0 b1)"
  "join32 b0 b1 b2 b3 AND 0xffff = ucast (join16 b2 b3)"
  by (rule bit_word_eqI; auto simp: join32_def join16_def ff_mask bit_simps dest: bit_imp_le_length)+

lemma join32_merge_byte:
  assumes "k < 4"
  shows "(join32 b0 b1 b2 b3 AND NOT (push_bit (8 * (3 - k)) 0xff)) OR push_bit (8 * (3 - k)) (v AND 0xff)
     = join32 (if k = 0 then ucast v else b0) (if k = 1 then ucast v else b1)
         (if k = 2 then ucast v else b2) (if k = 3 then ucast v else b3)"
proof (rule bit_word_eqI)
  fix n assume n: "n < LENGTH(32)"
  show "bit ((join32 b0 b1 b2 b3 AND NOT (push_bit (8 * (3 - k)) 0xff)) OR push_bit (8 * (3 - k)) (v AND 0xff)) n
     = bit (join32 (if k = 0 then ucast v else b0) (if k = 1 then ucast v else b1)
         (if k = 2 then ucast v else b2) (if k = 3 then ucast v else b3)) n"
    using nat_less_4[OF assms] n
    by (elim disjE) (auto simp: join32_def ff_mask bit_simps dest: bit_imp_le_length)
qed

lemma join32_merge_half:
  "(join32 b0 b1 b2 b3 AND push_bit 16 0xffff) OR (v AND 0xffff) = join32 b0 b1 (ucast (drop_bit 8 v)) (ucast v)"
  "(join32 b0 b1 b2 b3 AND 0xffff) OR push_bit 16 (v AND 0xffff) = join32 (ucast (drop_bit 8 v)) (ucast v) b2 b3"
proof -
  show "(join32 b0 b1 b2 b3 AND push_bit 16 0xffff) OR (v AND 0xffff) = join32 b0 b1 (ucast (drop_bit 8 v)) (ucast v)"
    by (rule bit_word_eqI; auto simp: join32_def ff_mask bit_simps dest: bit_imp_le_length)
  show "(join32 b0 b1 b2 b3 AND 0xffff) OR push_bit 16 (v AND 0xffff) = join32 (ucast (drop_bit 8 v)) (ucast v) b2 b3"
  proof (rule bit_word_eqI)
    fix n assume "n < LENGTH(32)"
    then consider "n < 24" | k where "n = 24 + k" "k < 8"
      using nat_le_iff_add[of 24 n] by fastforce
    then show "bit ((join32 b0 b1 b2 b3 AND 0xffff) OR push_bit 16 (v AND 0xffff)) n
        = bit (join32 (ucast (drop_bit 8 v)) (ucast v) b2 b3) n"
      by cases (auto simp: join32_def ff_mask bit_simps dest: bit_imp_le_length)
  qed
qed

lemma half_bytes:
  fixes v :: u32
  shows "(ucast (drop_bit 8 (ucast v :: u16)) :: u8) = ucast (drop_bit 8 v)" "(ucast (ucast v :: u16) :: u8) = ucast v"
  by (rule bit_word_eqI; auto simp: bit_simps dest: bit_imp_le_length)+

section \<open>Blocks and addresses\<close>

lemma unat_and_mask: "unat (a AND mask n :: u32) = unat a mod 2 ^ n"
proof -
  have "unat (a AND mask n) = take_bit n (unat a)"
    by (simp only: take_bit_eq_mask[symmetric] unsigned_take_bit_eq)
  then show ?thesis by (simp only: take_bit_eq_mod)
qed

lemma unat_and_not_3: "unat (a AND NOT 3 :: u32) = 4 * (unat a div 4)"
  using unat_and_not_mask[of a 2] by (simp add: mask_eq_exp_minus_1)

text \<open>What the configuration handlers accept, once a block size has been set.\<close>

definition dc_wf :: "dc_config \<Rightarrow> bool" where
  "dc_wf c \<longleftrightarrow> (dc_block c = 16 \<or> dc_block c = 32) \<and> 0 < dc_sets c \<and> 0 < dc_ways c"

lemma block_power:
  assumes "dc_wf c"
  obtains n where "dc_block c = 2 ^ n" "dc_block c = 4 * 2 ^ (n - 2)" "n \<le> 32" "of_nat (dc_block c) - 1 = (mask n :: u32)"
proof (cases "dc_block c = 16")
  case True
  then show ?thesis using that[of 4] by (simp add: mask_eq_exp_minus_1)
next
  case False
  then show ?thesis using assms that[of 5] by (simp add: dc_wf_def mask_eq_exp_minus_1)
qed

lemma word_of_unat:
  assumes "dc_wf c"
  shows "dc_word_of c a = unat a mod dc_block c div 4"
proof -
  obtain n where n: "dc_block c = 2 ^ n" "of_nat (dc_block c) - 1 = (mask n :: u32)"
    using assms by (rule block_power)
  show ?thesis unfolding dc_word_of_def n(2) unat_drop_bit unat_and_mask by (simp add: n(1))
qed

lemma in_block: "dc_wf c \<Longrightarrow> dc_block c * (unat (a :: u32) div dc_block c) + dc_block c \<le> 2 ^ 32"
proof -
  assume "dc_wf c"
  then obtain n where n: "dc_block c = 2 ^ n" "n \<le> 32" by (rule block_power)
  have "unat a < 2 ^ (32 - n) * 2 ^ n"
    using unsigned_less[of a, where ?'a = nat] n(2) by (simp flip: power_add)
  then have "unat a div 2 ^ n < 2 ^ (32 - n)" by (simp add: less_mult_imp_div_less)
  then have "2 ^ n * Suc (unat a div 2 ^ n) \<le> 2 ^ n * 2 ^ (32 - n)" by (intro mult_le_mono2) simp
  then show ?thesis using n by (simp flip: power_add)
qed

lemma refill_addr:
  assumes "dc_wf c" "4 dvd i" "i < dc_block c"
  shows "unat (dc_refill_addr c a i)
      = dc_block c * (unat a div dc_block c) + 4 * ((unat a div 4 + i div 4) mod (dc_block c div 4))"
    and "dc_word_of c (a + of_nat i) = (unat a div 4 + i div 4) mod (dc_block c div 4)"
proof -
  obtain n where n: "dc_block c = 2 ^ n" "dc_block c = 4 * 2 ^ (n - 2)" "n \<le> 32"
    "of_nat (dc_block c) - 1 = (mask n :: u32)" using assms(1) by (rule block_power)
  have dv: "(2::nat) ^ n dvd 2 ^ 32" using n(3) by (rule le_imp_power_dvd)
  have i: "i < 2 ^ 32" using assms(3) n(1,3) power_increasing[of n 32 "2::nat"] by simp
  then have ui: "unat (of_nat i :: u32) = i" by (simp add: unat_of_nat)
  have m4: "x mod 2 ^ n = 4 * (x div 4 mod 2 ^ (n - 2)) + x mod 4" for x :: nat
    using mod_mult2_eq[of x 4 "2 ^ (n - 2)"] n(1,2) by simp
  have q: "dc_block c div 4 = 2 ^ (n - 2)" using n(2) by simp
  obtain j where j: "i = 4 * j" using assms(2) by blast
  have "unat (((a AND NOT 3) + of_nat i) AND mask n) = (4 * (unat a div 4) + i) mod 2 ^ n"
    using dv by (simp add: unat_and_mask unat_word_ariths unat_and_not_3[simplified] ui mod_mod_cancel)
  also have "\<dots> = 4 * ((unat a div 4 + i div 4) mod 2 ^ (n - 2))"
    unfolding m4 j by simp
  finally have r: "unat (((a AND NOT 3) + of_nat i) AND mask n) = 4 * ((unat a div 4 + i div 4) mod 2 ^ (n - 2))" .
  moreover have "4 * ((unat a div 4 + i div 4) mod 2 ^ (n - 2)) < dc_block c" unfolding n(2) by simp
  ultimately show "unat (dc_refill_addr c a i)
      = dc_block c * (unat a div dc_block c) + 4 * ((unat a div 4 + i div 4) mod (dc_block c div 4))"
    using in_block[OF assms(1), of a] n(1)
    unfolding dc_refill_addr_def n(4) q by (simp add: unat_word_ariths unat_and_not_mask)
  have "unat (a + of_nat i) mod 2 ^ n = (unat a + i) mod 2 ^ n"
    using dv by (simp add: unat_word_ariths ui mod_mod_cancel)
  then have "unat (a + of_nat i) mod 2 ^ n div 4 = (unat a + i) div 4 mod 2 ^ (n - 2)"
    unfolding m4[of "unat a + i"] by simp
  then show "dc_word_of c (a + of_nat i) = (unat a div 4 + i div 4) mod (dc_block c div 4)"
    unfolding word_of_unat[OF assms(1)] n(1) q[unfolded n(1)] j by (simp add: add.commute)
qed

text \<open>Set, tag and word of the block determine the aligned address.\<close>

lemma unat_tag_of: "unat (dc_tag_of c a) = unat a div dc_block c div dc_sets c"
proof -
  have "unat a < 2 ^ LENGTH(32)" by (rule unsigned_less)
  then have "unat a div dc_block c div dc_sets c < 2 ^ LENGTH(32)" by (meson div_le_dividend le_less_trans)
  then show ?thesis unfolding dc_tag_of_def unat_of_nat by (rule mod_less)
qed

lemma same_block:
  assumes "dc_set_of c a = dc_set_of c a'" "dc_tag_of c a = dc_tag_of c a'"
  shows "unat a div dc_block c = unat a' div dc_block c"
proof -
  have "unat a div dc_block c div dc_sets c = unat a' div dc_block c div dc_sets c"
    using assms(2) unat_tag_of by metis
  with assms(1) show ?thesis unfolding dc_set_of_def by (metis div_mult_mod_eq)
qed

lemma block_word_addr:
  assumes "dc_wf c" "unat a div dc_block c = unat a' div dc_block c" "dc_word_of c a = dc_word_of c a'"
  shows "a AND NOT 3 = a' AND NOT 3"
proof -
  obtain n where n: "dc_block c = 4 * 2 ^ (n - 2)" using assms(1) by (rule block_power)
  have "unat x div 4 = unat x div dc_block c * 2 ^ (n - 2) + dc_word_of c x" for x :: u32
    unfolding word_of_unat[OF assms(1)] n
    using div_mult_mod_eq[of "unat x div 4" "2 ^ (n - 2)"] by (simp add: div_mult2_eq mod_mult2_eq)
  then have "unat a div 4 = unat a' div 4" using assms(2,3) by simp
  then show ?thesis by (simp only: word_unat_eq_iff unat_and_not_3)
qed

lemma tag_not_invalid:
  assumes "dc_wf c"
  shows "dc_tag_of c a \<noteq> -1"
proof
  assume "dc_tag_of c a = -1"
  then have "unat a div dc_block c div dc_sets c = 2 ^ 32 - 1" using unat_tag_of[of c a]
    by (simp add: unsigned_minus_1_eq_mask mask_eq_exp_minus_1)
  moreover have "unat a div dc_block c div dc_sets c \<le> unat a div dc_block c" by simp
  moreover have "unat a div dc_block c \<le> unat a div 16"
    using assms by (intro div_le_mono2) (auto simp: dc_wf_def)
  moreover have "unat a < 2 ^ 32" using unsigned_less[of a, where ?'a = nat] by simp
  ultimately show False by simp
qed

section \<open>Plain memory\<close>

text \<open>The four bytes of the word at an address are plain memory with the given value.\<close>

definition ram_word :: "'z board_scheme \<Rightarrow> u32 \<Rightarrow> u32 \<Rightarrow> bool" where
  "ram_word s a v \<longleftrightarrow> (\<exists>b off. (\<forall>k<4. ram_at s ((a AND NOT 3) + of_nat k) b (off + k))
     \<and> b < length (blocks s) \<and> 4 dvd off \<and> 4 dvd length (blocks s ! b) \<and> off + 4 \<le> length (blocks s ! b)
     \<and> v = word_at (words_bigendian s) (blocks s ! b) off)"

text \<open>No two addresses share a byte of memory.\<close>

definition ram_inj :: "'z board_scheme \<Rightarrow> bool" where
  "ram_inj s \<longleftrightarrow> (\<forall>a a' b off. ram_at s a b off \<and> ram_at s a' b off \<longrightarrow> a = a')"

lemma ram_at_unique: "ram_at s a b off \<Longrightarrow> ram_at s a b' off' \<Longrightarrow> b' = b \<and> off' = off"
  by (auto simp: ram_at_def)

lemma ram_at_offset: "ram_at s a b off \<Longrightarrow> off < 2 ^ 32"
  using unsigned_less[of "a AND m" for m, where ?'a = nat] by (auto simp: ram_at_def)

lemma ram_word_cong:
  assumes "dev_list s' = dev_list s" "blocks s' = blocks s" "words_bigendian s' = words_bigendian s"
  shows "ram_word s' = ram_word s" "ram_inj s' = ram_inj s"
proof -
  have "ram_at s' = ram_at s" using assms(1) by (simp add: ram_at_def fun_eq_iff)
  then show "ram_word s' = ram_word s" "ram_inj s' = ram_inj s"
    using assms(2,3) by (simp_all add: ram_word_def ram_inj_def fun_eq_iff)
qed

lemma host_read32_word:
  assumes "4 dvd length m" "4 dvd off" "off + 4 \<le> length m" "off < 2 ^ 32"
  shows "host_read32 be m off = Inr (word_at be m off)"
proof -
  have "unat (of_nat off :: u32) = off" using assms(4) by (simp add: unat_of_nat)
  then show ?thesis
    using read_layout(3)[OF assms(1), of "of_nat off" be] assms by (simp add: simmem_read32_def word_at_def)
qed

text \<open>The address of a part of a word.\<close>

lemma part_address: "(a AND NOT 3) + of_nat (unat a mod 4) = (a :: u32)"
proof -
  have "unat ((a AND NOT 3) + of_nat (unat a mod 4)) = 4 * (unat a div 4) + unat a mod 4"
    by (subst unat_add_in_word) (simp_all add: unat_and_not_3[simplified])
  then show ?thesis by (simp add: word_unat_eq_iff)
qed

lemma and_3_mod: "unat (a AND 3 :: u32) = unat a mod 4"
  using unat_and_mask[of a 2] by (simp add: mask_eq_exp_minus_1)

lemma and_2_half:
  assumes "even (unat (a :: u32))"
  shows "(a AND 2 \<noteq> 0) = (unat a mod 4 = 2)" "unat a mod 4 = 0 \<or> unat a mod 4 = 2"
proof -
  show r: "unat a mod 4 = 0 \<or> unat a mod 4 = 2" using assms by presburger
  have "(a AND 2 \<noteq> 0) = bit (unat a) 1"
    using and_exp_eq_0_iff_not_bit[of a 1] by (simp add: bit_unsigned_iff)
  also have "\<dots> = odd (unat a div 2)" by (simp add: bit_iff_odd)
  also have "\<dots> = (unat a mod 4 = 2)" using r by presburger
  finally show "(a AND 2 \<noteq> 0) = (unat a mod 4 = 2)" .
qed


text \<open>The kinds of access, at their alignment.\<close>

definition aligned :: "u32 \<Rightarrow> nat \<Rightarrow> bool" where
  "aligned a width \<longleftrightarrow> (width = 1 \<or> width = 2 \<or> width = 4) \<and> width dvd unat a"

lemma evalsim_ram16:
  assumes "areas_inv s" "ram_at s addr b off"
  shows "evalsim_mem16 addr va s =
      bind_outcome (simmem_read16 (words_bigendian s) (blocks s ! b) (of_nat off))
        (\<lambda>v. Inr (v, touch_area addr (\<lambda>a. delayr (ops a)) s))"
  using assms(2) unfolding evalsim_mem16_def verify_unique[OF assms(1)] ram_at_def
  by (auto simp: call_read16_def touch_area_def Let_def)

lemma setsim_ram_part:
  assumes "areas_inv s" "ram_at s addr b off"
  shows "setsim_mem16 addr va v2 s =
      bind_outcome (simmem_write16 (words_bigendian s) (blocks s ! b) (of_nat off) v2)
        (\<lambda>m. Inr (set_block b m (touch_area addr (\<lambda>a. delayw (ops a)) (s\<lparr>cur_vadd := va\<rparr>))))"
    and "setsim_mem8 addr va v1 s =
      bind_outcome (simmem_write8 (words_bigendian s) (blocks s ! b) (of_nat off) v1)
        (\<lambda>m. Inr (set_block b m (touch_area addr (\<lambda>a. delayw (ops a)) (s\<lparr>cur_vadd := va\<rparr>))))"
  using assms(2) unfolding setsim_mem16_def setsim_mem8_def verify_unique[OF assms(1)] ram_at_def
  by (auto simp: call_write16_def call_write8_def touch_area_def vadd_area_swap Let_def)

lemma ram_wordE:
  assumes "ram_word s a v"
  obtains b off where "ram_at s a b (off + unat a mod 4)" "ram_at s (a AND NOT 3) b off"
    "b < length (blocks s)" "4 dvd off" "4 dvd length (blocks s ! b)" "off + 4 \<le> length (blocks s ! b)"
    "v = word_at (words_bigendian s) (blocks s ! b) off" "off + unat a mod 4 < 2 ^ 32" "off < 2 ^ 32"
    "\<forall>k<4. ram_at s ((a AND NOT 3) + of_nat k) b (off + k)"
proof -
  obtain b off where *: "\<And>k. k < 4 \<Longrightarrow> ram_at s ((a AND NOT 3) + of_nat k) b (off + k)"
    "b < length (blocks s)" "4 dvd off" "4 dvd length (blocks s ! b)" "off + 4 \<le> length (blocks s ! b)"
    "v = word_at (words_bigendian s) (blocks s ! b) off"
    using assms unfolding ram_word_def by blast
  have at: "ram_at s a b (off + unat a mod 4)" using *(1)[of "unat a mod 4"] part_address[of a] by simp
  have at0: "ram_at s (a AND NOT 3) b off" using *(1)[of 0] by simp
  show thesis by (rule that[OF at at0 *(2-6) ram_at_offset[OF at] ram_at_offset[OF at0]])
    (use *(1) in blast)
qed

lemma unat_offset: "off < 2 ^ 32 \<Longrightarrow> unat (of_nat off :: u32) = off"
  by (simp add: unat_of_nat)

lemma load_ram:
  assumes "areas_inv s" "ram_word s a v" "aligned a width"
  shows "load_width a va width s = Inr (dc_part a width v, touch_area a (\<lambda>a. delayr (ops a)) s)"
proof -
  let ?be = "words_bigendian s"
  obtain b off where r: "ram_at s a b (off + unat a mod 4)"
    "b < length (blocks s)" "4 dvd off" "4 dvd length (blocks s ! b)" "off + 4 \<le> length (blocks s ! b)"
    "v = word_at ?be (blocks s ! b) off" "off + unat a mod 4 < 2 ^ 32" "off < 2 ^ 32"
    using assms(2) by (rule ram_wordE)
  let ?m = "blocks s ! b"
  consider "width = 4" "unat a mod 4 = 0" | "width = 2" "even (unat a)" | "width = 1"
    using assms(3) unfolding aligned_def by (auto simp: dvd_eq_mod_eq_0)
  then show ?thesis
  proof cases
    case 1
    then show ?thesis
      using evalsim_ram(1)[OF assms(1) r(1), of va] host_read32_word[OF r(4,3,5,8), of ?be] r(6)
      by (simp add: load_width_def dc_part_def)
  next
    case 2
    have o: "unat (of_nat (off + unat a mod 4) :: u32) = off + unat a mod 4" using r(7) by (rule unat_offset)
    have "simmem_read16 ?be ?m (of_nat (off + unat a mod 4)) = Inr (join16 (guest_bytes ?be ?m ! (off + unat a mod 4))
        (guest_bytes ?be ?m ! (off + unat a mod 4 + 1)))"
      using read_layout(2)[OF r(4), of "of_nat (off + unat a mod 4)" ?be] r(3,5) and_2_half(2)[OF 2(2)] unfolding o by auto
    then show ?thesis
      using evalsim_ram16[OF assms(1) r(1), of va] 2(1) and_2_half[OF 2(2)] r(6)
      by (auto simp: load_width_def dc_part_def word_at_def join32_half numeral_3_eq_3)
  next
    case 3
    have k: "unat a mod 4 < 4" by simp
    have o: "unat (of_nat (off + unat a mod 4) :: u32) = off + unat a mod 4" using r(7) by (rule unat_offset)
    have "simmem_read8 ?be ?m (of_nat (off + unat a mod 4)) = Inr (guest_bytes ?be ?m ! (off + unat a mod 4))"
      using read_layout(1)[OF r(4), of "of_nat (off + unat a mod 4)" ?be] r(5) k unfolding o by simp
    moreover have "dc_part a width v = ucast (guest_bytes ?be ?m ! (off + unat a mod 4))"
      using join32_byte[OF k] nat_less_4[OF k] 3 r(6) by (auto simp: dc_part_def and_3_mod word_at_def)
    ultimately show ?thesis
      using evalsim_ram(2)[OF assms(1) r(1), of va] 3 by (simp add: load_width_def)
  qed
qed


text \<open>A store changes one word of the block as \<^verbatim>\<open>dc_simulate_write\<close> changes the line.\<close>

lemma word_at_other:
  assumes "\<And>j. j div 4 \<noteq> off div 4 \<Longrightarrow> guest_bytes be m' ! j = guest_bytes be m ! j"
    and "4 dvd off" "4 dvd off'" "off' \<noteq> off"
  shows "word_at be m' off' = word_at be m off'"
proof -
  have "(off' + i) div 4 \<noteq> off div 4" if "i < 4" for i using assms(2-4) that by (auto elim!: dvdE)
  from this[of 0] this[of 1] this[of 2] this[of 3] show ?thesis
    unfolding word_at_def by (simp add: assms(1))
qed

definition write_width :: "bool \<Rightarrow> u8 list \<Rightarrow> nat \<Rightarrow> u32 \<Rightarrow> nat \<Rightarrow> u8 list outcome" where
  "write_width be m off v width =
     (if width = 4 then host_write32 be m off v
      else if width = 2 then simmem_write16 be m (of_nat off) (ucast v)
      else simmem_write8 be m (of_nat off) (ucast v))"

lemma store_width_ram:
  assumes "areas_inv s" "ram_at s a b off" "aligned a width"
  shows "store_width a va v width s =
      bind_outcome (write_width (words_bigendian s) (blocks s ! b) off v width)
        (\<lambda>m. Inr (set_block b m (touch_area a (\<lambda>a. delayw (ops a)) (s\<lparr>cur_vadd := va\<rparr>))))"
  using assms(3) setsim_ram[OF assms(1,2)] setsim_ram_part[OF assms(1,2)]
  by (auto simp: store_width_def write_width_def aligned_def)

lemma write_width_word:
  assumes al: "aligned a width" and m: "4 dvd length m" "4 dvd off" "off + 4 \<le> length m" "off + unat a mod 4 < 2 ^ 32"
  shows "\<exists>m'. write_width be m (off + unat a mod 4) v width = Inr m' \<and> length m' = length m
     \<and> word_at be m' off = dc_merge a width v (word_at be m off)
     \<and> (\<forall>j. j div 4 \<noteq> off div 4 \<longrightarrow> guest_bytes be m' ! j = guest_bytes be m ! j)"
proof -
  let ?k = "unat a mod 4" and ?g = "guest_bytes be m"
  have o: "unat (of_nat (off + ?k) :: u32) = off + ?k" using m(4) by (rule unat_offset)
  have len: "length m' = length m" if "guest_bytes be m' = h" "length h = length m" for m' h
    using that by (metis length_guest_bytes)
  obtain p where p: "off = 4 * p" using m(2) by blast
  have in_word: "j \<noteq> off + i" if "j div 4 \<noteq> off div 4" "i < 4" for i j using that p by auto
  consider "width = 4" "?k = 0" | "width = 2" "even (unat a)" | "width = 1"
    using al unfolding aligned_def by (auto simp: dvd_eq_mod_eq_0)
  then show ?thesis
  proof cases
    case 1
    obtain m' where w: "host_write32 be m off v = Inr m'" "guest_bytes be m' = ?g[off := ucast (drop_bit 24 v),
        off + 1 := ucast (drop_bit 16 v), off + 2 := ucast (drop_bit 8 v), off + 3 := ucast v]"
      using write_layout(3)[OF m(1), of "of_nat off" be v] o 1(2) m(2,3) by (auto simp: simmem_write32_def)
    then have "word_at be m' off = v" using m(3) by (simp add: word_at_def nth_list_update join32_split)
    moreover have "guest_bytes be m' ! j = ?g ! j" if "j div 4 \<noteq> off div 4" for j
      using in_word[OF that, of 0] in_word[OF that, of 1] in_word[OF that, of 2] in_word[OF that, of 3] by (simp add: w(2))
    ultimately show ?thesis
      using w(1) 1 len[OF w(2)] by (simp add: write_width_def dc_merge_def)
  next
    case 2
    have "even (off + ?k)" "off + ?k + 2 \<le> length m" using p m(3) and_2_half(2)[OF 2(2)] by auto
    then obtain m' where w: "simmem_write16 be m (of_nat (off + ?k)) (ucast v) = Inr m'"
      "guest_bytes be m' = ?g[off + ?k := ucast (drop_bit 8 v), off + ?k + 1 := ucast v]"
      using write_layout(2)[OF m(1), of "of_nat (off + ?k)" be "ucast v"] unfolding o half_bytes by blast
    have "word_at be m' off = dc_merge a width v (word_at be m off)"
      using and_2_half[OF 2(2)] 2(1) m(3) unfolding word_at_def w(2)
      by (auto simp: dc_merge_def join32_merge_half[simplified] nth_list_update)
    moreover have "guest_bytes be m' ! j = ?g ! j" if "j div 4 \<noteq> off div 4" for j
      using in_word[OF that, of ?k] in_word[OF that, of "?k + 1"] and_2_half(2)[OF 2(2)] by (auto simp: w(2))
    ultimately show ?thesis
      using w(1) 2(1) len[OF w(2)] by (simp add: write_width_def)
  next
    case 3
    have k: "?k < 4" by simp
    obtain m' where w: "simmem_write8 be m (of_nat (off + ?k)) (ucast v) = Inr m'"
      "guest_bytes be m' = ?g[off + ?k := ucast v]"
      using write_layout(1)[OF m(1), of "of_nat (off + ?k)" be "ucast v"] m(3) k unfolding o by auto
    have merge: "dc_merge a width v (join32 b0 b1 b2 b3) = join32 (if ?k = 0 then ucast v else b0)
        (if ?k = 1 then ucast v else b1) (if ?k = 2 then ucast v else b2) (if ?k = 3 then ucast v else b3)" for b0 b1 b2 b3
      unfolding dc_merge_def and_3_mod 3 using join32_merge_byte[OF k, of b0 b1 b2 b3 v] by simp
    have "word_at be m' off = dc_merge a width v (word_at be m off)"
      using nat_less_4[OF k] m(3) unfolding word_at_def w(2) merge by auto
    moreover have "guest_bytes be m' ! j = ?g ! j" if "j div 4 \<noteq> off div 4" for j
      using in_word[OF that k] by (simp add: w(2))
    ultimately show ?thesis
      using w(1) 3 len[OF w(2)] by (simp add: write_width_def)
  qed
qed


section \<open>Ways\<close>

lemma dc_find_Suc: "dc_find (Suc n) t ws = (if dc_tag (ws n) = t then Some n else dc_find n t ws)"
  by (simp add: dc_find_def)

lemma dc_find_Some: "dc_find n t ws = Some i \<Longrightarrow> i < n \<and> dc_tag (ws i) = t"
  by (induction n) (auto simp: dc_find_Suc dc_find_def[of 0] less_Suc_eq split: if_splits)

lemma dc_find_None: "dc_find n t ws = None \<longleftrightarrow> (\<forall>i<n. dc_tag (ws i) \<noteq> t)"
  by (induction n) (auto simp: dc_find_Suc dc_find_def[of 0] less_Suc_eq split: if_splits)

text \<open>Aging touches usage counters only.\<close>

lemma age_fold:
  "dc_tag (fold (\<lambda>i ws. if P ws i then ws(i := (ws i)\<lparr>dc_lru := f ws i\<rparr>) else ws) xs ws j) = dc_tag (ws j)"
  "dc_line (fold (\<lambda>i ws. if P ws i then ws(i := (ws i)\<lparr>dc_lru := f ws i\<rparr>) else ws) xs ws j) = dc_line (ws j)"
  by (induction xs arbitrary: ws) auto

lemma dc_use_fields [simp]:
  "dc_tag (dc_use n way hi ws i) = dc_tag (ws i)" "dc_line (dc_use n way hi ws i) = dc_line (ws i)"
  using age_fold[of "\<lambda>ws i. dc_lru (ws i) > dc_lru (ws way)" "\<lambda>ws i. dc_lru (ws i) - 1" "[0..<n]" ws]
  by (simp_all add: dc_use_def Let_def)

lemma dc_fill_fields [simp]:
  "dc_tag (dc_fill n way t hi ws i) = (if i = way then t else dc_tag (ws i))"
  "dc_line (dc_fill n way t hi ws i) = dc_line (ws i)"
  using age_fold[of "\<lambda>ws i. dc_lru (ws i) \<noteq> 0" "\<lambda>ws i. dc_lru (ws i) - 1" "[0..<n]" "ws(way := (ws way)\<lparr>dc_tag := t\<rparr>)"]
  by (simp_all add: dc_fill_def Let_def)

lemma fold_upt_inv: "P x \<Longrightarrow> (\<And>i x. i < n \<Longrightarrow> P x \<Longrightarrow> P (f i x)) \<Longrightarrow> P (fold f [0..<n] x)"
  by (induction n arbitrary: x) auto

lemma victim_less:
  assumes "0 < n"
  shows "dc_load_victim n hi ws < n" "dc_store_victim n hi ws < n"
proof -
  show "dc_load_victim n hi ws < n"
    unfolding dc_load_victim_def
    by (rule fold_upt_inv[where P = "\<lambda>p. fst p < n"]) (use assms in \<open>auto split: prod.splits\<close>)
  show "dc_store_victim n hi ws < n"
    unfolding dc_store_victim_def by (rule fold_upt_inv[where P = "\<lambda>p. p < n"]) (use assms in auto)
qed

section \<open>Coherence\<close>

text \<open>
  Every line that can be hit holds the words of plain memory at its addresses, and at most one way
  of a set holds a given block.
\<close>

definition dc_coherent :: "'z board_scheme \<Rightarrow> bool" where
  "dc_coherent s \<longleftrightarrow> (let c = dcfg s; w = (\<lambda>a i. dcache s (dc_set_of c a) i) in
     (\<forall>a i. i < dc_ways c \<and> dc_tag (w a i) = dc_tag_of c a \<longrightarrow> ram_word s a (dc_line (w a i) (dc_word_of c a)))
     \<and> (\<forall>a i j. i < dc_ways c \<and> j < dc_ways c \<and> dc_tag (w a i) = dc_tag_of c a \<and> dc_tag (w a j) = dc_tag_of c a
          \<longrightarrow> i = j))"

definition dc_inv_state :: "'z board_scheme \<Rightarrow> bool" where
  "dc_inv_state s \<longleftrightarrow> areas_inv s \<and> dc_wf (dcfg s) \<and> dc_coherent s"

text \<open>All bytes of the block around an address are plain memory.\<close>

definition ram_block :: "'z board_scheme \<Rightarrow> u32 \<Rightarrow> bool" where
  "ram_block s a \<longleftrightarrow> (\<forall>a'. unat a' div dc_block (dcfg s) = unat a div dc_block (dcfg s) \<longrightarrow> (\<exists>v. ram_word s a' v))"

text \<open>
  What accesses to plain memory keep of the core: the special purpose registers below those of the
  debug unit and the performance counters, the configuration, the general registers.
\<close>

definition core_kept :: "'z machine_scheme \<Rightarrow> 'z machine_scheme \<Rightarrow> bool" where
  "core_kept s s' \<longleftrightarrow> (\<forall>n<0x3000. sprs s' n = sprs s n) \<and> dmmu_state s' = dmmu_state s \<and> reg s' = reg s \<and> pc s' = pc s
     \<and> except_pending s' = except_pending s \<and> data_ci s' = data_ci s \<and> cfg s' = cfg s"

lemma core_kept_refl [simp]: "core_kept s s"
  by (simp add: core_kept_def)

lemma core_kept_trans: "core_kept s t \<Longrightarrow> core_kept t u \<Longrightarrow> core_kept s u"
  by (simp add: core_kept_def)

text \<open>States with the same memory and registers.\<close>

definition same_mem :: "'z board_scheme \<Rightarrow> 'z board_scheme \<Rightarrow> bool" where
  "same_mem s s' \<longleftrightarrow> dev_list s' = dev_list s \<and> blocks s' = blocks s \<and> words_bigendian s' = words_bigendian s
     \<and> mc_dev_area s' = mc_dev_area s \<and> dcfg s' = dcfg s \<and> core_kept s s'
     \<and> areas_inv s' = areas_inv s"

lemma same_mem_refl [simp]: "same_mem s s"
  by (simp add: same_mem_def)

lemma same_mem_trans: "same_mem s t \<Longrightarrow> same_mem t u \<Longrightarrow> same_mem s u"
  unfolding same_mem_def by (metis core_kept_trans)

lemma same_mem_ram:
  "same_mem s s' \<Longrightarrow> ram_word s' = ram_word s" "same_mem s s' \<Longrightarrow> ram_inj s' = ram_inj s"
  using ram_word_cong unfolding same_mem_def by metis+

lemma same_mem_touch [simp]: "areas_inv s \<Longrightarrow> same_mem s (touch_area a d s)"
  by (simp add: same_mem_def) (simp add: touch_area_def core_kept_def)

lemma same_mem_cache [simp]: "same_mem s (s\<lparr>dcache := d\<rparr>)" "same_mem s (s\<lparr>mem_cycles := n\<rparr>)"
  "same_mem s (s\<lparr>mem_cycles := n, dcache := d\<rparr>)" "same_mem s (s\<lparr>dcache := d, mem_cycles := n\<rparr>)"
  by (simp_all add: same_mem_def areas_inv_def core_kept_def)

lemma pcu_count_event_shape: "\<exists>f. pcu_count_event e s = s\<lparr>sprs := f\<rparr>"
  using pcu_count_event_frame(1)[where ev = e and s = s and f = "sprs (pcu_count_event e s)"] by (auto intro: exI[of _ "sprs (pcu_count_event e s)"])

lemma pcu_count_event_dcache [simp]: "dcache (pcu_count_event e s) = dcache s" "dcfg (pcu_count_event e s) = dcfg s"
  using pcu_count_event_shape[of e s] by auto

lemma same_mem_count: "same_mem s (pcu_count_event e s)"
proof -
  obtain f where f: "pcu_count_event e s = s\<lparr>sprs := f\<rparr>" using pcu_count_event_shape by blast
  have "sprs (pcu_count_event e s) n = sprs s n" if "n < 0x3000" for n
    using that by (intro pcu_count_event_frame(2)) simp
  then show ?thesis unfolding f by (simp add: same_mem_def areas_inv_def core_kept_def)
qed

lemma touch_area_found: "ram_at s a b off \<Longrightarrow> cur_area (touch_area a d s) \<noteq> None"
  by (auto simp: touch_area_def ram_at_def)

lemma touch_area_dcache [simp]: "dcache (touch_area a d s) = dcache s" "dcfg (touch_area a d s) = dcfg s"
  by (simp_all add: touch_area_def)


section \<open>Refill\<close>

lemma load_ram_word:
  assumes "areas_inv s" "ram_word s a v" "4 dvd unat a"
  shows "evalsim_mem32 a va s = Inr (v, touch_area a (\<lambda>a. delayr (ops a)) s)"
  using load_ram[OF assms(1,2), of 4 va] assms(3) by (simp add: load_width_def dc_part_def aligned_def)

lemma refill_addr_aligned:
  assumes "dc_wf c" "4 dvd i" "i < dc_block c"
  shows "4 dvd unat (dc_refill_addr c a i)"
proof -
  obtain n where "dc_block c = 4 * 2 ^ (n - 2)" using assms(1) by (rule block_power)
  then have "4 dvd dc_block c" by simp
  then show ?thesis unfolding refill_addr(1)[OF assms] by simp
qed

lemma dc_refill_ram:
  assumes "areas_inv s" "dc_wf (dcfg s)" "\<forall>i \<in> set is. 4 dvd i \<and> i < dc_block (dcfg s)"
    and "\<forall>i \<in> set is. ram_word s (dc_refill_addr (dcfg s) a i) (f (dc_word_of (dcfg s) (a + of_nat i)))"
  shows "\<exists>s'. dc_refill a st way is s = Inr (True, s') \<and> same_mem s s'
     \<and> dcache s' = (dcache s)(st := (dcache s st)(way := (dcache s st way)
         \<lparr>dc_line := (\<lambda>j. if j \<in> (\<lambda>i. dc_word_of (dcfg s) (a + of_nat i)) ` set is then f j
                          else dc_line (dcache s st way) j)\<rparr>))"
  using assms
proof (induction "is" arbitrary: s)
  case Nil
  then show ?case by simp
next
  case (Cons i "is")
  let ?c = "dcfg s"
  let ?a = "dc_refill_addr ?c a i" and ?j = "dc_word_of ?c (a + of_nat i)"
  let ?t = "touch_area ?a (\<lambda>a. delayr (ops a)) s"
  let ?u = "set_way st way (\<lambda>w. w\<lparr>dc_line := (dc_line w)(?j := f ?j)\<rparr>) ?t"
  have rw: "ram_word s ?a (f ?j)" using Cons.prems(4) by simp
  have "4 dvd unat ?a" using refill_addr_aligned[OF Cons.prems(2)] Cons.prems(3) by simp
  then have ev: "evalsim_mem32 ?a 0 s = Inr (f ?j, ?t)" by (rule load_ram_word[OF Cons.prems(1) rw])
  have "cur_area ?t \<noteq> None" using rw touch_area_found by (blast elim: ram_wordE)
  define u where "u = ?u"
  have step: "dc_refill a st way (i # is) s = dc_refill a st way is u"
    using ev \<open>cur_area ?t \<noteq> None\<close> by (auto simp: Let_def u_def)
  have su: "same_mem s u" unfolding u_def
    by (rule same_mem_trans[OF same_mem_touch[OF Cons.prems(1), of ?a "\<lambda>a. delayr (ops a)"]]) simp
  then have u: "areas_inv u" "dcfg u = ?c" "ram_word u = ram_word s"
    using Cons.prems(1) same_mem_ram(1)[OF su] by (simp_all only: same_mem_def)
  have du: "dcache u = (dcache s)(st := (dcache s st)(way := (dcache s st way)
      \<lparr>dc_line := (dc_line (dcache s st way))(?j := f ?j)\<rparr>))" by (simp add: u_def)
  have "\<exists>s'. dc_refill a st way is u = Inr (True, s') \<and> same_mem u s'
     \<and> dcache s' = (dcache u)(st := (dcache u st)(way := (dcache u st way)
         \<lparr>dc_line := (\<lambda>j. if j \<in> (\<lambda>i. dc_word_of (dcfg u) (a + of_nat i)) ` set is then f j
                          else dc_line (dcache u st way) j)\<rparr>))"
    by (rule Cons.IH) (use u Cons.prems(2-4) in simp_all)
  then obtain s' where s': "dc_refill a st way is u = Inr (True, s')" "same_mem u s'"
    "dcache s' = (dcache u)(st := (dcache u st)(way := (dcache u st way)
         \<lparr>dc_line := (\<lambda>j. if j \<in> (\<lambda>i. dc_word_of (dcfg u) (a + of_nat i)) ` set is then f j
                          else dc_line (dcache u st way) j)\<rparr>))" by blast
  have "same_mem s s'" using su s'(2) by (rule same_mem_trans)
  moreover have "dcache s' = (dcache s)(st := (dcache s st)(way := (dcache s st way)
         \<lparr>dc_line := (\<lambda>j. if j \<in> (\<lambda>i. dc_word_of ?c (a + of_nat i)) ` set (i # is) then f j
                          else dc_line (dcache s st way) j)\<rparr>))"
    unfolding s'(3) u(2) du by (auto simp: fun_eq_iff)
  ultimately show ?case using s'(1) unfolding step by blast
qed

text \<open>The loop reaches every word of the block.\<close>

lemma dc_offsets_cover:
  assumes "dc_wf c" "j < dc_block c div 4"
  shows "\<exists>i \<in> set (dc_offsets (dc_block c)). dc_word_of c (a + of_nat i) = j"
proof -
  let ?m = "dc_block c div 4"
  have m: "dc_block c = 4 * ?m" "0 < ?m" using assms(1) by (auto simp: dc_wf_def)
  define k where "k = (j + (?m - unat a div 4 mod ?m)) mod ?m"
  have k: "k < ?m" using m(2) by (simp add: k_def)
  then have "4 * k < dc_block c" using m(1) by linarith
  then have "dc_word_of c (a + of_nat (4 * k)) = (unat a div 4 + k) mod ?m"
    using refill_addr(2)[OF assms(1), of "4 * k" a] by simp
  also have "\<dots> = (unat a div 4 mod ?m + (j + (?m - unat a div 4 mod ?m))) mod ?m"
    unfolding k_def by (simp add: mod_add_left_eq mod_add_right_eq)
  also have "unat a div 4 mod ?m + (j + (?m - unat a div 4 mod ?m)) = j + ?m"
    using m(2) mod_less_divisor[of ?m "unat a div 4"] by linarith
  also have "(j + ?m) mod ?m = j" using assms(2) by simp
  finally have "dc_word_of c (a + of_nat (4 * k)) = j" .
  moreover have "4 * k \<in> set (dc_offsets (dc_block c))" using k m by (auto simp: dc_offsets_def)
  ultimately show ?thesis by blast
qed

lemma dc_offsets_in:
  assumes "dc_wf c" "i \<in> set (dc_offsets (dc_block c))"
  shows "4 dvd i" "i < dc_block c"
  using assms by (auto simp: dc_offsets_def dc_wf_def)

lemma dc_refill_block:
  assumes "areas_inv s" "dc_wf (dcfg s)" "ram_block s a"
  obtains s' w where "dc_refill a st way (dc_offsets (dc_block (dcfg s))) s = Inr (True, s')" "same_mem s s'"
    "dcache s' = (dcache s)(st := (dcache s st)(way := w))"
    "\<And>a'. unat a' div dc_block (dcfg s) = unat a div dc_block (dcfg s) \<Longrightarrow>
       ram_word s a' (dc_line w (dc_word_of (dcfg s) a'))"
proof -
  let ?c = "dcfg s" and ?is = "dc_offsets (dc_block (dcfg s))"
  obtain n where n: "dc_block ?c = 4 * 2 ^ (n - 2)" using assms(2) by (rule block_power)
  define base where "base = dc_block ?c * (unat a div dc_block ?c)"
  define f where "f j = (SOME v. ram_word s (of_nat (base + 4 * j)) v)" for j
  have f: "ram_word s a' (f (dc_word_of ?c a'))" if in_b: "unat a' div dc_block ?c = unat a div dc_block ?c" for a'
  proof -
    have "unat (a' AND NOT 3) = base + 4 * dc_word_of ?c a'"
      using in_b arg_cong[OF mult_div_mod_eq[of "2 ^ (n - 2)" "unat a' div 4"], of "\<lambda>x. 4 * x"]
      unfolding unat_and_not_3 base_def word_of_unat[OF assms(2)] n
      by (simp add: div_mult2_eq mod_mult2_eq add_mult_distrib2)
    from arg_cong[OF this, of "of_nat :: nat \<Rightarrow> u32"]
    have eq: "of_nat (base + 4 * dc_word_of ?c a') = a' AND NOT 3" by simp
    obtain v where "ram_word s a' v" using assms(3) in_b unfolding ram_block_def by blast
    then have "ram_word s (a' AND NOT 3) v" unfolding ram_word_def by (simp add: and.assoc)
    then have "ram_word s (a' AND NOT 3) (f (dc_word_of ?c a'))" unfolding f_def eq by (rule someI)
    then show ?thesis unfolding ram_word_def by (simp add: and.assoc)
  qed
  have blk: "unat (dc_refill_addr ?c a i) div dc_block ?c = unat a div dc_block ?c"
    "dc_word_of ?c (dc_refill_addr ?c a i) = dc_word_of ?c (a + of_nat i)" if "i \<in> set ?is" for i
  proof -
    note i = dc_offsets_in[OF assms(2) that]
    let ?r = "(unat a div 4 + i div 4) mod (dc_block ?c div 4)"
    have "4 * ?r < dc_block ?c" using n by simp
    then show "unat (dc_refill_addr ?c a i) div dc_block ?c = unat a div dc_block ?c"
      "dc_word_of ?c (dc_refill_addr ?c a i) = dc_word_of ?c (a + of_nat i)"
      using refill_addr[OF assms(2) i, of a] by (simp_all add: word_of_unat[OF assms(2)])
  qed
  have "\<forall>i \<in> set ?is. ram_word s (dc_refill_addr ?c a i) (f (dc_word_of ?c (a + of_nat i)))"
    using f blk by metis
  with dc_refill_ram[OF assms(1,2), of ?is a f st way] dc_offsets_in[OF assms(2)]
  obtain s' where s': "dc_refill a st way ?is s = Inr (True, s')" "same_mem s s'"
    "dcache s' = (dcache s)(st := (dcache s st)(way := (dcache s st way)
         \<lparr>dc_line := (\<lambda>j. if j \<in> (\<lambda>i. dc_word_of ?c (a + of_nat i)) ` set ?is then f j
                          else dc_line (dcache s st way) j)\<rparr>))" by blast
  show thesis
  proof (rule that[OF s'])
    fix a' :: u32 assume a': "unat a' div dc_block ?c = unat a div dc_block ?c"
    have "dc_word_of ?c a' < dc_block ?c div 4"
      using n unfolding word_of_unat[OF assms(2)] by (simp add: mod_mult2_eq)
    then have "dc_word_of ?c a' \<in> (\<lambda>i. dc_word_of ?c (a + of_nat i)) ` set ?is"
      using dc_offsets_cover[OF assms(2), of _ a] by (metis imageI)
    then show "ram_word s a' (dc_line ((dcache s st way)\<lparr>dc_line := (\<lambda>j. if j \<in> (\<lambda>i. dc_word_of ?c (a + of_nat i)) ` set ?is
        then f j else dc_line (dcache s st way) j)\<rparr>) (dc_word_of ?c a'))"
      using f[OF a'] by simp
  qed
qed


text \<open>Taking a hit, or filling a way after a miss, keeps the cache coherent.\<close>

lemma coherent_same:
  assumes "dc_coherent s" "same_mem s s'"
    and "\<And>st i. dc_tag (dcache s' st i) = dc_tag (dcache s st i) \<and> dc_line (dcache s' st i) = dc_line (dcache s st i)"
  shows "dc_coherent s'"
proof -
  have c: "dcfg s' = dcfg s" using assms(2) by (simp add: same_mem_def)
  have tl: "dc_tag (dcache s' st i) = dc_tag (dcache s st i)" "dc_line (dcache s' st i) = dc_line (dcache s st i)" for st i
    using assms(3) by blast+
  show ?thesis
    using assms(1) unfolding dc_coherent_def Let_def c same_mem_ram(1)[OF assms(2)] tl .
qed

lemma coherent_fill:
  assumes co: "dc_coherent s" and miss: "dc_find (dc_ways c) (dc_tag_of c a) (dcache s (dc_set_of c a)) = None"
    and c: "c = dcfg s" and sm: "same_mem s s'"
    and fresh: "\<And>a'. unat a' div dc_block c = unat a div dc_block c \<Longrightarrow> ram_word s a' (dc_line w (dc_word_of c a'))"
    and w: "dc_tag w = dc_tag_of c a"
    and d: "\<And>st i. let x = (if st = dc_set_of c a \<and> i = way then w else dcache s st i) in
        dc_tag (dcache s' st i) = dc_tag x \<and> dc_line (dcache s' st i) = dc_line x"
  shows "dc_coherent s'"
proof -
  have c': "dcfg s' = c" using sm c by (simp add: same_mem_def)
  have d': "dc_tag (dcache s' st i) = dc_tag (if st = dc_set_of c a \<and> i = way then w else dcache s st i)"
    "dc_line (dcache s' st i) = dc_line (if st = dc_set_of c a \<and> i = way then w else dcache s st i)" for st i
    using d[of st i] by (simp_all add: Let_def)
  have none: "\<not> (i < dc_ways c \<and> dc_tag (dcache s (dc_set_of c a) i) = dc_tag_of c a)" for i
    using miss unfolding dc_find_None by blast
  have co1: "ram_word s x (dc_line (dcache s (dc_set_of c x) i) (dc_word_of c x))"
    if "i < dc_ways c" "dc_tag (dcache s (dc_set_of c x) i) = dc_tag_of c x" for x i
    using co that unfolding dc_coherent_def Let_def c by blast
  have co2: "i = j"
    if "i < dc_ways c" "j < dc_ways c" "dc_tag (dcache s (dc_set_of c x) i) = dc_tag_of c x"
      "dc_tag (dcache s (dc_set_of c x) j) = dc_tag_of c x" for x i j
    using co that unfolding dc_coherent_def Let_def c by blast
  show ?thesis
    unfolding dc_coherent_def Let_def c' same_mem_ram(1)[OF sm]
  proof (intro conjI allI impI; elim conjE)
    fix x i assume "i < dc_ways c" "dc_tag (dcache s' (dc_set_of c x) i) = dc_tag_of c x"
    then show "ram_word s x (dc_line (dcache s' (dc_set_of c x) i) (dc_word_of c x))"
      using co1 fresh[of x] same_block[of c a x] w unfolding d' by (auto split: if_splits)
  next
    fix x i j assume "i < dc_ways c" "j < dc_ways c" "dc_tag (dcache s' (dc_set_of c x) i) = dc_tag_of c x"
      "dc_tag (dcache s' (dc_set_of c x) j) = dc_tag_of c x"
    then show "i = j"
      using co2[of i j x] none[of i] none[of j] w unfolding d' by (auto split: if_splits)
  qed
qed

text \<open>A load through the cache, in all three cases.\<close>

lemma dc_read_result:
  assumes inv: "dc_inv_state s" and blk: "ram_block s a" and al: "aligned a width"
  shows "\<exists>v s'. dc_simulate_read a va width s = Inr (v, s') \<and> map_sum id fst (load_width a va width s) = Inr v
     \<and> same_mem s s' \<and> dc_coherent s'"
proof -
  let ?c = "dcfg s" and ?hi = "dc_states (dcfg s) - 1"
  let ?st = "dc_set_of ?c a" and ?n = "dc_ways ?c"
  have I: "areas_inv s" "dc_wf ?c" "dc_coherent s" using inv by (simp_all add: dc_inv_state_def)
  have val: "map_sum id fst (load_width a va width s) = Inr (dc_part a width v)" if "ram_word s a v" for v
    using load_ram[OF I(1) that al, of va] by simp
  show ?thesis
  proof (cases "dc_off s")
    case True
    obtain v where v: "ram_word s a v" using blk unfolding ram_block_def by blast
    have "dc_coherent (touch_area a (\<lambda>a. delayr (ops a)) s)"
      by (rule coherent_same[OF I(3) same_mem_touch[OF I(1)]]) simp
    then show ?thesis
      using load_ram[OF I(1) v al, of va] True I(1) by (simp add: dc_simulate_read_def)
  next
    case on: False
    show ?thesis
    proof (cases "dc_find ?n (dc_tag_of ?c a) (dcache s ?st)")
      case (Some way)
      let ?s' = "s\<lparr>dcache := (dcache s)(?st := dc_use ?n way ?hi (dcache s ?st)), mem_cycles := mem_cycles s + dc_load_hit ?c\<rparr>"
      have way: "way < ?n" "dc_tag (dcache s ?st way) = dc_tag_of ?c a" using dc_find_Some[OF Some] by simp_all
      then have "ram_word s a (dc_line (dcache s ?st way) (dc_word_of ?c a))"
        using I(3) unfolding dc_coherent_def Let_def by blast
      note val[OF this]
      moreover have "dc_simulate_read a va width s
          = Inr (dc_part a width (dc_line (dcache s ?st way) (dc_word_of ?c a)), ?s')"
        using on Some by (simp add: dc_simulate_read_def Let_def)
      moreover have "dc_coherent ?s'" by (rule coherent_same[OF I(3)]) simp_all
      ultimately show ?thesis by (intro exI conjI) (assumption, assumption, simp_all)
    next
      case None
      define way where "way = dc_load_victim ?n ?hi (dcache s ?st)"
      obtain s1 w where r: "dc_refill a ?st way (dc_offsets (dc_block ?c)) s = Inr (True, s1)" "same_mem s s1"
        "dcache s1 = (dcache s)(?st := (dcache s ?st)(way := w))"
        "\<And>a'. unat a' div dc_block ?c = unat a div dc_block ?c \<Longrightarrow> ram_word s a' (dc_line w (dc_word_of ?c a'))"
        using dc_refill_block[OF I(1,2) blk, of ?st way] by blast
      define s2 where "s2 = s1\<lparr>dcache := (dcache s1)(?st := dc_fill ?n way (dc_tag_of ?c a) ?hi (dcache s1 ?st)),
                               mem_cycles := mem_cycles s1 + dc_load_miss ?c\<rparr>"
      define s3 where "s3 = (if pcu_enabled (cfg s2) then pcu_count_event SPR_PCMR_DCM s2 else s2)"
      have sm: "same_mem s s3"
        using same_mem_trans[OF r(2), of s2] same_mem_trans[OF _ same_mem_count, of s s2]
        unfolding s3_def by (auto simp: s2_def)
      have d: "dcache s3 = (dcache s1)(?st := dc_fill ?n way (dc_tag_of ?c a) ?hi (dcache s1 ?st))"
        by (simp add: s3_def s2_def)
      have "dc_simulate_read a va width s = Inr (dc_part a width (dc_line (dcache s3 ?st way) (dc_word_of ?c a)), s3)"
        unfolding s3_def s2_def using on None r(1) by (simp add: dc_simulate_read_def Let_def flip: way_def)
      moreover have "dc_line (dcache s3 ?st way) = dc_line w" by (simp add: d r(3))
      moreover have "dc_coherent s3"
        by (rule coherent_fill[OF I(3) None refl sm, where w = "w\<lparr>dc_tag := dc_tag_of ?c a\<rparr>" and way = way])
          (use r(4) in \<open>simp_all add: d r(3) Let_def\<close>)
      ultimately show ?thesis using val[OF r(4)[OF refl]] sm by simp
    qed
  qed
qed


section \<open>Stores through the cache\<close>

lemma same_word_conv:
  assumes "dc_wf c" "a AND NOT 3 = x AND NOT 3"
  shows "dc_set_of c a = dc_set_of c x" "dc_tag_of c a = dc_tag_of c x" "dc_word_of c a = dc_word_of c x"
proof -
  obtain n where n: "dc_block c = 4 * 2 ^ (n - 2)" using assms(1) by (rule block_power)
  have "unat a div 4 = unat x div 4"
    using arg_cong[OF assms(2), of unat] unfolding unat_and_not_3 by simp
  then show "dc_set_of c a = dc_set_of c x" "dc_tag_of c a = dc_tag_of c x" "dc_word_of c a = dc_word_of c x"
    unfolding dc_set_of_def dc_tag_of_def word_of_unat[OF assms(1)] n
    by (simp_all add: div_mult2_eq mod_mult2_eq)
qed

lemma ram_word_same: "a AND NOT 3 = x AND NOT 3 \<Longrightarrow> ram_word s a = ram_word s x"
  unfolding ram_word_def by simp

lemma ram_word_unique: "ram_word s a v \<Longrightarrow> ram_word s a v' \<Longrightarrow> v' = v"
  by (metis ram_at_unique ram_wordE)

text \<open>What a store changes.\<close>

definition stored :: "u32 \<Rightarrow> u32 \<Rightarrow> 'z board_scheme \<Rightarrow> 'z board_scheme \<Rightarrow> bool" where
  "stored a v s s' \<longleftrightarrow> ram_word s' a v
     \<and> (\<forall>x. x AND NOT 3 \<noteq> a AND NOT 3 \<longrightarrow> ram_word s' x = ram_word s x)
     \<and> areas_inv s' \<and> cur_area s' \<noteq> None \<and> ram_inj s' = ram_inj s \<and> dcache s' = dcache s \<and> dcfg s' = dcfg s
     \<and> dc_off s' = dc_off s \<and> core_kept s s'"

lemma store_ram:
  assumes "areas_inv s" "ram_word s a v0" "ram_inj s" "aligned a width"
  shows "\<exists>s'. store_width a va v width s = Inr s' \<and> stored a (dc_merge a width v v0) s s'"
proof -
  let ?be = "words_bigendian s" and ?t = "touch_area a (\<lambda>a. delayw (ops a)) (s\<lparr>cur_vadd := va\<rparr>)"
  obtain b off where r: "ram_at s a b (off + unat a mod 4)" "ram_at s (a AND NOT 3) b off"
    "b < length (blocks s)" "4 dvd off" "4 dvd length (blocks s ! b)" "off + 4 \<le> length (blocks s ! b)"
    "v0 = word_at ?be (blocks s ! b) off" "off + unat a mod 4 < 2 ^ 32" "off < 2 ^ 32"
    "\<forall>k<4. ram_at s ((a AND NOT 3) + of_nat k) b (off + k)"
    using assms(2) by (rule ram_wordE)
  obtain m where m: "write_width ?be (blocks s ! b) (off + unat a mod 4) v width = Inr m"
    "length m = length (blocks s ! b)" "word_at ?be m off = dc_merge a width v v0"
    "\<And>j. j div 4 \<noteq> off div 4 \<Longrightarrow> guest_bytes ?be m ! j = guest_bytes ?be (blocks s ! b) ! j"
    using write_width_word[OF assms(4) r(5,4,6,8), of ?be v] r(7) by metis
  define s' where "s' = set_block b m ?t"
  have "store_width a va v width s = Inr s'"
    unfolding s'_def using store_width_ram[OF assms(1) r(1) assms(4)] m(1) by simp
  moreover have at: "ram_at s' = ram_at s" by (simp add: s'_def)
  have bl: "blocks s' = (blocks s)[b := m]" "words_bigendian s' = ?be" by (simp_all add: s'_def)
  have "ram_word s' a (dc_merge a width v v0)"
    unfolding ram_word_def at bl using r m(2,3) by (intro exI[of _ b] exI[of _ off]) simp
  moreover have "ram_word s' x = ram_word s x" if x: "x AND NOT 3 \<noteq> a AND NOT 3" for x
  proof -
    have same: "(b' < length (blocks s') \<and> 4 dvd off' \<and> 4 dvd length (blocks s' ! b') \<and> off' + 4 \<le> length (blocks s' ! b')
        \<and> y = word_at ?be (blocks s' ! b') off') = (b' < length (blocks s) \<and> 4 dvd off' \<and> 4 dvd length (blocks s ! b')
        \<and> off' + 4 \<le> length (blocks s ! b') \<and> y = word_at ?be (blocks s ! b') off')"
      if "ram_at s (x AND NOT 3) b' off'" for b' off' y
    proof (cases "b' = b")
      case True
      then have "off' \<noteq> off" using that r(2) x assms(3) unfolding ram_inj_def by blast
      then have "4 dvd off' \<Longrightarrow> word_at ?be m off' = word_at ?be (blocks s ! b) off'"
        using word_at_other[OF m(4) r(4)] by blast
      then show ?thesis by (cases "4 dvd off'") (simp_all add: bl True r(3) m(2))
    qed (simp add: bl)
    have "ram_at s (x AND NOT 3) b' off'" if "\<forall>k<4. ram_at s ((x AND NOT 3) + of_nat k) b' (off' + k)" for b' off'
      using that[rule_format, of 0] by simp
    with same have "((\<forall>k<4. ram_at s ((x AND NOT 3) + of_nat k) b' (off' + k)) \<and> b' < length (blocks s')
        \<and> 4 dvd off' \<and> 4 dvd length (blocks s' ! b') \<and> off' + 4 \<le> length (blocks s' ! b') \<and> y = word_at ?be (blocks s' ! b') off')
      = ((\<forall>k<4. ram_at s ((x AND NOT 3) + of_nat k) b' (off' + k)) \<and> b' < length (blocks s)
        \<and> 4 dvd off' \<and> 4 dvd length (blocks s ! b') \<and> off' + 4 \<le> length (blocks s ! b') \<and> y = word_at ?be (blocks s ! b') off')"
      for b' off' y by metis
    then show ?thesis unfolding ram_word_def at bl(2) fun_eq_iff by simp
  qed
  moreover have "cur_area s' \<noteq> None" using touch_area_found[of "s\<lparr>cur_vadd := va\<rparr>" a b] r(1) by (simp add: s'_def)
  moreover have "areas_inv s'" using assms(1) by (simp add: s'_def)
  moreover have "dcache s' = dcache s" "dcfg s' = dcfg s" "dc_off s' = dc_off s" "core_kept s s'" "ram_inj s' = ram_inj s"
    by (simp_all add: ram_inj_def at) (simp_all add: s'_def dc_off_def touch_area_def core_kept_def)
  ultimately show ?thesis unfolding stored_def by blast
qed

lemma coherentD:
  assumes "dc_coherent s" "i < dc_ways (dcfg s)" "dc_tag (dcache s (dc_set_of (dcfg s) x) i) = dc_tag_of (dcfg s) x"
  shows "ram_word s x (dc_line (dcache s (dc_set_of (dcfg s) x) i) (dc_word_of (dcfg s) x))"
    and "j < dc_ways (dcfg s) \<Longrightarrow> dc_tag (dcache s (dc_set_of (dcfg s) x) j) = dc_tag_of (dcfg s) x \<Longrightarrow> j = i"
  using assms unfolding dc_coherent_def Let_def by blast+

lemma stored_ram_block: "stored a v s s' \<Longrightarrow> ram_block s a \<Longrightarrow> ram_block s' a"
  unfolding ram_block_def stored_def by (metis ram_word_same)

lemma stored_miss_coherent:
  assumes "dc_coherent s" "dc_wf (dcfg s)" "stored a v s s'"
    "dc_find (dc_ways (dcfg s)) (dc_tag_of (dcfg s) a) (dcache s (dc_set_of (dcfg s) a)) = None"
  shows "dc_coherent s'"
proof -
  have s': "dcache s' = dcache s" "dcfg s' = dcfg s" using assms(3) by (simp_all add: stored_def)
  have "ram_word s' x = ram_word s x"
    if "i < dc_ways (dcfg s)" "dc_tag (dcache s (dc_set_of (dcfg s) x) i) = dc_tag_of (dcfg s) x" for x i
  proof -
    have "x AND NOT 3 \<noteq> a AND NOT 3"
      using that assms(4) same_word_conv[OF assms(2), of a x] unfolding dc_find_None by auto
    then show ?thesis using assms(3) by (simp add: stored_def)
  qed
  then show ?thesis using assms(1) unfolding dc_coherent_def Let_def s' by metis
qed

lemma stored_hit_coherent:
  assumes co: "dc_coherent s" and wf: "dc_wf (dcfg s)" and c: "c = dcfg s" and st: "st = dc_set_of c a"
    and st1: "stored a (dc_merge a width v (dc_line (dcache s st way) (dc_word_of c a))) s s1"
    and way: "way < dc_ways c" "dc_tag (dcache s st way) = dc_tag_of c a" and sm: "same_mem s1 s2"
    and d: "\<And>x i. dc_tag (dcache s2 x i) = dc_tag (dcache s x i)"
      "\<And>x i. dc_line (dcache s2 x i) = (if x = st \<and> i = way then (dc_line (dcache s st way))(dc_word_of c a
          := dc_merge a width v (dc_line (dcache s st way) (dc_word_of c a))) else dc_line (dcache s x i))"
  shows "dc_coherent s2"
proof -
  have c2: "dcfg s2 = c" using sm st1 c by (simp add: same_mem_def stored_def)
  have rw: "ram_word s2 = ram_word s1" using sm by (rule same_mem_ram)
  have other: "ram_word s1 x = ram_word s x" if "x AND NOT 3 \<noteq> a AND NOT 3" for x
    using st1 that by (simp add: stored_def)
  show ?thesis
    unfolding dc_coherent_def Let_def c2 rw d(1)
  proof (intro conjI allI impI; elim conjE)
    fix x i assume i: "i < dc_ways c" "dc_tag (dcache s (dc_set_of c x) i) = dc_tag_of c x"
    have old: "ram_word s x (dc_line (dcache s (dc_set_of c x) i) (dc_word_of c x))"
      using coherentD(1)[OF co] i unfolding c by blast
    show "ram_word s1 x (dc_line (dcache s2 (dc_set_of c x) i) (dc_word_of c x))"
    proof (cases "x AND NOT 3 = a AND NOT 3")
      case True
      note same = same_word_conv[OF wf True, folded c]
      then have "i = way" using coherentD(2)[OF co way(1)[unfolded c], of a i] way(2) i unfolding c st by simp
      then show ?thesis
        using same st1 st ram_word_same[OF True, of s1] unfolding d(2) by (simp add: stored_def)
    next
      case False
      have "dc_word_of c x \<noteq> dc_word_of c a" if "dc_set_of c x = st" "i = way"
        using that False i way st block_word_addr[OF wf[folded c] same_block[of c x a]] by metis
      then show ?thesis using old other[OF False] unfolding d(2) by auto
    qed
  next
    fix x i j assume "i < dc_ways c" "j < dc_ways c" "dc_tag (dcache s (dc_set_of c x) i) = dc_tag_of c x"
      "dc_tag (dcache s (dc_set_of c x) j) = dc_tag_of c x"
    then show "i = j" using coherentD(2)[OF co] unfolding c by blast
  qed
qed


lemma dc_write_result:
  assumes inv: "dc_inv_state s" and blk: "ram_block s a" and al: "aligned a width" and inj: "ram_inj s"
    and on: "\<not> dc_off s" and v0: "ram_word s a v0"
  shows "\<exists>s1 s'. store_width a va v width s = Inr s1 \<and> dc_simulate_write a va v width s = Inr s'
     \<and> stored a (dc_merge a width v v0) s s1 \<and> same_mem s1 s' \<and> dc_coherent s'"
proof -
  let ?c = "dcfg s" and ?hi = "dc_states (dcfg s) - 1"
  let ?st = "dc_set_of ?c a" and ?n = "dc_ways ?c"
  have I: "areas_inv s" "dc_wf ?c" "dc_coherent s" using inv by (simp_all add: dc_inv_state_def)
  obtain s1 where s1: "store_width a va v width s = Inr s1" "stored a (dc_merge a width v v0) s s1"
    using store_ram[OF I(1) v0 inj al] by blast
  have on1: "\<not> dc_off s1" "cur_area s1 \<noteq> None" "dcfg s1 = ?c" "dcache s1 = dcache s" "areas_inv s1"
    using s1(2) on by (simp_all add: stored_def)
  show ?thesis
  proof (cases "dc_find ?n (dc_tag_of ?c a) (dcache s ?st)")
    case (Some way)
    have way: "way < ?n" "dc_tag (dcache s ?st way) = dc_tag_of ?c a" using dc_find_Some[OF Some] by simp_all
    have old: "dc_line (dcache s ?st way) (dc_word_of ?c a) = v0"
      using ram_word_unique[OF v0 coherentD(1)[OF I(3) way]] .
    define s2 where "s2 = s1\<lparr>dcache := (dcache s1)(?st := dc_use ?n way ?hi (dcache s1 ?st)),
        mem_cycles := mem_cycles s1 + dc_store_hit ?c\<rparr>"
    define s3 where "s3 = set_way ?st way (\<lambda>w. w\<lparr>dc_line := (dc_line w)(dc_word_of ?c a
        := dc_merge a width v (dc_line w (dc_word_of ?c a)))\<rparr>) s2"
    have "same_mem s1 s2" by (simp add: s2_def)
    moreover have "same_mem s2 s3" unfolding s3_def by (rule same_mem_cache(1))
    ultimately have sm: "same_mem s1 s3" by (rule same_mem_trans)
    have w: "dc_simulate_write a va v width s = Inr s3"
      unfolding s3_def s2_def using s1(1) on1 Some by (auto simp: dc_simulate_write_def Let_def)
    have "dc_coherent s3"
    proof (rule stored_hit_coherent[OF I(3,2) refl refl _ way sm])
      show "stored a (dc_merge a width v (dc_line (dcache s ?st way) (dc_word_of ?c a))) s s1"
        using s1(2) old by simp
    qed (auto simp: s3_def s2_def on1)
    with s1 w sm show ?thesis by blast
  next
    case None
    have co1: "dc_coherent s1" by (rule stored_miss_coherent[OF I(3,2) s1(2) None])
    have blk1: "ram_block s1 a" by (rule stored_ram_block[OF s1(2) blk])
    define way where "way = dc_store_victim ?n ?hi (dcache s ?st)"
    obtain s2 w where r: "dc_refill a ?st way (dc_offsets (dc_block ?c)) s1 = Inr (True, s2)" "same_mem s1 s2"
      "dcache s2 = (dcache s)(?st := (dcache s ?st)(way := w))"
      "\<And>a'. unat a' div dc_block ?c = unat a div dc_block ?c \<Longrightarrow> ram_word s1 a' (dc_line w (dc_word_of ?c a'))"
      using dc_refill_block[OF on1(5) _ blk1, of ?st way] I(2) unfolding on1(3,4) by blast
    define s3 where "s3 = s2\<lparr>dcache := (dcache s2)(?st := dc_fill ?n way (dc_tag_of ?c a) ?hi (dcache s2 ?st)),
                             mem_cycles := mem_cycles s2 + dc_store_miss ?c\<rparr>"
    define s4 where "s4 = (if pcu_enabled (cfg s3) then pcu_count_event SPR_PCMR_DCM s3 else s3)"
    have sm: "same_mem s1 s4"
      using same_mem_trans[OF r(2), of s3] same_mem_trans[OF _ same_mem_count, of s1 s3]
      unfolding s4_def by (auto simp: s3_def)
    have w: "dc_simulate_write a va v width s = Inr s4"
      unfolding s4_def s3_def using s1(1) on1 None r(1)
      by (auto simp: dc_simulate_write_def Let_def simp flip: way_def)
    have d: "dcache s4 = (dcache s2)(?st := dc_fill ?n way (dc_tag_of ?c a) ?hi (dcache s2 ?st))"
      by (simp add: s4_def s3_def)
    have "dc_coherent s4"
      by (rule coherent_fill[OF co1 _ on1(3)[symmetric] sm, where w = "w\<lparr>dc_tag := dc_tag_of ?c a\<rparr>" and way = way])
        (use r(4) None in \<open>auto simp: d r(3) on1 Let_def\<close>)
    with s1 w sm show ?thesis by blast
  qed
qed

text \<open>Invalidation keeps the cache coherent: invalid tags match no address.\<close>

lemma dc_inv_coherent:
  assumes "dc_coherent s" "dc_wf (dcfg s)"
  shows "dc_coherent (dc_inv a s)"
proof -
  have sm: "same_mem s (dc_inv a s)" by (simp add: dc_inv_def Let_def split: option.split)
  then have c: "dcfg (dc_inv a s) = dcfg s" by (simp add: same_mem_def)
  have d: "dcache (dc_inv a s) st i = dcache s st i \<or> dc_tag (dcache (dc_inv a s) st i) = -1" for st i
    by (simp add: dc_inv_def dc_invalid_def Let_def split: option.split)
  have d': "dcache (dc_inv a s) st i = dcache s st i" if "dc_tag (dcache (dc_inv a s) st i) = dc_tag_of (dcfg s) x" for st i x
    using d[of st i] that tag_not_invalid[OF assms(2), of x] by auto
  show ?thesis
    unfolding dc_coherent_def Let_def c same_mem_ram(1)[OF sm]
    using d' coherentD[OF assms(1)] by metis
qed

lemma insert_extract:
  fixes v old x :: u32
  assumes "sh + w \<le> 32" "\<And>n. n < w \<Longrightarrow> \<not> bit x (sh + n)"
  shows "drop_bit sh ((old AND x) OR push_bit sh (v AND mask w)) AND mask w = v AND mask w"
proof (rule bit_word_eqI)
  fix n
  show "bit (drop_bit sh ((old AND x) OR push_bit sh (v AND mask w)) AND mask w) n = bit (v AND mask w) n"
    using assms(1) assms(2)[of n] by (cases "n < w") (auto simp: bit_simps)
qed

lemma part_merge: "aligned a width \<Longrightarrow> dc_part a width (dc_merge a width v v0) = v AND mask (8 * width)"
proof -
  assume "aligned a width"
  then consider "width = 4" | "width = 2" | "width = 1" by (auto simp: aligned_def)
  then show ?thesis
  proof cases
    case 1
    have "v AND mask 32 = v" by (rule bit_word_eqI) (simp add: bit_simps)
    with 1 show ?thesis by (simp add: dc_part_def dc_merge_def)
  next
    case 2
    have "drop_bit (if a AND 2 \<noteq> 0 then 0 else 16) (dc_merge a 2 v v0) AND mask 16 = v AND mask 16"
    proof (cases "a AND 2 = 0")
      case True
      have "drop_bit 16 ((v0 AND push_bit 0 (mask 16)) OR push_bit 16 (v AND mask 16)) AND mask 16 = v AND mask 16"
        by (rule insert_extract) (auto simp: bit_simps)
      then show ?thesis by (simp only: dc_merge_def ff_mask True if_True) simp
    next
      case False
      have "drop_bit 0 ((v0 AND push_bit 16 (mask 16)) OR push_bit 0 (v AND mask 16)) AND mask 16 = v AND mask 16"
        by (rule insert_extract) (auto simp: bit_simps)
      with False show ?thesis by (simp add: dc_merge_def ff_mask)
    qed
    with 2 show ?thesis by (simp add: dc_part_def ff_mask)
  next
    case 3
    have "drop_bit (8 * (3 - unat (a AND 3))) (dc_merge a 1 v v0) AND mask 8 = v AND mask 8"
    proof -
      let ?sh = "8 * (3 - unat (a AND 3))"
      have "drop_bit ?sh ((v0 AND NOT (push_bit ?sh (mask 8))) OR push_bit ?sh (v AND mask 8)) AND mask 8 = v AND mask 8"
        by (rule insert_extract) (auto simp: bit_simps)
      then show ?thesis by (simp only: dc_merge_def ff_mask) simp
    qed
    with 3 show ?thesis by (simp add: dc_part_def ff_mask)
  qed
qed


text \<open>The board with one small block, behind an empty cache of one set and one way.\<close>

definition cached_board :: board where
  "cached_board = small_board\<lparr>sprs := (\<lambda>_. 0)(SPR_UPR := SPR_UPR_DCP, SPR_SR := SPR_SR_DCE),
     dcfg := default_dc\<lparr>dc_block := 16\<rparr>,
     dcache := (\<lambda>_ _. \<lparr>dc_line = (\<lambda>_. 0), dc_tag = -1, dc_lru = 0\<rparr>)\<rparr>"

lemma cached_board_fields:
  "dev_list cached_board = [new_area 4 0 (memory_ops small_section 0)]"
  "blocks cached_board = [map of_nat [0..<16]]" "dcfg cached_board = default_dc\<lparr>dc_block := 16\<rparr>"
  "words_bigendian cached_board = False"
  by (simp_all add: cached_board_def small_board_fields)

lemma cached_ram_at: "ram_at cached_board a b off \<longleftrightarrow> b = 0 \<and> off = unat a \<and> unat a < 16"
proof -
  have "a AND NOT (mask 4) = 0 \<longleftrightarrow> unat a < 16"
    using and_not_mask_iff[of a 4 0] by (simp add: div_eq_0_iff)
  moreover have "unat (a AND mask 4) = unat a" if "unat a < 16" using that by (simp add: unat_and_mask)
  ultimately show ?thesis
    by (auto simp: ram_at_def cached_board_fields in_area_def new_area_def installed_ops_def memory_ops_def
      small_section_def memory_sec_start_def or_else_def Let_def)
qed

lemma cached_board_ram: "ram_inj cached_board" "unat a < 16 \<Longrightarrow> ram_block cached_board a"
proof -
  show "ram_inj cached_board" by (simp add: ram_inj_def cached_ram_at word_unat_eq_iff)
  assume a: "unat a < 16"
  have "\<exists>v. ram_word cached_board x v" if x: "unat x < 16" for x
  proof -
    have o: "4 dvd unat (x AND NOT 3)" "unat (x AND NOT 3) + 4 \<le> 16" using x unfolding unat_and_not_3 by auto
    then have "ram_at cached_board ((x AND NOT 3) + of_nat k) 0 (unat (x AND NOT 3) + k)" if "k < 4" for k
      unfolding cached_ram_at using unat_add_in_word[OF that o(1)] that by simp
    then show ?thesis unfolding ram_word_def using o by (auto simp: cached_board_fields)
  qed
  then show "ram_block cached_board a"
    unfolding ram_block_def using a by (simp add: cached_board_fields div_eq_0_iff)
qed

lemma cached_board_inv: "dc_inv_state cached_board"
proof -
  have c: "dc_wf (dcfg cached_board)" by (simp add: cached_board_fields dc_wf_def default_dc_def)
  have "areas_inv cached_board" using small_board_inv by (simp add: cached_board_def areas_inv_def)
  moreover have "dc_tag (dcache cached_board st i) = -1" for st i by (simp add: cached_board_def)
  then have "dc_coherent cached_board"
    using tag_not_invalid[OF c] unfolding dc_coherent_def Let_def by metis
  ultimately show ?thesis using c by (simp add: dc_inv_state_def)
qed

section \<open>Properties\<close>

text \<open>
  C14: loads through the data cache. When the cache is coherent and the block of the address is plain
  memory, an aligned load of any width returns the value that a load past the cache returns, on a
  hit, on a miss and with the cache off. Memory and the general registers are kept, and the cache
  stays coherent.
\<close>

theorem dc_read_transparent:
  assumes "dc_inv_state s" "ram_block s a" "aligned a width"
  shows "\<exists>v s'. dc_simulate_read a va width s = Inr (v, s') \<and> map_sum id fst (load_width a va width s) = Inr v
     \<and> blocks s' = blocks s \<and> reg s' = reg s \<and> dc_inv_state s'"
proof -
  from dc_read_result[OF assms, of va] obtain v s' where r: "dc_simulate_read a va width s = Inr (v, s')"
    "map_sum id fst (load_width a va width s) = Inr v" "same_mem s s'" "dc_coherent s'" by blast
  moreover have "dc_inv_state s'"
    using r(3,4) assms(1) by (simp add: dc_inv_state_def same_mem_def)
  moreover have "blocks s' = blocks s" "reg s' = reg s" using r(3) by (simp_all add: same_mem_def core_kept_def)
  ultimately show ?thesis by blast
qed

theorem dc_read_transparent_witness:
  "\<exists>s'. dc_simulate_read 5 5 1 cached_board = Inr (6, s') \<and> dc_inv_state s'"
proof -
  have "ram_at cached_board 5 0 5" by (simp add: cached_ram_at)
  from evalsim_ram(2)[OF _ this, of 5]
  have "map_sum id fst (load_width 5 5 1 cached_board) = Inr 6"
    using cached_board_inv by (simp add: load_width_def dc_inv_state_def cached_board_fields simmem_read8_def host_read8_def)
  then show ?thesis
    using dc_read_transparent[OF cached_board_inv cached_board_ram(2)[of 5], of 1 5] by (auto simp: aligned_def)
qed

text \<open>
  C19: stores through the data cache. With the cache on, coherent, and no two addresses sharing
  memory, an aligned store of any width to a block of plain memory writes memory as a store past the
  cache, keeps the cache coherent, and a following load of the same width through the cache returns
  the value stored.
\<close>

theorem dc_write_through:
  assumes "dc_inv_state s" "ram_block s a" "aligned a width" "ram_inj s" "\<not> dc_off s"
  shows "\<exists>s1 s'. store_width a va v width s = Inr s1 \<and> dc_simulate_write a va v width s = Inr s'
     \<and> blocks s' = blocks s1 \<and> dc_inv_state s'
     \<and> map_sum id fst (dc_simulate_read a va' width s') = Inr (v AND mask (8 * width))"
proof -
  obtain v0 where v0: "ram_word s a v0" using assms(2) unfolding ram_block_def by blast
  from dc_write_result[OF assms v0, of va v] obtain s1 s' where
    r: "store_width a va v width s = Inr s1" "dc_simulate_write a va v width s = Inr s'"
    "stored a (dc_merge a width v v0) s s1" "same_mem s1 s'" "dc_coherent s'" by blast
  have c: "dcfg s' = dcfg s" "areas_inv s'" using r(3,4) by (simp_all add: stored_def same_mem_def)
  then have inv: "dc_inv_state s'" using r(5) assms(1) by (simp add: dc_inv_state_def)
  have rw: "ram_word s' = ram_word s1" using r(4) by (rule same_mem_ram)
  have blk: "ram_block s' a"
    using stored_ram_block[OF r(3) assms(2)] r(3) c(1) unfolding ram_block_def rw stored_def by simp
  have "ram_word s' a (dc_merge a width v v0)" unfolding rw using r(3) by (simp add: stored_def)
  then have "map_sum id fst (load_width a va' width s') = Inr (v AND mask (8 * width))"
    using load_ram[OF c(2) _ assms(3)] part_merge[OF assms(3)] by simp
  moreover obtain y z where "dc_simulate_read a va' width s' = Inr (y, z)"
    "map_sum id fst (load_width a va' width s') = Inr y"
    using dc_read_result[OF inv blk assms(3), of va'] by blast
  ultimately show ?thesis using r(1,2,4) inv by (auto simp: same_mem_def)
qed

theorem dc_write_through_witness:
  "\<exists>s'. dc_simulate_write 6 6 0x1234567 2 cached_board = Inr s'
     \<and> map_sum id fst (dc_simulate_read 6 6 2 s') = Inr 0x4567"
  using dc_write_through[OF cached_board_inv cached_board_ram(2)[of 6] _ cached_board_ram(1), of 2 6 "0x1234567" 6]
  by (auto simp: aligned_def dc_off_def cached_board_def small_board_def zero_board_def machine.defs zero_machine_def
      mask_eq_exp_minus_1)

end
