(* ===== verification/Icache.thy ===== *)
theory Icache
  imports Dcache
begin

text \<open>
  The instruction cache, \<^verbatim>\<open>cache/icache-model.c\<close>: fetches through the cache, block
  invalidation and its configuration section. Lines, tags and usage counters are arrays indexed by
  \<^verbatim>\<open>set + k * nsets\<close> for way \<^verbatim>\<open>k\<close>. The statistics are not modelled.
\<close>

section \<open>Ways\<close>

text \<open>The values of the loops \<^verbatim>\<open>for (way = set; way < last_way; way += nsets)\<close>.\<close>

definition ic_ways_of :: "ic \<Rightarrow> nat \<Rightarrow> nat list" where
  "ic_ways_of ic st = takeWhile (\<lambda>w. w < ic_last_way ic) (map (\<lambda>k. st + k * ic_sets ic) [0..<Suc (ic_last_way ic)])"

definition ic_set_of :: "ic \<Rightarrow> u32 \<Rightarrow> nat" where
  "ic_set_of ic a = unat (drop_bit (ic_block_log2 ic) (a AND ic_set_mask ic))"

definition ic_byte :: "ic \<Rightarrow> nat \<Rightarrow> u32 \<Rightarrow> nat" where
  "ic_byte ic way a = unat (push_bit (ic_block_log2 ic) (of_nat way) OR (a AND ic_offset_mask ic))"

definition ic_use :: "nat list \<Rightarrow> nat \<Rightarrow> nat \<Rightarrow> (nat \<Rightarrow> nat) \<Rightarrow> nat \<Rightarrow> nat" where
  "ic_use ws way reload l =
     (let l = fold (\<lambda>i l. if l i > l way then l(i := l i - 1) else l) ws l in l(way := reload))"

definition ic_victim :: "nat list \<Rightarrow> nat \<Rightarrow> nat \<Rightarrow> (nat \<Rightarrow> nat) \<Rightarrow> nat" where
  "ic_victim ws st reload l =
     fst (fold (\<lambda>i (way, minlru). if l i < minlru then (i, l i) else (way, minlru)) ws (st, reload))"

definition ic_age :: "nat list \<Rightarrow> nat \<Rightarrow> nat \<Rightarrow> (nat \<Rightarrow> nat) \<Rightarrow> nat \<Rightarrow> nat" where
  "ic_age ws way reload l =
     (let l = fold (\<lambda>i l. if l i \<noteq> 0 then l(i := l i - 1) else l) ws l in l(way := reload))"

section \<open>Fetch\<close>

abbreviation upd_ic :: "(ic \<Rightarrow> ic) \<Rightarrow> 'z board_scheme \<Rightarrow> 'z board_scheme" where
  "upd_ic f s \<equiv> s\<lparr>ic_state := map_option f (ic_state s)\<rparr>"

text \<open>
  The refill loop, from the word fetched around the block; the first argument is the start address of
  the block, the second the offset where the loop starts. \<open>False\<close> when a word is outside of memory.
\<close>

fun ic_refill :: "u32 \<Rightarrow> u32 \<Rightarrow> nat \<Rightarrow> nat list \<Rightarrow> ic \<Rightarrow> 'z board_scheme \<Rightarrow> (bool \<times> ic \<times> 'z board_scheme) outcome" where
  "ic_refill base start way [] ic s = Inr (True, ic, s)"
| "ic_refill base start way (i # is) ic s =
     (let a = start + of_nat i
      in bind_outcome (evalsim_mem32 (base OR (a AND ic_offset_mask ic)) 0 s) (\<lambda>(v, s).
           bind_outcome (host_write32 (words_bigendian s) (ic_mem ic) (ic_byte ic way a) v) (\<lambda>m.
             let ic = ic\<lparr>ic_mem := m\<rparr>
             in if cur_area s = None
                then Inr (False, ic\<lparr>ic_tags := (ic_tags ic)(way := -1), ic_lrus := (ic_lrus ic)(way := 0)\<rparr>, s)
                else ic_refill base start way is ic s)))"

definition ic_off :: "'z board_scheme \<Rightarrow> bool" where
  "ic_off s = (\<not> spr_has s SPR_UPR SPR_UPR_ICP \<or> \<not> spr_has s SPR_SR SPR_SR_ICE \<or> insn_ci s \<noteq> 0)"

definition ic_simulate_fetch :: "u32 \<Rightarrow> u32 \<Rightarrow> 'z board_scheme \<Rightarrow> (u32 \<times> 'z board_scheme) outcome" where
  "ic_simulate_fetch fetchaddr virt_addr s =
     (if ic_off s then evalsim_mem32 fetchaddr virt_addr s
      else
        (case ic_state s of
           None \<Rightarrow> Inl Null_deref
         | Some ic \<Rightarrow>
             (let st = ic_set_of ic fetchaddr; t = fetchaddr AND ic_tag_mask ic; ws = ic_ways_of ic st
              in case List.find (\<lambda>w. ic_tags ic w = t) ws of
                   Some way \<Rightarrow>
                     (let ic' = ic\<lparr>ic_lrus := ic_use ws way (ic_reload ic) (ic_lrus ic)\<rparr>
                      in bind_outcome (host_read32 (words_bigendian s) (ic_mem ic) (ic_byte ic way fetchaddr)) (\<lambda>v.
                           Inr (v, s\<lparr>ic_state := Some ic', mem_cycles := mem_cycles s + ic_hit ic\<rparr>)))
                 | None \<Rightarrow>
                     (let way = ic_victim ws st (ic_reload ic) (ic_lrus ic);
                          ic = ic\<lparr>ic_tags := (ic_tags ic)(way := t),
                                  ic_lrus := ic_age ws way (ic_reload ic) (ic_lrus ic)\<rparr>;
                          start = fetchaddr AND ic_offset_mask ic
                      in bind_outcome (ic_refill (fetchaddr AND ic_block_mask ic) start way (dc_offsets (ic_block ic)) ic s)
                           (\<lambda>(full, ic, s).
                              let s = s\<lparr>ic_state := Some ic\<rparr>
                              in if \<not> full then Inr (0, s)
                                 else
                                   (let s = s\<lparr>mem_cycles := mem_cycles s + ic_miss ic\<rparr>;
                                        s = (if pcu_enabled (cfg s) then pcu_count_event SPR_PCMR_ICM s else s)
                                    in bind_outcome (host_read32 (words_bigendian s) (ic_mem ic)
                                         (ic_byte ic way (start + of_nat (ic_block ic)))) (\<lambda>v. Inr (v, s))))))))"

section \<open>Invalidation\<close>

definition ic_invalidate :: "nat list \<Rightarrow> ic \<Rightarrow> ic" where
  "ic_invalidate ws ic =
     fold (\<lambda>w ic. ic\<lparr>ic_tags := (ic_tags ic)(w := -1), ic_lrus := (ic_lrus ic)(w := 0)\<rparr>) ws ic"

definition ic_inv :: "u32 \<Rightarrow> 'z board_scheme \<Rightarrow> 'z board_scheme outcome" where
  "ic_inv dataaddr s =
     (if \<not> spr_has s SPR_UPR SPR_UPR_ICP then Inr s
      else
        (case ic_state s of
           None \<Rightarrow> Inl Null_deref
         | Some ic \<Rightarrow>
             (let ws = ic_ways_of ic (ic_set_of ic dataaddr);
                  t = dataaddr AND ic_tag_mask ic
              in Inr (s\<lparr>ic_state := Some (ic_invalidate
                   (if \<not> spr_has s SPR_SR SPR_SR_ICE then ws else filter (\<lambda>w. ic_tags ic w = t) ws) ic)\<rparr>))))"

section \<open>Configuration\<close>

abbreviation (input) ICCFGR_NCW :: u32 where "ICCFGR_NCW \<equiv> 0x7"
abbreviation (input) ICCFGR_NCS :: u32 where "ICCFGR_NCS \<equiv> 0x78"
abbreviation (input) ICCFGR_CBS :: u32 where "ICCFGR_CBS \<equiv> 0x80"

definition ic_enabled :: "int \<Rightarrow> 'z board_scheme \<Rightarrow> 'z board_scheme" where
  "ic_enabled v s =
     (let s = upd_ic (ic_enable_update (\<lambda>_. v \<noteq> 0)) s
      in if v \<noteq> 0 then or_spr SPR_UPR SPR_UPR_ICP s else clear_spr SPR_UPR SPR_UPR_ICP s)"

definition ic_nsets :: "int \<Rightarrow> 'z board_scheme \<Rightarrow> 'z board_scheme" where
  "ic_nsets v s =
     (if is_power2 v \<and> v \<le> 1024
      then or_spr SPR_ICCFGR (push_bit 3 (of_nat (log2_int (nat v))))
             (clear_spr SPR_ICCFGR ICCFGR_NCS (upd_ic (ic_sets_update (\<lambda>_. nat v)) s))
      else s)"

definition ic_nways :: "int \<Rightarrow> 'z board_scheme \<Rightarrow> 'z board_scheme" where
  "ic_nways v s =
     (if is_power2 v \<and> v \<le> 32
      then or_spr SPR_ICCFGR (of_nat (log2_int (nat v)))
             (clear_spr SPR_ICCFGR ICCFGR_NCW (upd_ic (ic_ways_update (\<lambda>_. nat v)) s))
      else s)"

definition ic_blocksize :: "int \<Rightarrow> 'z board_scheme \<Rightarrow> 'z board_scheme" where
  "ic_blocksize v s =
     (if v = 16 then clear_spr SPR_ICCFGR ICCFGR_CBS (upd_ic (ic_block_update (\<lambda>_. 16)) s)
      else if v = 32 then or_spr SPR_ICCFGR ICCFGR_CBS (upd_ic (ic_block_update (\<lambda>_. 32)) s)
      else s)"

definition ic_ustates :: "int \<Rightarrow> 'z board_scheme \<Rightarrow> 'z board_scheme" where
  "ic_ustates v s = (if v \<ge> 2 \<and> v \<le> 4 then upd_ic (ic_states_update (\<lambda>_. nat v)) s else s)"

definition ic_hitdelay :: "int \<Rightarrow> 'z board_scheme \<Rightarrow> 'z board_scheme" where
  "ic_hitdelay v s = upd_ic (ic_hit_update (\<lambda>_. v)) s"

definition ic_missdelay :: "int \<Rightarrow> 'z board_scheme \<Rightarrow> 'z board_scheme" where
  "ic_missdelay v s = upd_ic (ic_miss_update (\<lambda>_. v)) s"

text \<open>The fields that the section sets only at its end are what allocation leaves: \<open>junk\<close>.\<close>

definition ic_start_sec :: "ic \<Rightarrow> 'z board_scheme \<Rightarrow> 'z board_scheme" where
  "ic_start_sec junk s =
     (let s = clear_spr SPR_UPR SPR_UPR_ICP s;
          s = clear_spr SPR_ICCFGR ICCFGR_NCS s;
          s = or_spr SPR_ICCFGR (push_bit 3 (of_nat (log2_int 1))) s;
          s = clear_spr SPR_ICCFGR ICCFGR_NCW s;
          s = or_spr SPR_ICCFGR (of_nat (log2_int 1)) s;
          s = clear_spr SPR_ICCFGR ICCFGR_CBS s
      in s\<lparr>ic_state := Some (junk\<lparr>ic_mem := [], ic_lrus := (\<lambda>_. 0), ic_tags := (\<lambda>_. 0), ic_enable := False,
             ic_ways := 1, ic_sets := 1, ic_block := 16, ic_states := 2, ic_miss := 1, ic_hit := 1\<rparr>)\<rparr>)"

definition ic_finish :: "ic \<Rightarrow> ic" where
  "ic_finish ic =
     (let n = ic_ways ic * ic_sets ic * ic_block ic;
          ic = (if n \<noteq> 0
                then ic\<lparr>ic_mem := replicate n 0, ic_lrus := (\<lambda>_. 0), ic_tags := (\<lambda>_. -1)\<rparr>
                else ic\<lparr>ic_enable := False\<rparr>);
          lg = log2_int (ic_block ic)
      in ic\<lparr>ic_block_log2 := lg,
            ic_set_mask := push_bit lg (of_nat (ic_sets ic) - 1),
            ic_tag_mask := NOT (of_nat (ic_sets ic * ic_block ic) - 1),
            ic_last_way := ic_sets ic * ic_ways ic,
            ic_offset_mask := of_nat (ic_block ic) - 1,
            ic_block_mask := NOT (of_nat (ic_block ic) - 1),
            ic_reload := ic_states ic - 1\<rparr>)"

definition ic_end_sec :: "'z board_scheme \<Rightarrow> 'z board_scheme" where
  "ic_end_sec s = upd_ic ic_finish s"

end
