(* ===== verification/Access.thy ===== *)
theory Access
  imports Coherence Icache
begin

text \<open>
  Memory as the processor and the simulator see it, \<^verbatim>\<open>cpu/common/abstract.c\<close>: loads,
  stores and fetches at virtual addresses, through translation, watchpoints, performance counters and
  caches, and the direct accesses of the simulator itself. The argument \<open>bp\<close> is the counter behind
  the pointer \<^verbatim>\<open>breakpoint\<close>. Profiling, logging and messages are not modelled.
\<close>

section \<open>Watchpoints and counters\<close>

definition debug_check ::
  "debug_unit_action \<Rightarrow> u64 \<Rightarrow> int \<times> 'z machine_scheme \<Rightarrow> int \<times> 'z machine_scheme" where
  "debug_check action d p =
     (case p of (bp, s) \<Rightarrow>
        if debug_enabled (cfg s) then (case check_debug_unit action d s of (hit, s) \<Rightarrow> (bp + of_bool hit, s))
        else (bp, s))"

definition count_event :: "u32 \<Rightarrow> 'z machine_scheme \<Rightarrow> 'z machine_scheme" where
  "count_event e s = (if pcu_enabled (cfg s) then pcu_count_event e s else s)"

section \<open>Loads\<close>

definition eval_mem32 :: "u32 \<Rightarrow> int \<Rightarrow> 'z board_scheme \<Rightarrow> (u32 \<times> int \<times> 'z board_scheme) outcome" where
  "eval_mem32 memaddr bp s =
     (if memaddr AND 3 \<noteq> 0 then Inr (0, bp, except_handle EXCEPT_ALIGN memaddr s)
      else
        (case dmmu_translate memaddr False s of (phys_memaddr, s) \<Rightarrow>
           if except_pending s then Inr (0, bp, s)
           else
             (case debug_check DebugLoadAddress (ucast memaddr) (bp, count_event SPR_PCMR_LA s) of (bp, s) \<Rightarrow>
                bind_outcome (if dc_enable (dcfg s) then dc_simulate_read phys_memaddr memaddr 4 s
                              else evalsim_mem32 phys_memaddr memaddr s) (\<lambda>(temp, s).
                  case debug_check DebugLoadData (ucast temp) (bp, s) of (bp, s) \<Rightarrow> Inr (temp, bp, s)))))"

definition eval_mem16 :: "u32 \<Rightarrow> int \<Rightarrow> 'z board_scheme \<Rightarrow> (u16 \<times> int \<times> 'z board_scheme) outcome" where
  "eval_mem16 memaddr bp s =
     (if memaddr AND 1 \<noteq> 0 then Inr (0, bp, except_handle EXCEPT_ALIGN memaddr s)
      else
        (case dmmu_translate memaddr False s of (phys_memaddr, s) \<Rightarrow>
           if except_pending s then Inr (0, bp, s)
           else
             (case debug_check DebugLoadAddress (ucast memaddr) (bp, count_event SPR_PCMR_LA s) of (bp, s) \<Rightarrow>
                bind_outcome (if dc_enable (dcfg s)
                              then bind_outcome (dc_simulate_read phys_memaddr memaddr 2 s) (\<lambda>(v, s). Inr (ucast v, s))
                              else evalsim_mem16 phys_memaddr memaddr s) (\<lambda>(temp, s).
                  case debug_check DebugLoadData (ucast temp) (bp, s) of (bp, s) \<Rightarrow> Inr (temp, bp, s)))))"

definition eval_mem8 :: "u32 \<Rightarrow> int \<Rightarrow> 'z board_scheme \<Rightarrow> (u8 \<times> int \<times> 'z board_scheme) outcome" where
  "eval_mem8 memaddr bp s =
     (case dmmu_translate memaddr False s of (phys_memaddr, s) \<Rightarrow>
        if except_pending s then Inr (0, bp, s)
        else
          (case debug_check DebugLoadAddress (ucast memaddr) (bp, count_event SPR_PCMR_LA s) of (bp, s) \<Rightarrow>
             bind_outcome (if dc_enable (dcfg s)
                           then bind_outcome (dc_simulate_read phys_memaddr memaddr 1 s) (\<lambda>(v, s). Inr (ucast v, s))
                           else evalsim_mem8 phys_memaddr memaddr s) (\<lambda>(temp, s).
               case debug_check DebugLoadData (ucast temp) (bp, s) of (bp, s) \<Rightarrow> Inr (temp, bp, s))))"

definition eval_insn :: "u32 \<Rightarrow> int \<Rightarrow> 'z board_scheme \<Rightarrow> (u32 \<times> int \<times> 'z board_scheme) outcome" where
  "eval_insn memaddr bp s =
     (case immu_translate memaddr s of (phys_memaddr, s) \<Rightarrow>
        if except_pending s then Inr (0, bp, s)
        else
          (case debug_check DebugInstructionFetch (ucast memaddr) (bp, s) of (bp, s) \<Rightarrow>
             let s = count_event SPR_PCMR_IF s
             in bind_outcome (if (case ic_state s of None \<Rightarrow> False | Some ic \<Rightarrow> ic_enable ic)
                              then ic_simulate_fetch phys_memaddr memaddr s
                              else evalsim_mem32 phys_memaddr memaddr s) (\<lambda>(temp, s).
                  case debug_check DebugLoadData (ucast temp) (bp, s) of (bp, s) \<Rightarrow> Inr (temp, bp, s))))"

section \<open>Stores\<close>

text \<open>A store to the word of a load lock releases it, even when translation takes an exception.\<close>

definition release_lock :: "u32 \<Rightarrow> 'z machine_scheme \<Rightarrow> 'z machine_scheme" where
  "release_lock phys s = (if phys AND NOT 3 = loadlock_addr s then s\<lparr>loadlock_active := False\<rparr> else s)"

definition set_mem32 :: "u32 \<Rightarrow> u32 \<Rightarrow> int \<Rightarrow> 'z board_scheme \<Rightarrow> (int \<times> 'z board_scheme) outcome" where
  "set_mem32 memaddr v bp s =
     (if memaddr AND 3 \<noteq> 0 then Inr (bp, except_handle EXCEPT_ALIGN memaddr s)
      else
        (case dmmu_translate memaddr True s of (phys_memaddr, s) \<Rightarrow>
           let s = release_lock phys_memaddr s
           in if except_pending s then Inr (bp, s)
              else
                (case debug_check DebugStoreData (ucast v)
                        (debug_check DebugStoreAddress (ucast memaddr) (bp, count_event SPR_PCMR_SA s)) of (bp, s) \<Rightarrow>
                   bind_outcome (if dc_enable (dcfg s) then dc_simulate_write phys_memaddr memaddr v 4 s
                                 else setsim_mem32 phys_memaddr memaddr v s) (\<lambda>s. Inr (bp, s)))))"

definition set_mem16 :: "u32 \<Rightarrow> u16 \<Rightarrow> int \<Rightarrow> 'z board_scheme \<Rightarrow> (int \<times> 'z board_scheme) outcome" where
  "set_mem16 memaddr v bp s =
     (if memaddr AND 1 \<noteq> 0 then Inr (bp, except_handle EXCEPT_ALIGN memaddr s)
      else
        (case dmmu_translate memaddr True s of (phys_memaddr, s) \<Rightarrow>
           let s = release_lock phys_memaddr s
           in if except_pending s then Inr (bp, s)
              else
                (case debug_check DebugStoreData (ucast v)
                        (debug_check DebugStoreAddress (ucast memaddr) (bp, count_event SPR_PCMR_SA s)) of (bp, s) \<Rightarrow>
                   bind_outcome (if dc_enable (dcfg s) then dc_simulate_write phys_memaddr memaddr (ucast v) 2 s
                                 else setsim_mem16 phys_memaddr memaddr v s) (\<lambda>s. Inr (bp, s)))))"

definition set_mem8 :: "u32 \<Rightarrow> u8 \<Rightarrow> int \<Rightarrow> 'z board_scheme \<Rightarrow> (int \<times> 'z board_scheme) outcome" where
  "set_mem8 memaddr v bp s =
     (case dmmu_translate memaddr True s of (phys_memaddr, s) \<Rightarrow>
        let s = release_lock phys_memaddr s
        in if except_pending s then Inr (bp, s)
           else
             (case debug_check DebugStoreData (ucast v)
                     (debug_check DebugStoreAddress (ucast memaddr) (bp, count_event SPR_PCMR_SA s)) of (bp, s) \<Rightarrow>
                bind_outcome (if dc_enable (dcfg s) then dc_simulate_write phys_memaddr memaddr (ucast v) 1 s
                              else setsim_mem8 phys_memaddr memaddr v s) (\<lambda>s. Inr (bp, s))))"

section \<open>Direct accesses\<close>

text \<open>The address of a direct access: a peek into the TLB when it goes through the MMU.\<close>

definition direct_addr :: "u32 \<Rightarrow> bool \<Rightarrow> bool \<Rightarrow> bool \<Rightarrow> 'z machine_scheme \<Rightarrow> u32 \<times> 'z machine_scheme" where
  "direct_addr memaddr write through_mmu through_dc s =
     (if through_mmu then peek_into_dtlb memaddr write through_dc s else (memaddr, s))"

definition eval_direct32 :: "u32 \<Rightarrow> bool \<Rightarrow> bool \<Rightarrow> 'z board_scheme \<Rightarrow> (u32 \<times> 'z board_scheme) outcome" where
  "eval_direct32 memaddr through_mmu through_dc s =
     (if memaddr AND 3 \<noteq> 0 then Inr (0, s)
      else
        (case direct_addr memaddr False through_mmu through_dc s of (phys_memaddr, s) \<Rightarrow>
           if through_dc then dc_simulate_read phys_memaddr memaddr 4 s
           else
             (case verify_memoryarea phys_memaddr s of
                (Some i, s) \<Rightarrow>
                  (let mem = dev_list s ! i in call_read32 (readfunc32 (direct_ops mem)) (phys_memaddr AND size_mask mem) s)
              | (None, s) \<Rightarrow> Inr (0, s))))"

definition eval_direct16 :: "u32 \<Rightarrow> bool \<Rightarrow> bool \<Rightarrow> 'z board_scheme \<Rightarrow> (u16 \<times> 'z board_scheme) outcome" where
  "eval_direct16 memaddr through_mmu through_dc s =
     (if memaddr AND 1 \<noteq> 0 then Inr (0, s)
      else
        (case direct_addr memaddr False through_mmu through_dc s of (phys_memaddr, s) \<Rightarrow>
           if through_dc then bind_outcome (dc_simulate_read phys_memaddr memaddr 2 s) (\<lambda>(v, s). Inr (ucast v, s))
           else
             (case verify_memoryarea phys_memaddr s of
                (Some i, s) \<Rightarrow>
                  (let mem = dev_list s ! i in call_read16 (readfunc16 (direct_ops mem)) (phys_memaddr AND size_mask mem) s)
              | (None, s) \<Rightarrow> Inr (0, s))))"

definition eval_direct8 :: "u32 \<Rightarrow> bool \<Rightarrow> bool \<Rightarrow> 'z board_scheme \<Rightarrow> (u8 \<times> 'z board_scheme) outcome" where
  "eval_direct8 memaddr through_mmu through_dc s =
     (case direct_addr memaddr False through_mmu through_dc s of (phys_memaddr, s) \<Rightarrow>
        if through_dc then bind_outcome (dc_simulate_read phys_memaddr memaddr 1 s) (\<lambda>(v, s). Inr (ucast v, s))
        else
          (case verify_memoryarea phys_memaddr s of
             (Some i, s) \<Rightarrow>
               (let mem = dev_list s ! i in call_read8 (readfunc8 (direct_ops mem)) (phys_memaddr AND size_mask mem) s)
           | (None, s) \<Rightarrow> Inr (0, s)))"

text \<open>
  Direct stores of words and halfwords through the cache use the virtual address; the word store
  peeks for a write, the others for a read.
\<close>

definition set_direct32 :: "u32 \<Rightarrow> u32 \<Rightarrow> bool \<Rightarrow> bool \<Rightarrow> 'z board_scheme \<Rightarrow> 'z board_scheme outcome" where
  "set_direct32 memaddr v through_mmu through_dc s =
     (if memaddr AND 3 \<noteq> 0 then Inr s
      else
        (case direct_addr memaddr True through_mmu through_dc s of (phys_memaddr, s) \<Rightarrow>
           if through_dc then dc_simulate_write memaddr memaddr v 4 s
           else
             (case verify_memoryarea phys_memaddr s of
                (Some i, s) \<Rightarrow>
                  (let mem = dev_list s ! i in call_write32 (writefunc32 (direct_ops mem)) (phys_memaddr AND size_mask mem) v s)
              | (None, s) \<Rightarrow> Inr s)))"

definition set_direct16 :: "u32 \<Rightarrow> u16 \<Rightarrow> bool \<Rightarrow> bool \<Rightarrow> 'z board_scheme \<Rightarrow> 'z board_scheme outcome" where
  "set_direct16 memaddr v through_mmu through_dc s =
     (if memaddr AND 1 \<noteq> 0 then Inr s
      else
        (case direct_addr memaddr False through_mmu through_dc s of (phys_memaddr, s) \<Rightarrow>
           if through_dc then dc_simulate_write memaddr memaddr (ucast v) 2 s
           else
             (case verify_memoryarea phys_memaddr s of
                (Some i, s) \<Rightarrow>
                  (let mem = dev_list s ! i in call_write16 (writefunc16 (direct_ops mem)) (phys_memaddr AND size_mask mem) v s)
              | (None, s) \<Rightarrow> Inr s)))"

definition set_direct8 :: "u32 \<Rightarrow> u8 \<Rightarrow> bool \<Rightarrow> bool \<Rightarrow> 'z board_scheme \<Rightarrow> 'z board_scheme outcome" where
  "set_direct8 memaddr v through_mmu through_dc s =
     (case direct_addr memaddr False through_mmu through_dc s of (phys_memaddr, s) \<Rightarrow>
        if through_dc then dc_simulate_write phys_memaddr memaddr (ucast v) 1 s
        else
          (case verify_memoryarea phys_memaddr s of
             (Some i, s) \<Rightarrow>
               (let mem = dev_list s ! i in call_write8 (writefunc8 (direct_ops mem)) (phys_memaddr AND size_mask mem) v s)
           | (None, s) \<Rightarrow> Inr s))"

end
