(* ===== verification/DmaTransfer.thy ===== *)
theory DmaTransfer
  imports Access
begin

text \<open>
  The transfers of the DMA controller, \<^verbatim>\<open>peripheral/dma.c\<close>: the clock of a channel, linked
  descriptors, the start and the end of a transfer. Memory is reached with the direct accesses of
  \<^verbatim>\<open>cpu/common/abstract.c\<close>, which may reach the controller's own registers.
\<close>

abbreviation dma_chan :: "nat \<Rightarrow> nat \<Rightarrow> 'z board_scheme \<Rightarrow> dma_channel" where
  "dma_chan k c s \<equiv> dma_ch (dmas s ! k) ! c"

definition upd_dma :: "nat \<Rightarrow> (dma \<Rightarrow> dma) \<Rightarrow> 'z board_scheme \<Rightarrow> 'z board_scheme" where
  "upd_dma k f s = s\<lparr>dmas := (dmas s)[k := f (dmas s ! k)]\<rparr>"

definition upd_chan :: "nat \<Rightarrow> nat \<Rightarrow> (dma_channel \<Rightarrow> dma_channel) \<Rightarrow> 'z board_scheme \<Rightarrow> 'z board_scheme" where
  "upd_chan k c f s = upd_dma k (upd_ch c f) s"

definition masked_increase :: "u32 \<Rightarrow> u32 \<Rightarrow> u32" where
  "masked_increase v m = (v AND NOT m) OR ((v + 4) AND m)"

definition dma_init_transfer :: "dma_channel \<Rightarrow> dma_channel" where
  "dma_init_transfer h =
     (let tot = get_field 0 12 (ch_sz h); chk = get_field 16 9 (ch_sz h)
      in h\<lparr>ch_source := ucast (ch_a0 h), ch_destination := ucast (ch_a1 h),
           source_mask := (if bit (ch_csr h) INC_SRC then ucast (ch_am0 h) else 0),
           destination_mask := (if bit (ch_csr h) INC_DST then ucast (ch_am1 h) else 0),
           total_size := tot, chunk_size := (if chk = 0 \<or> chk > tot then tot else chk),
           words_transferred := 0\<rparr>)"

text \<open>A descriptor of a linked list is read word by word; the fields of its status are copied.\<close>

definition dma_load_descriptor :: "nat \<Rightarrow> nat \<Rightarrow> 'z board_scheme \<Rightarrow> 'z board_scheme outcome" where
  "dma_load_descriptor k c s =
     bind_outcome (eval_direct32 (ucast (ch_desc (dma_chan k c s))) False False s) (\<lambda>(w, s).
       let desc = ucast w;
           s = upd_chan k c (\<lambda>h. h\<lparr>load_next_descriptor := \<not> bit desc 20,
                 ch_csr := assign_flag DST_SEL (bit desc 16) (assign_flag SRC_SEL (bit desc 17)
                             (assign_flag INC_DST (bit desc 18) (assign_flag INC_SRC (bit desc 19) (ch_csr h)))),
                 ch_sz := set_field 0 12 (get_field 0 12 desc) (ch_sz h)\<rparr>) s
       in bind_outcome (eval_direct32 (ucast (ch_desc (dma_chan k c s) + 4)) False False s) (\<lambda>(w, s).
          bind_outcome (eval_direct32 (ucast (ch_desc (dma_chan k c s) + 8)) False False
              (upd_chan k c (ch_a0_update (\<lambda>_. ucast w)) s)) (\<lambda>(w, s).
          let s = upd_chan k c (\<lambda>h. h\<lparr>ch_a1 := ucast w, current_descriptor := ch_desc h\<rparr>) s
          in bind_outcome (eval_direct32 (ucast (ch_desc (dma_chan k c s) + 12)) False False s) (\<lambda>(w, s).
             Inr (upd_chan k c (ch_desc_update (\<lambda>_. ucast w)) s)))))"

text \<open>The interrupt of a channel, when it is enabled and not masked.\<close>

definition dma_interrupt :: "nat \<Rightarrow> nat \<Rightarrow> nat \<Rightarrow> nat \<Rightarrow> 'z board_scheme \<Rightarrow> 'z board_scheme outcome" where
  "dma_interrupt k c enable flag s =
     (let h = dma_chan k c s
      in if bit (ch_csr h) enable \<and> int_msk_a (dmas s ! k) AND ch_mask h \<noteq> 0
         then report_interrupt (d_irq (dmas s ! k))
                (upd_dma k (int_src_a_update (\<lambda>_. ch_mask h)) (upd_chan k c (\<lambda>h. h\<lparr>ch_csr := set_flag flag (ch_csr h)\<rparr>) s))
         else Inr s)"

definition dma_channel_terminate_transfer :: "nat \<Rightarrow> nat \<Rightarrow> bool \<Rightarrow> 'z board_scheme \<Rightarrow> 'z board_scheme outcome" where
  "dma_channel_terminate_transfer k c generate_interrupt s =
     (let h = dma_chan k c s
      in if load_next_descriptor h
         then bind_outcome (dma_load_descriptor k c s) (\<lambda>s. SCHED_ADD (Dma_channel_clock k c) 1 (upd_chan k c dma_init_transfer s))
         else if bit (ch_csr h) CH_ARS then Inr (upd_chan k c dma_init_transfer s)
         else
           (let s = (if bit (ch_csr h) SZ_WB \<and> bit (ch_csr h) USE_ED
                     then upd_chan k c (\<lambda>h. h\<lparr>ch_sz := set_field 0 12 (total_size h - words_transferred h) (ch_sz h)\<rparr>) s else s);
                s = upd_chan k c (\<lambda>h. h\<lparr>ch_csr := clear_flag CH_BUSY (clear_flag CH_ERR (set_flag CH_DONE (clear_flag CH_EN (ch_csr h))))\<rparr>) s
            in if generate_interrupt then dma_interrupt k c INE_DONE INT_DONE s else Inr s))"

definition channel_nd_i :: "dma_channel \<Rightarrow> bool" where
  "channel_nd_i h \<longleftrightarrow> bit (ch_csr h) CH_MODE \<and> bit (ch_csr h) USE_ED \<and> dma_nd_i h"

text \<open>The first clock of a transfer loads the descriptor and the internal state.\<close>

definition dma_start :: "nat \<Rightarrow> nat \<Rightarrow> 'z board_scheme \<Rightarrow> 'z board_scheme outcome" where
  "dma_start k c s =
     (let s = upd_chan k c (\<lambda>h. h\<lparr>ch_csr := set_flag CH_BUSY (clear_flag CH_ERR (clear_flag CH_DONE (ch_csr h)))\<rparr>) s
      in bind_outcome (if bit (ch_csr (dma_chan k c s)) USE_ED then dma_load_descriptor k c s
                       else Inr (upd_chan k c (load_next_descriptor_update (\<lambda>_. False)) s))
           (\<lambda>s. Inr (upd_chan k c dma_init_transfer s)))"

text \<open>One word, and what follows it; the remainder by a chunk of size 0 is undefined.\<close>

definition dma_word :: "nat \<Rightarrow> nat \<Rightarrow> 'z board_scheme \<Rightarrow> 'z board_scheme outcome" where
  "dma_word k c s =
     bind_outcome (eval_direct32 (ch_source (dma_chan k c s)) False False s) (\<lambda>(w, s).
     bind_outcome (set_direct32 (ch_destination (dma_chan k c s)) w False False s) (\<lambda>s.
       let s = upd_chan k c (\<lambda>h. h\<lparr>ch_source := masked_increase (ch_source h) (source_mask h),
                 ch_destination := masked_increase (ch_destination h) (destination_mask h),
                 words_transferred := words_transferred h + 1\<rparr>) s
       in if chunk_size (dma_chan k c s) = 0 then Inl Undefined_behaviour
          else
            (let s = upd_chan k c (\<lambda>h. h\<lparr>dma_ack_o := (words_transferred h mod chunk_size h = 0)\<rparr>) s;
                 h = dma_chan k c s
             in if channel_nd_i h then dma_channel_terminate_transfer k c False s
                else if words_transferred h \<ge> total_size h then dma_channel_terminate_transfer k c True s
                else SCHED_ADD (Dma_channel_clock k c) 1 s)))"

definition dma_channel_clock :: "nat \<Rightarrow> nat \<Rightarrow> 'z board_scheme \<Rightarrow> 'z board_scheme outcome" where
  "dma_channel_clock k c s =
     (let h = dma_chan k c s
      in if bit (ch_csr h) CH_STOP
         then dma_interrupt k c INE_ERR INT_ERR
                (upd_chan k c (\<lambda>h. h\<lparr>ch_csr := set_flag CH_ERR (clear_flag CH_BUSY (clear_flag CH_EN (ch_csr h)))\<rparr>) s)
         else if bit (ch_csr h) CH_MODE \<and> \<not> dma_req_i h then SCHED_ADD (Dma_channel_clock k c) 1 s
         else if bit (ch_csr h) CH_BUSY then dma_word k c s
         else
           bind_outcome (dma_start k c s) (\<lambda>s.
             if channel_nd_i (dma_chan k c s) then dma_channel_terminate_transfer k c False s else dma_word k c s))"

end
