(* ===== verification/Devices.thy ===== *)
theory Devices
  imports DmaTransfer
begin

text \<open>
  The peripherals on the board: the jobs the scheduler runs for them, and the ends of their
  configuration sections, which install them in the memory map. Reset and status functions are
  registered with \<^verbatim>\<open>toplevel-support.c\<close>, which is not modelled.
\<close>

section \<open>Jobs\<close>

definition run_uart :: "uart_job \<Rightarrow> nat \<Rightarrow> uart \<times> 'z machine_scheme \<Rightarrow> (uart \<times> 'z machine_scheme) outcome" where
  "run_uart j n us =
     (case j of
        Uart_int_cti \<Rightarrow> uart_int_cti us
      | Uart_char_clock \<Rightarrow> uart_char_clock n us
      | Uart_send_break \<Rightarrow> uart_send_break n us
      | Uart_tx_send \<Rightarrow> uart_tx_send n us
      | Uart_recv_char \<Rightarrow> uart_recv_char n us
      | Uart_check_char \<Rightarrow> uart_check_char n us
      | Uart_recv_break \<Rightarrow> uart_recv_break n us
      | Uart_recv_break_start \<Rightarrow> uart_recv_break_start n us
      | Uart_recv_break_stop \<Rightarrow> Inr (uart_recv_break_stop n us)
      | Uart_vapi_cmd \<Rightarrow> uart_vapi_cmd n us)"

definition run_device :: "client_job \<Rightarrow> 'z board_scheme \<Rightarrow> 'z board_scheme outcome" where
  "run_device j s =
     (case j of
        Uart_job f n \<Rightarrow> uart_run n (run_uart f n) s
      | Gpio_clock n \<Rightarrow> gpio_run n (gpio_clock n) s
      | Gpio_do_int n \<Rightarrow> gpio_run n gpio_do_int s
      | Dma_channel_clock k c \<Rightarrow> dma_channel_clock k c s
      | _ \<Rightarrow> Inr s)"

section \<open>Configuration\<close>

definition uart_sec_end :: "uart \<Rightarrow> 'z board_scheme \<Rightarrow> 'z board_scheme outcome" where
  "uart_sec_end u s =
     (if \<not> u_enabled u then Inr s
      else
        (let n = length (uarts s)
         in bind_outcome (reg_mem_area (u_baseaddr u) 8 False
                (no_ops\<lparr>readfunc8 := Some (Uart_read n), writefunc8 := Some (Uart_write n), delayr := 2, delayw := 2\<rparr>)
                (s\<lparr>uarts := uarts s @ [u]\<rparr>)) (\<lambda>(i, s). Inr s)))"

definition gpio_sec_end :: "gpio \<Rightarrow> 'z board_scheme \<Rightarrow> 'z board_scheme outcome" where
  "gpio_sec_end g s =
     (if \<not> g_enabled g then Inr s
      else
        (let n = length (gpios s)
         in bind_outcome (reg_mem_area (g_baseaddr g) 0x20 False
                (no_ops\<lparr>readfunc32 := Some (Gpio_read n), writefunc32 := Some (Gpio_write n), delayr := 2, delayw := 2\<rparr>)
                (s\<lparr>gpios := gpios s @ [g]\<rparr>)) (\<lambda>(i, s). Inr s)))"

text \<open>The list of controllers keeps the order of configuration.\<close>

definition dma_sec_end :: "dma \<Rightarrow> 'z board_scheme \<Rightarrow> 'z board_scheme outcome" where
  "dma_sec_end d s =
     (if \<not> d_enabled d then Inr s
      else
        (let n = length (dmas s)
         in bind_outcome (reg_mem_area (d_baseaddr d) 0x400 False
                (no_ops\<lparr>readfunc32 := Some (Dma_read n), writefunc32 := Some (Dma_write n), delayr := 2, delayw := 2\<rparr>)
                (s\<lparr>dmas := dmas s @ [d]\<rparr>)) (\<lambda>(i, s). Inr s)))"

definition find_dma_controller_ch :: "nat \<Rightarrow> nat \<Rightarrow> 'z board_scheme \<Rightarrow> (nat \<times> nat) option" where
  "find_dma_controller_ch controller c s = (if controller < length (dmas s) then Some (controller, c) else None)"

end
