(* ===== verification/Ports.thy ===== *)
theory Ports
  imports Access
begin

text \<open>
  Memory as a program sees it: sequences of loads and stores of words, past the cache, through it,
  and from the processor, where translation, watchpoints and counters take part. An abstract memory
  that maps places to words is what each of these levels implements.
\<close>

section \<open>The interface\<close>

datatype access = Load u32 | Store u32 u32

primrec access_addr :: "access \<Rightarrow> u32" where
  "access_addr (Load a) = a"
| "access_addr (Store a v) = a"

text \<open>A sequence of accesses, with the list of the values loaded.\<close>

fun run_port ::
  "(u32 \<Rightarrow> 's \<Rightarrow> (u32 \<times> 's) outcome) \<Rightarrow> (u32 \<Rightarrow> u32 \<Rightarrow> 's \<Rightarrow> 's outcome) \<Rightarrow> access list \<Rightarrow> 's \<Rightarrow> (u32 list \<times> 's) outcome"
where
  "run_port ld st [] s = Inr ([], s)"
| "run_port ld st (Load a # xs) s =
     bind_outcome (ld a s) (\<lambda>(v, s). bind_outcome (run_port ld st xs s) (\<lambda>(vs, s). Inr (v # vs, s)))"
| "run_port ld st (Store a v # xs) s = bind_outcome (st a v s) (run_port ld st xs)"

text \<open>The same sequence on an abstract memory, behind a fixed translation.\<close>

fun run_memory :: "(u32 \<Rightarrow> u32) \<Rightarrow> access list \<Rightarrow> (u32 \<Rightarrow> u32) \<Rightarrow> u32 list \<times> (u32 \<Rightarrow> u32)" where
  "run_memory tr [] m = ([], m)"
| "run_memory tr (Load a # xs) m = (case run_memory tr xs m of (vs, m') \<Rightarrow> (m (tr a) # vs, m'))"
| "run_memory tr (Store a v # xs) m = run_memory tr xs (m(tr a := v))"

text \<open>
  A port: while the state is good, an address with a place can be loaded and stored. A load returns
  the word at the place; a store changes that word alone. Neither moves a place.
\<close>

locale memory_port =
  fixes ld :: "u32 \<Rightarrow> 's \<Rightarrow> (u32 \<times> 's) outcome"
    and st :: "u32 \<Rightarrow> u32 \<Rightarrow> 's \<Rightarrow> 's outcome"
    and good :: "'s \<Rightarrow> bool"
    and place :: "'s \<Rightarrow> u32 \<Rightarrow> u32 \<Rightarrow> bool"
    and word :: "'s \<Rightarrow> u32 \<Rightarrow> u32 \<Rightarrow> bool"
  assumes load: "good s \<Longrightarrow> place s a p \<Longrightarrow> word s p v
      \<Longrightarrow> \<exists>s'. ld a s = Inr (v, s') \<and> good s' \<and> place s' = place s \<and> word s' = word s"
    and store: "good s \<Longrightarrow> place s a p \<Longrightarrow> word s p v0
      \<Longrightarrow> \<exists>s'. st a v s = Inr s' \<and> good s' \<and> place s' = place s \<and> word s' p v
         \<and> (\<forall>b q w. place s b q \<longrightarrow> q \<noteq> p \<longrightarrow> word s q w \<longrightarrow> word s' q w)"
begin

lemma load_store:
  assumes "good s" "place s a p" "word s p v0"
  obtains s' s'' where "st a v s = Inr s'" "ld a s' = Inr (v, s'')" "good s''" "place s'' = place s"
proof -
  obtain s' where s': "st a v s = Inr s'" "good s'" "place s' = place s" "word s' p v"
    using store[OF assms, of v] by blast
  then obtain s'' where "ld a s' = Inr (v, s'')" "good s''" "place s'' = place s'"
    using load[of s' a p v] assms(2) by auto
  with s' show thesis using that by simp
qed

text \<open>Every sequence of accesses behaves as on the abstract memory.\<close>

lemma refines:
  assumes "good s" "\<forall>x \<in> set xs. place s (access_addr x) (tr (access_addr x))"
    and "\<forall>a p. place s a p \<longrightarrow> word s p (m p)"
  shows "\<exists>s'. run_port ld st xs s = Inr (fst (run_memory tr xs m), s') \<and> good s' \<and> place s' = place s
     \<and> (\<forall>a p. place s a p \<longrightarrow> word s' p (snd (run_memory tr xs m) p))"
  using assms
proof (induction xs arbitrary: s m)
  case Nil
  then show ?case by simp
next
  case (Cons x xs)
  show ?case
  proof (cases x)
    case (Load a)
    have "place s a (tr a)" using Cons.prems(2) Load by simp
    then obtain s1 where s1: "ld a s = Inr (m (tr a), s1)" "good s1" "place s1 = place s" "word s1 = word s"
      using load[OF Cons.prems(1)] Cons.prems(3) by blast
    then show ?thesis
      using Cons.IH[of s1 m] Cons.prems Load by (auto split: prod.split)
  next
    case (Store a v)
    have p: "place s a (tr a)" using Cons.prems(2) Store by simp
    then obtain s1 where s1: "st a v s = Inr s1" "good s1" "place s1 = place s" "word s1 (tr a) v"
      "\<forall>b q w. place s b q \<longrightarrow> q \<noteq> tr a \<longrightarrow> word s q w \<longrightarrow> word s1 q w"
      using store[OF Cons.prems(1), of a "tr a" "m (tr a)" v] Cons.prems(3) by blast
    define m1 where "m1 = m(tr a := v)"
    have "\<forall>b q. place s b q \<longrightarrow> word s1 q (m1 q)" using Cons.prems(3) s1(4,5) by (simp add: m1_def)
    then show ?thesis
      using Cons.IH[of s1 m1] Cons.prems(2) s1(1-3) Store by (simp flip: m1_def)
  qed
qed

end

section \<open>Plain memory\<close>

text \<open>Past the cache, an aligned address of plain memory is its own place.\<close>

definition ram_place :: "'z board_scheme \<Rightarrow> u32 \<Rightarrow> u32 \<Rightarrow> bool" where
  "ram_place s a p \<longleftrightarrow> p = a \<and> 4 dvd unat a \<and> (\<exists>v. ram_word s a v)"

definition ram_good :: "'z board_scheme \<Rightarrow> bool" where
  "ram_good s \<longleftrightarrow> areas_inv s \<and> ram_inj s"

lemma aligned_word: "4 dvd unat a \<Longrightarrow> a AND NOT 3 = (a :: u32)"
  using unat_and_not_3[of a] by (simp only: word_unat_eq_iff) (metis dvd_mult_div_cancel)

lemma store_ram_word:
  assumes "areas_inv s" "ram_inj s" "ram_word s a v0" "4 dvd unat a"
  shows "\<exists>s'. setsim_mem32 a va v s = Inr s' \<and> stored a v s s'"
  using store_ram[OF assms(1,3,2), of 4 va v] assms(4) by (simp add: store_width_def dc_merge_def aligned_def)

lemma stored_words:
  assumes "stored a v s s'" "ram_word s a v0" "4 dvd unat a" "4 dvd unat q" "q \<noteq> a"
  shows "ram_word s' q = ram_word s q"
  using assms(1) aligned_word[OF assms(3)] aligned_word[OF assms(4)] assms(5) unfolding stored_def by metis

lemma stored_exists: "stored a v s s' \<Longrightarrow> ram_word s a v0 \<Longrightarrow> (\<exists>w. ram_word s' q w) = (\<exists>w. ram_word s q w)"
proof (cases "q AND NOT 3 = a AND NOT 3")
  case True
  assume "stored a v s s'" "ram_word s a v0"
  then show ?thesis unfolding stored_def ram_word_same[OF True] by blast
qed (simp add: stored_def)

lemma ram_place_cong: "(\<And>q. (\<exists>w. ram_word s' q w) = (\<exists>w. ram_word s q w)) \<Longrightarrow> ram_place s' = ram_place s"
  by (simp add: ram_place_def fun_eq_iff)

interpretation physical: memory_port "\<lambda>a. evalsim_mem32 a va" "\<lambda>a. setsim_mem32 a va" ram_good ram_place ram_word
proof
  fix s :: "'z board_scheme" and a p v assume g: "ram_good s" "ram_place s a p" "ram_word s p v"
  let ?s = "touch_area a (\<lambda>a. delayr (ops a)) s"
  have sm: "same_mem s ?s" using g(1) by (simp add: ram_good_def)
  from g have "evalsim_mem32 a va s = Inr (v, ?s)" by (auto simp: ram_good_def ram_place_def intro: load_ram_word)
  moreover have "ram_good ?s" using g(1) sm same_mem_ram(2)[OF sm] by (simp add: ram_good_def same_mem_def)
  ultimately show "\<exists>s'. evalsim_mem32 a va s = Inr (v, s') \<and> ram_good s' \<and> ram_place s' = ram_place s \<and> ram_word s' = ram_word s"
    using same_mem_ram(1)[OF sm] ram_place_cong[of ?s s] by simp
next
  fix s :: "'z board_scheme" and a p v0 v assume g: "ram_good s" "ram_place s a p" "ram_word s p v0"
  then have a: "p = a" "4 dvd unat a" "areas_inv s" "ram_inj s" "ram_word s a v0" by (simp_all add: ram_good_def ram_place_def)
  obtain s' where s': "setsim_mem32 a va v s = Inr s'" "stored a v s s'"
    using store_ram_word[OF a(3-5,2)] by blast
  moreover have "ram_good s'" "ram_word s' a v" using s'(2) a(4) by (simp_all add: stored_def ram_good_def)
  moreover have "ram_place s' = ram_place s" using stored_exists[OF s'(2) a(5)] by (rule ram_place_cong)
  moreover have "ram_word s' q w" if "ram_place s b q" "q \<noteq> p" "ram_word s q w" for b q w
    using stored_words[OF s'(2) a(5,2), of q] that a(1) by (auto simp: ram_place_def)
  ultimately show "\<exists>s'. setsim_mem32 a va v s = Inr s' \<and> ram_good s' \<and> ram_place s' = ram_place s \<and> ram_word s' p v
     \<and> (\<forall>b q w. ram_place s b q \<longrightarrow> q \<noteq> p \<longrightarrow> ram_word s q w \<longrightarrow> ram_word s' q w)"
    unfolding a(1) by blast
qed


section \<open>Through the cache\<close>

definition cache_good :: "'z board_scheme \<Rightarrow> bool" where
  "cache_good s \<longleftrightarrow> dc_inv_state s \<and> ram_inj s \<and> \<not> dc_off s"

definition cache_place :: "'z board_scheme \<Rightarrow> u32 \<Rightarrow> u32 \<Rightarrow> bool" where
  "cache_place s a p \<longleftrightarrow> p = a \<and> 4 dvd unat a \<and> ram_block s a"

lemma core_kept_off: "core_kept s s' \<Longrightarrow> dc_off s' = dc_off s"
  by (simp add: core_kept_def dc_off_def)

lemma ram_block_cong:
  assumes "\<And>q. (\<exists>w. ram_word s' q w) = (\<exists>w. ram_word s q w)" "dcfg s' = dcfg s"
  shows "ram_block s' = ram_block s"
  unfolding ram_block_def assms by simp

lemma ram_block_word: "ram_block s a \<Longrightarrow> \<exists>v. ram_word s a v"
  by (simp add: ram_block_def)

text \<open>Loads and stores of words through a coherent cache that is on.\<close>

lemma cache_load:
  assumes "dc_inv_state s" "ram_block s a" "4 dvd unat a" "ram_word s a v"
  shows "\<exists>s'. dc_simulate_read a va 4 s = Inr (v, s') \<and> same_mem s s' \<and> dc_coherent s'"
proof -
  have al: "aligned a 4" using assms(3) by (simp add: aligned_def)
  have I: "areas_inv s" using assms(1) by (simp add: dc_inv_state_def)
  show ?thesis
    using dc_read_result[OF assms(1,2) al, of va] load_ram[OF I assms(4) al, of va] by (auto simp: dc_part_def)
qed

lemma cache_store:
  assumes "dc_inv_state s" "ram_block s a" "4 dvd unat a" "ram_inj s" "\<not> dc_off s"
  shows "\<exists>s1 s'. dc_simulate_write a va v 4 s = Inr s' \<and> stored a v s s1 \<and> same_mem s1 s' \<and> dc_coherent s'"
proof -
  have al: "aligned a 4" using assms(3) by (simp add: aligned_def)
  obtain v0 where "ram_word s a v0" using ram_block_word[OF assms(2)] by blast
  from dc_write_result[OF assms(1,2) al assms(4,5) this, of va v] show ?thesis by (auto simp: dc_merge_def)
qed

interpretation cached: memory_port "\<lambda>a. dc_simulate_read a va 4" "\<lambda>a v. dc_simulate_write a va v 4" cache_good cache_place ram_word
proof
  fix s :: "'z board_scheme" and a p v assume g: "cache_good s" "cache_place s a p" "ram_word s p v"
  then have a: "p = a" "dc_inv_state s" "ram_inj s" "\<not> dc_off s" "4 dvd unat a" "ram_block s a" by (simp_all add: cache_good_def cache_place_def)
  obtain s' where s': "dc_simulate_read a va 4 s = Inr (v, s')" "same_mem s s'" "dc_coherent s'"
    using cache_load[OF a(2,6,5)] g(3) a(1) by blast
  have w: "ram_word s' = ram_word s" "ram_inj s'" "dcfg s' = dcfg s" "\<not> dc_off s'" "areas_inv s' = areas_inv s"
    using same_mem_ram[OF s'(2)] a core_kept_off[of s s'] s'(2) by (simp_all add: same_mem_def)
  then have "cache_good s'" using s'(3) a(2) by (simp add: cache_good_def dc_inv_state_def)
  moreover have "cache_place s' = cache_place s"
    using w(1,3) ram_block_cong[of s' s] by (simp add: cache_place_def fun_eq_iff)
  ultimately show "\<exists>s'. dc_simulate_read a va 4 s = Inr (v, s') \<and> cache_good s' \<and> cache_place s' = cache_place s \<and> ram_word s' = ram_word s"
    using s'(1) w(1) by blast
next
  fix s :: "'z board_scheme" and a p v0 v assume g: "cache_good s" "cache_place s a p" "ram_word s p v0"
  then have a: "p = a" "dc_inv_state s" "ram_inj s" "\<not> dc_off s" "4 dvd unat a" "ram_block s a" by (simp_all add: cache_good_def cache_place_def)
  obtain s1 s' where s': "dc_simulate_write a va v 4 s = Inr s'" "stored a v s s1" "same_mem s1 s'" "dc_coherent s'"
    using cache_store[OF a(2,6,5,3,4)] by blast
  have v0: "ram_word s a v0" using g(3) a(1) by simp
  have w: "ram_word s' = ram_word s1" "ram_inj s'" "dcfg s' = dcfg s" "\<not> dc_off s'" "areas_inv s'"
    using same_mem_ram[OF s'(3)] a(3,4) core_kept_off[of s1 s'] s'(2,3) by (simp_all add: same_mem_def stored_def)
  then have "cache_good s'" using s'(4) a(2) by (simp add: cache_good_def dc_inv_state_def)
  moreover have "cache_place s' = cache_place s"
    using ram_block_cong[of s' s] stored_exists[OF s'(2) v0] w(1,3) by (simp add: cache_place_def fun_eq_iff)
  moreover have "ram_word s' p v" using s'(2) a(1) w(1) by (simp add: stored_def)
  moreover have "ram_word s' q w" if "cache_place s b q" "q \<noteq> p" "ram_word s q w" for b q w
    using stored_words[OF s'(2) v0 a(5), of q] that a(1) w(1) by (auto simp: cache_place_def)
  ultimately show "\<exists>s'. dc_simulate_write a va v 4 s = Inr s' \<and> cache_good s' \<and> cache_place s' = cache_place s \<and> ram_word s' p v
     \<and> (\<forall>b q w. cache_place s b q \<longrightarrow> q \<noteq> p \<longrightarrow> ram_word s q w \<longrightarrow> ram_word s' q w)"
    using s'(1) by blast
qed


section \<open>Translation\<close>

text \<open>Where the data MMU puts an access it lets through, and whether it inhibits the cache.\<close>

definition data_xlate :: "'z machine_scheme \<Rightarrow> u32 \<Rightarrow> bool \<Rightarrow> (u32 \<times> u32) option" where
  "data_xlate s va wr =
     (if \<not> spr_has s SPR_SR SPR_SR_DME \<or> \<not> spr_has s SPR_UPR SPR_UPR_DMP
      then Some (va, if va \<ge> 0x80000000 then 1 else 0)
      else
        (case fst (dmmu_find_tlbmr va s) of
           None \<Rightarrow> None
         | Some h \<Rightarrow>
             if dtlb_forbids s wr (sprs s (h + 128)) then None
             else Some ((sprs s (h + 128) AND SPR_DTLBTR_PPN) OR (va AND page_offset_mask (dmmu_state s)),
                        sprs s (h + 128) AND SPR_DTLBTR_CI)))"

text \<open>Two states whose TLBs differ in the LRU fields only.\<close>

definition tlb_same :: "'z machine_scheme \<Rightarrow> 'z machine_scheme \<Rightarrow> bool" where
  "tlb_same s s' \<longleftrightarrow> dmmu_state s' = dmmu_state s \<and> sprs s' SPR_SR = sprs s SPR_SR \<and> sprs s' SPR_UPR = sprs s SPR_UPR
     \<and> (\<forall>w<4. \<forall>k<128. sprs s' (0xA00 + k + 256 * w) AND NOT TLBMR_LRU = sprs s (0xA00 + k + 256 * w) AND NOT TLBMR_LRU
          \<and> sprs s' (0xA00 + k + 256 * w + 128) = sprs s (0xA00 + k + 256 * w + 128))"

lemma tlb_same_refl [simp]: "tlb_same s s"
  by (simp add: tlb_same_def)

lemma tlb_same_trans: "tlb_same s t \<Longrightarrow> tlb_same t u \<Longrightarrow> tlb_same s u"
  by (simp add: tlb_same_def)

lemma core_kept_tlb: "core_kept s s' \<Longrightarrow> tlb_same s s'"
  by (simp add: core_kept_def tlb_same_def)

text \<open>Pages of at least 256 bytes: the LRU fields are not compared with the address.\<close>

definition tlb_ok :: "mmu \<Rightarrow> bool" where
  "tlb_ok u \<longleftrightarrow> mmu_wf u \<and> vpn_mask u AND TLBMR_LRU = 0"

lemma masked_eq:
  fixes x y m l :: u32
  assumes "x AND NOT l = y AND NOT l" "m AND l = 0"
  shows "x AND m = y AND m"
proof (rule bit_word_eqI)
  fix i assume "i < LENGTH(32)"
  then show "bit (x AND m) i = bit (y AND m) i"
    using arg_cong[OF assms(1), of "\<lambda>w. bit w i"] arg_cong[OF assms(2), of "\<lambda>w. bit w i"] by (auto simp: bit_simps)
qed

lemma scan_ways_same:
  assumes "\<And>w. w < n \<Longrightarrow> spr' (r + 256 * w) AND NOT TLBMR_LRU = spr (r + 256 * w) AND NOT TLBMR_LRU" "vm AND TLBMR_LRU = 0"
  shows "scan_ways n r vm vpn spr' = scan_ways n r vm vpn spr"
  using assms(1)
proof (induction n arbitrary: r)
  case (Suc n)
  have r: "spr' r AND NOT TLBMR_LRU = spr r AND NOT TLBMR_LRU" using Suc.prems[of 0] by simp
  have "scan_ways n (r + 256) vm vpn spr' = scan_ways n (r + 256) vm vpn spr"
    using Suc.prems[of "Suc w" for w] by (intro Suc.IH) (simp add: add.assoc)
  moreover have "spr' r AND vm = spr r AND vm" using masked_eq[OF r assms(2)] .
  moreover have "spr' r AND TLBMR_V = spr r AND TLBMR_V" using masked_eq[OF r, of TLBMR_V] by simp
  ultimately show ?case by simp
qed simp

lemma data_xlate_same:
  assumes "tlb_ok (dmmu_state s)" "tlb_same s s'"
  shows "data_xlate s' = data_xlate s"
proof (intro ext)
  fix va wr
  let ?u = "dmmu_state s" and ?r = "0xA00 + tlb_set (dmmu_state s) va"
  have wf: "mmu_wf ?u" "nways ?u \<le> 4" "vpn_mask ?u AND TLBMR_LRU = 0" using assms(1) by (simp_all add: tlb_ok_def mmu_wf_def)
  note k = tlb_set_less[OF wf(1), of va]
  have T: "dmmu_state s' = ?u" "sprs s' SPR_SR = sprs s SPR_SR" "sprs s' SPR_UPR = sprs s SPR_UPR"
    "\<And>w. w < nways ?u \<Longrightarrow> sprs s' (?r + 256 * w) AND NOT TLBMR_LRU = sprs s (?r + 256 * w) AND NOT TLBMR_LRU"
    "\<And>w. w < nways ?u \<Longrightarrow> sprs s' (?r + 256 * w + 128) = sprs s (?r + 256 * w + 128)"
    using assms(2) k wf(2) unfolding tlb_same_def by (blast, blast, blast, meson order.strict_trans2, meson order.strict_trans2)
  have find: "dmmu_find_tlbmr va s' = dmmu_find_tlbmr va s"
    unfolding dmmu_find_tlbmr_def Let_def T(1) using scan_ways_same[of _ "sprs s'" _ "sprs s", OF T(4) wf(3)] by simp
  have hit: "sprs s' (h + 128) = sprs s (h + 128)" if find: "fst (dmmu_find_tlbmr va s) = Some h" for h
  proof -
    obtain r where "dmmu_find_tlbmr va s = (Some h, r)" using find by (metis prod.collapse)
    then show ?thesis using dmmu_find_Some[of va s h r] T(5) by auto
  qed
  show "data_xlate s' va wr = data_xlate s va wr"
    unfolding data_xlate_def find T(1-3) dtlb_forbids_def using hit by (auto split: option.splits)
qed

lemma translate_xlate:
  assumes "mmu_wf (dmmu_state s)" "data_xlate s va wr = Some (p, ci)"
  shows "\<exists>f n. dmmu_translate va wr s = (p, s\<lparr>sprs := f, data_ci := ci, mem_cycles := n\<rparr>)
     \<and> tlb_same s (s\<lparr>sprs := f\<rparr>)"
proof (cases "spr_has s SPR_SR SPR_SR_DME \<and> spr_has s SPR_UPR SPR_UPR_DMP")
  case False
  then show ?thesis
    using assms(2) by (intro exI[of _ "sprs s"] exI[of _ "mem_cycles s"]) (auto simp: data_xlate_def dmmu_translate_def)
next
  case True
  with assms(2) obtain h where h: "fst (dmmu_find_tlbmr va s) = Some h" "\<not> dtlb_forbids s wr (sprs s (h + 128))"
    "p = (sprs s (h + 128) AND SPR_DTLBTR_PPN) OR (va AND page_offset_mask (dmmu_state s))"
    "ci = sprs s (h + 128) AND SPR_DTLBTR_CI"
    by (auto simp: data_xlate_def split: option.splits if_splits)
  then obtain r where find: "dmmu_find_tlbmr va s = (Some h, r)" by (metis prod.collapse)
  obtain w where w: "h = r + 256 * w" "w < nways (dmmu_state s)" "r = 0xA00 + tlb_set (dmmu_state s) va"
    using dmmu_find_Some[OF find] by auto
  let ?f = "touch_lru (dmmu_state s) r h (sprs s)"
  have apart: "128 + (k + 256 * v) \<noteq> t + 256 * v'" if "k < 128" "t < 128" for k t v v' :: nat
  proof
    assume "128 + (k + 256 * v) = t + 256 * v'"
    then have "(k + 128 + 256 * v) mod 256 = (t + 256 * v') mod 256" by (simp add: ac_simps)
    then show False using that by simp
  qed
  have "?f (0xA00 + k + 256 * v + 128) = sprs s (0xA00 + k + 256 * v + 128)" if "k < 128" for k v
    using apart[OF that tlb_set_less[OF assms(1), of va]] unfolding w(1,3) by (intro touch_lru_outside) (simp_all add: add.assoc)
  moreover have "?f SPR_SR = sprs s SPR_SR" "?f SPR_UPR = sprs s SPR_UPR"
    using w(3) touch_lru_low[OF _ w(1)] by simp_all
  ultimately have "tlb_same s (s\<lparr>sprs := ?f\<rparr>)"
    using touch_lru_other[OF assms(1)] by (simp add: tlb_same_def)
  then show ?thesis
    using dmmu_hit_unfold[OF find, of wr] True h touch_lru_tr[OF w(1)]
    by (intro exI[of _ ?f] exI[of _ "mem_cycles s + mmu_hitdelay (dmmu_state s)"]) (simp add: Let_def)
qed


section \<open>The processor\<close>

text \<open>What every step of an access keeps: the configuration, the TLB and which addresses are plain memory.\<close>

definition steady :: "'z board_scheme \<Rightarrow> 'z board_scheme \<Rightarrow> bool" where
  "steady s s' \<longleftrightarrow> dcfg s' = dcfg s \<and> cfg s' = cfg s \<and> except_pending s' = except_pending s \<and> areas_inv s' = areas_inv s
     \<and> ram_inj s' = ram_inj s \<and> (\<forall>q. (\<exists>w. ram_word s' q w) = (\<exists>w. ram_word s q w)) \<and> tlb_same s s'"

lemma steady_trans: "steady s t \<Longrightarrow> steady t u \<Longrightarrow> steady s u"
  unfolding steady_def by (metis tlb_same_trans)

lemma same_mem_steady: "same_mem s s' \<Longrightarrow> steady s s'"
  using same_mem_ram[of s s'] core_kept_tlb[of s s'] by (simp add: same_mem_def steady_def) (simp add: core_kept_def)

lemma stored_steady: "stored a v s s' \<Longrightarrow> areas_inv s \<Longrightarrow> ram_word s a v0 \<Longrightarrow> steady s s'"
  using stored_exists[of a v s s' v0] core_kept_tlb[of s s'] by (simp add: stored_def steady_def) (simp add: core_kept_def)

text \<open>Steps that touch neither memory nor the cache.\<close>

definition quiet :: "'z board_scheme \<Rightarrow> 'z board_scheme \<Rightarrow> bool" where
  "quiet s s' \<longleftrightarrow> same_mem s s' \<and> dcache s' = dcache s"

lemma quiet_trans: "quiet s t \<Longrightarrow> quiet t u \<Longrightarrow> quiet s u"
  unfolding quiet_def by (metis same_mem_trans)

lemma quiet_sprs: "(\<And>n. n < 0x3000 \<Longrightarrow> f n = sprs s n) \<Longrightarrow> quiet s (s\<lparr>sprs := f\<rparr>)"
  by (simp add: quiet_def same_mem_def core_kept_def areas_inv_def)

lemma quiet_debug: "\<exists>bp' s'. debug_check act d (bp, s) = (bp', s') \<and> quiet s s'"
proof -
  let ?s = "snd (check_debug_unit act d s)"
  have f: "?s = s\<lparr>sprs := sprs ?s\<rparr>" "\<And>n. n < 0x3000 \<Longrightarrow> sprs ?s n = sprs s n"
    by (rule check_debug_unit_frame(1), rule check_debug_unit_frame(2)) simp
  then have "quiet s ?s" using quiet_sprs[of "sprs ?s" s] by metis
  then show ?thesis by (auto simp: debug_check_def quiet_def split: prod.splits)
qed

lemma quiet_count: "quiet s (count_event e s)"
  using same_mem_count[of s e] by (simp add: count_event_def quiet_def)

lemma quiet_release: "quiet s (release_lock p s)"
  by (simp add: release_lock_def quiet_def same_mem_def core_kept_def areas_inv_def)

lemma coherent_cong:
  assumes "ram_word s' = ram_word s" "dcfg s' = dcfg s" "dcache s' = dcache s"
  shows "dc_coherent s' = dc_coherent s"
  unfolding dc_coherent_def assms ..

lemma quiet_coherent: "quiet s s' \<Longrightarrow> dc_coherent s' = dc_coherent s"
  using same_mem_ram(1)[of s s'] by (intro coherent_cong) (auto simp: quiet_def, simp add: same_mem_def)

text \<open>The states in which a program can rely on its memory, and the places of its addresses.\<close>

definition cpu_good :: "int \<times> 'z board_scheme \<Rightarrow> bool" where
  "cpu_good = (\<lambda>(bp, s). \<not> except_pending s \<and> areas_inv s \<and> ram_inj s \<and> tlb_ok (dmmu_state s)
     \<and> (dc_enable (dcfg s) \<longrightarrow> dc_wf (dcfg s) \<and> dc_coherent s \<and> spr_has s SPR_UPR SPR_UPR_DCP \<and> spr_has s SPR_SR SPR_SR_DCE))"

definition cpu_place :: "int \<times> 'z board_scheme \<Rightarrow> u32 \<Rightarrow> u32 \<Rightarrow> bool" where
  "cpu_place = (\<lambda>(bp, s) a p. a AND 3 = 0 \<and> (\<exists>v. ram_word s p v)
     \<and> (\<exists>ci. data_xlate s a False = Some (p, ci) \<and> data_xlate s a True = Some (p, ci)
          \<and> (dc_enable (dcfg s) \<longrightarrow> ci = 0 \<and> ram_block s p)))"

abbreviation cpu_word :: "int \<times> 'z board_scheme \<Rightarrow> u32 \<Rightarrow> u32 \<Rightarrow> bool" where
  "cpu_word \<equiv> \<lambda>(bp, s). ram_word s"

lemma steady_good:
  assumes "steady s s'" "cpu_good (bp, s)" "dc_enable (dcfg s) \<Longrightarrow> dc_coherent s'"
  shows "cpu_good (bp', s')" "cpu_place (bp', s') = cpu_place (bp, s)"
proof -
  have ok: "tlb_ok (dmmu_state s)" using assms(2) by (simp add: cpu_good_def)
  have S: "dcfg s' = dcfg s" "tlb_same s s'" "\<And>q. (\<exists>w. ram_word s' q w) = (\<exists>w. ram_word s q w)"
    using assms(1) by (simp_all add: steady_def)
  show "cpu_good (bp', s')"
    using assms by (simp add: cpu_good_def steady_def tlb_same_def)
  show "cpu_place (bp', s') = cpu_place (bp, s)"
    using S data_xlate_same[OF ok S(2)] ram_block_cong[OF S(3,1)] by (simp add: cpu_place_def)
qed

lemma xlate_aligned:
  assumes "data_xlate s a wr = Some (p, ci)" "a AND 3 = 0"
  shows "4 dvd unat p"
proof -
  have "p AND 3 = 0"
  proof (rule bit_word_eqI)
    fix i assume "i < LENGTH(32)"
    have low: "\<not> bit (SPR_DTLBTR_PPN :: u32) i" if "i < 2"
      using that less_2_cases[OF that] by auto
    have "\<not> bit (a AND 3) i" by (simp add: assms(2))
    moreover have "bit (3 :: u32) i \<longleftrightarrow> i < 2" using bit_mask_iff[of 2 i, where ?'a = u32] \<open>i < LENGTH(32)\<close> by (simp add: mask_eq_exp_minus_1)
    ultimately show "bit (p AND 3) i = bit 0 i"
      using assms(1) low by (auto simp: data_xlate_def bit_simps split: if_splits option.splits)
  qed
  then show ?thesis by (simp add: and_3_dvd)
qed


text \<open>States on the way to an access: translated, with memory and cache as before.\<close>

definition ready :: "'z board_scheme \<Rightarrow> 'z board_scheme \<Rightarrow> bool" where
  "ready s s' \<longleftrightarrow> steady s s' \<and> ram_word s' = ram_word s \<and> (dc_enable (dcfg s) \<longrightarrow> dc_coherent s' \<and> \<not> dc_off s')"

lemma ready_same:
  assumes "ready s s'" "same_mem s' s''" "dc_enable (dcfg s) \<Longrightarrow> dc_coherent s''"
  shows "ready s s''"
proof -
  have "dc_off s'' = dc_off s'" using assms(2) by (intro core_kept_off) (simp add: same_mem_def)
  then show ?thesis
    using assms steady_trans[OF _ same_mem_steady[OF assms(2)]] same_mem_ram(1)[OF assms(2)] by (simp add: ready_def)
qed

lemma ready_quiet: "ready s s' \<Longrightarrow> quiet s' s'' \<Longrightarrow> ready s s''"
  using ready_same[of s s' s''] quiet_coherent[of s' s''] by (simp add: quiet_def ready_def)

lemma cpu_translate:
  assumes "cpu_good (bp, s)" "cpu_place (bp, s) a p"
  shows "\<exists>s'. dmmu_translate a wr s = (p, s') \<and> ready s s'"
proof -
  obtain ci where ci: "data_xlate s a wr = Some (p, ci)" "dc_enable (dcfg s) \<longrightarrow> ci = 0"
    using assms(2) by (cases wr) (auto simp: cpu_place_def)
  have "mmu_wf (dmmu_state s)" using assms(1) by (simp add: cpu_good_def tlb_ok_def)
  then obtain f n where t: "dmmu_translate a wr s = (p, s\<lparr>sprs := f, data_ci := ci, mem_cycles := n\<rparr>)"
    "tlb_same s (s\<lparr>sprs := f\<rparr>)" using translate_xlate[OF _ ci(1)] by blast
  define s' where "s' = s\<lparr>sprs := f, data_ci := ci, mem_cycles := n\<rparr>"
  have w: "ram_word s' = ram_word s" "ram_inj s' = ram_inj s" using ram_word_cong[of s' s] by (simp_all add: s'_def)
  have "tlb_same s s'" using t(2) by (simp add: tlb_same_def s'_def)
  moreover from this have "\<not> dc_off s'" if "dc_enable (dcfg s)"
    using assms(1) ci(2) that by (simp add: cpu_good_def dc_off_def tlb_same_def) (simp add: s'_def)
  moreover have "dc_coherent s' = dc_coherent s" using w(1) by (intro coherent_cong) (simp_all add: s'_def)
  ultimately have "ready s s'"
    using w assms(1) by (simp add: ready_def steady_def cpu_good_def) (simp add: s'_def areas_inv_def)
  with t(1) show ?thesis unfolding s'_def by blast
qed

lemma ready_inv:
  assumes "cpu_good (bp, s)" "ready s s'"
  shows "areas_inv s'" "ram_inj s'" "dcfg s' = dcfg s" "\<not> except_pending s'"
    "dc_enable (dcfg s) \<Longrightarrow> dc_inv_state s' \<and> \<not> dc_off s'" "ram_block s' = ram_block s"
  using assms ram_block_cong[of s' s] by (simp_all add: cpu_good_def ready_def steady_def dc_inv_state_def)

lemma cpu_read:
  assumes "cpu_good (bp, s)" "cpu_place (bp, s) a p" "ready s s1" "ram_word s p v"
  shows "\<exists>s2. (if dc_enable (dcfg s1) then dc_simulate_read p a 4 s1 else evalsim_mem32 p a s1) = Inr (v, s2) \<and> ready s s2"
proof -
  have p: "4 dvd unat p" "dc_enable (dcfg s) \<Longrightarrow> ram_block s p"
    using assms(2) xlate_aligned[of s a False p] by (auto simp: cpu_place_def)
  note I = ready_inv[OF assms(1,3)]
  have v: "ram_word s1 p v" using assms(3,4) by (simp add: ready_def)
  show ?thesis
  proof (cases "dc_enable (dcfg s)")
    case True
    with I p obtain s2 where "dc_simulate_read p a 4 s1 = Inr (v, s2)" "same_mem s1 s2" "dc_coherent s2"
      using cache_load[OF _ _ p(1) v, of a] by auto
    then show ?thesis using True I(3) ready_same[OF assms(3)] by auto
  next
    case False
    then show ?thesis
      using load_ram_word[OF I(1) v p(1), of a] same_mem_touch[OF I(1)] ready_same[OF assms(3)] I(3) by auto
  qed
qed

lemma cpu_write:
  assumes "cpu_good (bp, s)" "cpu_place (bp, s) a p" "ready s s1"
  shows "\<exists>s2 s3. (if dc_enable (dcfg s1) then dc_simulate_write p a v 4 s1 else setsim_mem32 p a v s1) = Inr s3
     \<and> stored p v s1 s2 \<and> same_mem s2 s3 \<and> (dc_enable (dcfg s) \<longrightarrow> dc_coherent s3)"
proof -
  have p: "4 dvd unat p" "dc_enable (dcfg s) \<Longrightarrow> ram_block s p"
    using assms(2) xlate_aligned[of s a False p] by (auto simp: cpu_place_def)
  note I = ready_inv[OF assms(1,3)]
  obtain v0 where v0: "ram_word s1 p v0" using assms(2,3) by (auto simp: cpu_place_def ready_def)
  show ?thesis
  proof (cases "dc_enable (dcfg s)")
    case True
    then show ?thesis using cache_store[OF _ _ p(1) I(2), of a v] I p(2) by auto
  next
    case False
    then show ?thesis using store_ram_word[OF I(1,2) v0 p(1), of a v] I(3) same_mem_refl[of s3 for s3] by fastforce
  qed
qed

text \<open>The accesses of the processor, at the width of a word.\<close>

abbreviation cpu_load :: "u32 \<Rightarrow> int \<times> 'z board_scheme \<Rightarrow> (u32 \<times> int \<times> 'z board_scheme) outcome" where
  "cpu_load \<equiv> \<lambda>a (bp, s). eval_mem32 a bp s"

abbreviation cpu_store :: "u32 \<Rightarrow> u32 \<Rightarrow> int \<times> 'z board_scheme \<Rightarrow> (int \<times> 'z board_scheme) outcome" where
  "cpu_store \<equiv> \<lambda>a v (bp, s). set_mem32 a v bp s"

lemma eval_mem32_ready:
  assumes "cpu_good (bp, s)" "cpu_place (bp, s) a p" "ram_word s p v"
  shows "\<exists>bp' s'. eval_mem32 a bp s = Inr (v, bp', s') \<and> ready s s'"
proof -
  have al: "a AND 3 = 0" using assms(2) by (simp add: cpu_place_def)
  obtain s1 where s1: "dmmu_translate a False s = (p, s1)" "ready s s1" using cpu_translate[OF assms(1,2)] by blast
  note np = ready_inv(4)[OF assms(1) s1(2)]
  obtain bp2 s2 where s2: "debug_check DebugLoadAddress (ucast a) (bp, count_event SPR_PCMR_LA s1) = (bp2, s2)"
    "quiet (count_event SPR_PCMR_LA s1) s2" using quiet_debug by blast
  have r2: "ready s s2" by (rule ready_quiet[OF ready_quiet[OF s1(2) quiet_count] s2(2)])
  obtain s3 where s3: "(if dc_enable (dcfg s2) then dc_simulate_read p a 4 s2 else evalsim_mem32 p a s2) = Inr (v, s3)" "ready s s3"
    using cpu_read[OF assms(1,2) r2 assms(3)] by blast
  obtain bp4 s4 where s4: "debug_check DebugLoadData (ucast v) (bp2, s3) = (bp4, s4)" "quiet s3 s4" using quiet_debug by blast
  have "eval_mem32 a bp s = Inr (v, bp4, s4)"
    unfolding eval_mem32_def using al np by (simp add: s1(1) s2(1) s3(1) s4(1))
  then show ?thesis using ready_quiet[OF s3(2) s4(2)] by blast
qed

lemma set_mem32_stored:
  assumes "cpu_good (bp, s)" "cpu_place (bp, s) a p"
  shows "\<exists>bp' s1 s2 s'. set_mem32 a v bp s = Inr (bp', s') \<and> ready s s1 \<and> stored p v s1 s2 \<and> same_mem s2 s'
     \<and> (dc_enable (dcfg s) \<longrightarrow> dc_coherent s')"
proof -
  have al: "a AND 3 = 0" using assms(2) by (simp add: cpu_place_def)
  obtain s1 where s1: "dmmu_translate a True s = (p, s1)" "ready s s1" using cpu_translate[OF assms] by blast
  let ?s1 = "release_lock p s1"
  have r1: "ready s ?s1" by (rule ready_quiet[OF s1(2) quiet_release])
  note np = ready_inv(4)[OF assms(1) r1]
  obtain bp2 s2 where s2: "debug_check DebugStoreAddress (ucast a) (bp, count_event SPR_PCMR_SA ?s1) = (bp2, s2)"
    "quiet (count_event SPR_PCMR_SA ?s1) s2" using quiet_debug by blast
  obtain bp3 s3 where s3: "debug_check DebugStoreData (ucast v) (bp2, s2) = (bp3, s3)" "quiet s2 s3" using quiet_debug by blast
  have r3: "ready s s3"
    by (rule ready_quiet[OF ready_quiet[OF ready_quiet[OF r1 quiet_count] s2(2)] s3(2)])
  obtain s4 s5 where s5: "(if dc_enable (dcfg s3) then dc_simulate_write p a v 4 s3 else setsim_mem32 p a v s3) = Inr s5"
    "stored p v s3 s4" "same_mem s4 s5" "dc_enable (dcfg s) \<longrightarrow> dc_coherent s5" using cpu_write[OF assms r3] by blast
  have "set_mem32 a v bp s = Inr (bp3, s5)"
    unfolding set_mem32_def using al np by (simp add: s1(1) s2(1) s3(1) s5(1) Let_def)
  then show ?thesis using r3 s5 by blast
qed

interpretation cpu: memory_port cpu_load cpu_store cpu_good cpu_place cpu_word
proof
  fix x :: "int \<times> 'z board_scheme" and a p v assume g: "cpu_good x" "cpu_place x a p" "(\<lambda>(bp, s). ram_word s) x p v"
  obtain bp s where x: "x = (bp, s)" by force
  obtain bp' s' where s': "eval_mem32 a bp s = Inr (v, bp', s')" "ready s s'" using eval_mem32_ready[of bp s a p v] g x by auto
  then have "cpu_good (bp', s')" "cpu_place (bp', s') = cpu_place (bp, s)"
    using steady_good[of s s' bp bp'] g(1) x by (simp_all add: ready_def)
  then show "\<exists>y. (\<lambda>(bp, s). eval_mem32 a bp s) x = Inr (v, y) \<and> cpu_good y \<and> cpu_place y = cpu_place x
      \<and> (\<lambda>(bp, s). ram_word s) y = (\<lambda>(bp, s). ram_word s) x"
    using s' x by (auto simp: ready_def)
next
  fix x :: "int \<times> 'z board_scheme" and a p v0 v assume g: "cpu_good x" "cpu_place x a p" "(\<lambda>(bp, s). ram_word s) x p v0"
  obtain bp s where x: "x = (bp, s)" by force
  obtain bp' s1 s2 s' where s': "set_mem32 a v bp s = Inr (bp', s')" "ready s s1" "stored p v s1 s2" "same_mem s2 s'"
    "dc_enable (dcfg s) \<longrightarrow> dc_coherent s'" using set_mem32_stored[of bp s a p v] g x by blast
  have w: "ram_word s1 = ram_word s" "ram_word s' = ram_word s2" "ram_word s1 p v0" "areas_inv s1" "4 dvd unat p"
    using s'(2) same_mem_ram[OF s'(4)] g x xlate_aligned[of s a False p] ready_inv(1)[of bp s s1]
    by (auto simp: ready_def cpu_place_def)
  have "steady s s'"
    by (rule steady_trans[OF steady_trans[OF _ stored_steady[OF s'(3) w(4,3)]] same_mem_steady[OF s'(4)]])
      (use s'(2) in \<open>simp add: ready_def\<close>)
  then have good: "cpu_good (bp', s')" "cpu_place (bp', s') = cpu_place (bp, s)"
    using steady_good[of s s' bp bp'] g(1) x s'(5) by simp_all
  have "ram_word s' p v" using s'(3) w(2) by (simp add: stored_def)
  moreover have "ram_word s' q u" if "cpu_place x b q" "q \<noteq> p" "ram_word s q u" for b q u
    using stored_words[OF s'(3) w(3,5), of q] that x w(1,2) xlate_aligned[of s b False q] by (auto simp: cpu_place_def)
  ultimately show "\<exists>y. (\<lambda>(bp, s). set_mem32 a v bp s) x = Inr y \<and> cpu_good y \<and> cpu_place y = cpu_place x
      \<and> (\<lambda>(bp, s). ram_word s) y p v
      \<and> (\<forall>b q w. cpu_place x b q \<longrightarrow> q \<noteq> p \<longrightarrow> (\<lambda>(bp, s). ram_word s) x q w \<longrightarrow> (\<lambda>(bp, s). ram_word s) y q w)"
    using s'(1) good x by auto
qed


text \<open>The board with the cache on, and its memory mapped at \<^verbatim>\<open>0x2000\<close> by the data MMU.\<close>

definition paged_board :: board where
  "paged_board = cached_board\<lparr>sprs := (\<lambda>_. 0)(SPR_SR := SPR_SR_DME OR SPR_SR_SM OR SPR_SR_DCE,
       SPR_UPR := SPR_UPR_DMP OR SPR_UPR_DCP, SPR_DTLBMR_BASE 0 := 0x2001,
       SPR_DTLBMR_BASE 0 + 128 := SPR_DTLBTR_SRE OR SPR_DTLBTR_SWE),
     dmmu_state := dmmu_state mapped_machine, dcfg := default_dc\<lparr>dc_block := 16, dc_enable := True\<rparr>\<rparr>"

lemma paged_ram: "ram_word paged_board = ram_word cached_board" "ram_inj paged_board" "unat a < 16 \<Longrightarrow> ram_block paged_board a"
proof -
  show w: "ram_word paged_board = ram_word cached_board" and "ram_inj paged_board"
    using ram_word_cong[of paged_board cached_board] cached_board_ram(1) by (simp_all add: paged_board_def)
  show "ram_block paged_board a" if "unat a < 16"
    using cached_board_ram(2)[OF that] unfolding ram_block_def w by (simp add: paged_board_def cached_board_fields)
qed

lemma paged_good: "cpu_good (bp, paged_board)"
proof -
  have c: "dc_wf (dcfg paged_board)" by (simp add: paged_board_def dc_wf_def default_dc_def)
  have "dc_tag (dcache paged_board st i) = -1" for st i by (simp add: paged_board_def cached_board_def)
  then have "dc_coherent paged_board" using tag_not_invalid[OF c] unfolding dc_coherent_def Let_def by metis
  moreover have "areas_inv paged_board" using cached_board_inv by (simp add: paged_board_def dc_inv_state_def areas_inv_def)
  moreover have "tlb_ok (dmmu_state paged_board)"
    using mapped_machine_wf by (simp add: paged_board_def tlb_ok_def) (simp add: mapped_eval)
  moreover have "\<not> except_pending paged_board"
    by (simp add: paged_board_def cached_board_def small_board_def zero_board_def machine.defs zero_machine_def)
  ultimately show ?thesis using c paged_ram(2) by (simp add: cpu_good_def) (simp add: paged_board_def)
qed

lemma paged_xlate: "data_xlate paged_board 0x2004 wr = Some (4, 0)" "data_xlate paged_board 0x2008 wr = Some (8, 0)"
  by (simp_all add: data_xlate_def paged_board_def mapped_eval dtlb_forbids_def)

lemma paged_place: "cpu_place (bp, paged_board) 0x2004 4" "cpu_place (bp, paged_board) 0x2008 8"
  using paged_xlate ram_block_word[OF paged_ram(3)] paged_ram(3) by (simp_all add: cpu_place_def)

section \<open>Properties\<close>

text \<open>
  C4: the memory of a program. When no two addresses share memory, the cache is off or coherent and
  in use, and pages have at least 256 bytes, any sequence of word loads and stores at addresses that the data MMU
  lets through to plain memory succeeds: the loads return what an abstract memory returns, whether
  they are served by the cache or past it and whatever watchpoints and counters do, and the memory
  ends as the abstract memory ends.
\<close>

theorem program_memory:
  assumes "cpu_good (bp, s)" "\<forall>x \<in> set xs. cpu_place (bp, s) (access_addr x) (tr (access_addr x))"
    and "\<forall>a p. cpu_place (bp, s) a p \<longrightarrow> ram_word s p (m p)"
  shows "\<exists>bp' s'. run_port (\<lambda>a (bp, s). eval_mem32 a bp s) (\<lambda>a v (bp, s). set_mem32 a v bp s) xs (bp, s)
       = Inr (fst (run_memory tr xs m), bp', s')
     \<and> cpu_good (bp', s') \<and> cpu_place (bp', s') = cpu_place (bp, s)
     \<and> (\<forall>a p. cpu_place (bp, s) a p \<longrightarrow> ram_word s' p (snd (run_memory tr xs m) p))"
  using cpu.refines[of "(bp, s)" xs tr m] assms by auto

theorem program_memory_witness:
  "\<exists>bp s. run_port (\<lambda>a (bp, s). eval_mem32 a bp s) (\<lambda>a v (bp, s). set_mem32 a v bp s)
     [Store 0x2004 0xdeadbeef, Load 0x2004, Store 0x2008 1, Load 0x2004, Load 0x2008] (0, paged_board)
     = Inr ([0xdeadbeef, 0xdeadbeef, 1], bp, s)"
proof -
  let ?tr = "(\<lambda>a. a)(0x2004 := 4, 0x2008 := 8 :: u32)" and ?m = "\<lambda>p. SOME v. ram_word paged_board p v"
  have "\<forall>a p. cpu_place (0, paged_board) a p \<longrightarrow> ram_word paged_board p (?m p)"
    by (auto simp: cpu_place_def intro: someI)
  from program_memory[OF paged_good _ this, where tr = ?tr and
      xs = "[Store 0x2004 0xdeadbeef, Load 0x2004, Store 0x2008 1, Load 0x2004, Load 0x2008]"]
  show ?thesis using paged_place by auto
qed

end
