(* ===== verification/Queueing.thy ===== *)
theory Queueing
  imports Interrupts
begin

text \<open>
  Adding jobs from the peripherals: while the guard is queued and entries are free, the scheduler takes
  jobs and interrupts are reported. Every reachable scheduler has the guard (Sched.thy).
\<close>

definition room :: "nat \<Rightarrow> 'f scheduler \<Rightarrow> bool" where
  "room k q \<longleftrightarrow> (\<exists>e \<in> set (job_queue q). func e = Sched_guard) \<and> k \<le> length (free_job_queue q)"

lemma room_less: "room k q \<Longrightarrow> j \<le> k \<Longrightarrow> room j q"
  by (simp add: room_def)

definition job_waits :: "client_job \<Rightarrow> 'z machine_scheme \<Rightarrow> bool" where
  "job_waits j s \<longleftrightarrow> (\<exists>e \<in> set (job_queue (sched s)). func e = Job j)"

lemma due_funcs: "(\<exists>e \<in> set q. func e = f) \<longleftrightarrow> f \<in> fst ` snd ` set (due q)"
  unfolding due_def snd_set_due_from by force

lemma SCHED_ADD_room:
  assumes "room (Suc k) (sched s)"
  shows "\<exists>q. SCHED_ADD j t s = Inr (s\<lparr>sched := q\<rparr>) \<and> job_waits j (s\<lparr>sched := q\<rparr>) \<and> room k q"
proof -
  have "job_queue (sched s) \<noteq> []" "free_job_queue (sched s) \<noteq> []" using assms by (auto simp: room_def)
  then obtain q where q: "SCHED_ADD j t s = Inr (s\<lparr>sched := q\<rparr>)"
    "due (job_queue q) = insert_due (effective_time t (job_queue (sched s))) (Job j, 0) (due (job_queue (sched s)))"
    "free_job_queue q = tl (free_job_queue (sched s))"
    using SCHED_ADD_returns by blast
  have "room k q" using assms q(2,3) unfolding room_def due_funcs by (auto simp: set_insert_due)
  moreover have "job_waits j (s\<lparr>sched := q\<rparr>)" using q(2) by (simp add: job_waits_def due_funcs set_insert_due)
  ultimately show ?thesis using q(1) by blast
qed

lemma SCHED_FIND_REMOVE_room:
  assumes "room k (sched s)"
  shows "\<exists>q. SCHED_FIND_REMOVE j s = s\<lparr>sched := q\<rparr> \<and> room k q"
proof (cases "sched_remove (Job j) 0 (job_queue (sched s))")
  case None
  then show ?thesis using assms by (intro exI[of _ "sched s"]) (simp add: SCHED_FIND_REMOVE_def sched_find_remove_def)
next
  case (Some r)
  then obtain c q where r: "sched_remove (Job j) 0 (job_queue (sched s)) = Some (c, q)" by (cases r) auto
  obtain xs ys where x: "job_queue (sched s) = xs @ c # ys" "func c = Job j"
    "q = xs @ (case ys of [] \<Rightarrow> [] | d # ds \<Rightarrow> d\<lparr>time := time d + time c\<rparr> # ds)"
    using sched_remove_split[OF r] by blast
  have "\<exists>e \<in> set q. func e = Sched_guard"
    using assms x by (cases ys) (auto simp: room_def)
  then show ?thesis
    using assms r by (intro exI[of _ "sched_find_remove (Job j) 0 (sched s)"])
      (simp add: SCHED_FIND_REMOVE_def sched_find_remove_def room_def)
qed

text \<open>Reporting or clearing an interrupt on a line of the controller changes registers and the queue alone.\<close>

lemma report_interrupt_room:
  assumes "0 \<le> line" "line < 32" "pic_enabled (cfg s)" "room (Suc k) (sched s)"
  shows "\<exists>f q. report_interrupt line s = Inr (s\<lparr>sprs := f, sched := q\<rparr>) \<and> room k q"
proof -
  have r: "room k (sched s)" using assms(4) by (rule room_less) simp
  have "\<exists>f' q. SCHED_ADD Pic_rep_int 0 (s\<lparr>sprs := f\<rparr>) = Inr (s\<lparr>sprs := f', sched := q\<rparr>) \<and> room k q" for f
  proof -
    obtain q where "SCHED_ADD Pic_rep_int 0 (s\<lparr>sprs := f\<rparr>) = Inr (s\<lparr>sprs := f, sched := q\<rparr>)" "room k q"
      using SCHED_ADD_room[of k "s\<lparr>sprs := f\<rparr>" Pic_rep_int 0] assms(4) by auto
    then show ?thesis by blast
  qed
  moreover have "\<exists>f' q. s\<lparr>sprs := f\<rparr> = s\<lparr>sprs := f', sched := q\<rparr> \<and> room k q" for f
    using r by (intro exI[of _ f] exI[of _ "sched s"]) simp
  ultimately show ?thesis using assms(1-3) unfolding report_interrupt_def Let_def by auto
qed

end
