(* ===== verification/DmaCopy.thy ===== *)
theory DmaCopy
  imports Devices Ports Queueing
begin

text \<open>
  The DMA controller copies: the direct accesses are another port to plain memory, and a channel that
  is clocked until it is done copies its words one by one, as on an abstract memory.
\<close>

section \<open>Direct accesses to plain memory\<close>

text \<open>Plain memory is installed for direct accesses with the same functions.\<close>

definition direct_ram :: "'z board_scheme \<Rightarrow> bool" where
  "direct_ram s \<longleftrightarrow> (\<forall>a \<in> set (dev_list s). \<forall>b.
     (readfunc32 (ops a) = Some (Simmem_read b) \<longrightarrow> readfunc32 (direct_ops a) = Some (Simmem_read b))
     \<and> (writefunc32 (ops a) = Some (Simmem_write b) \<longrightarrow> writefunc32 (direct_ops a) = Some (Simmem_write b)))"

lemma installed_words:
  "readfunc32 (installed_ops f) = or_else (readfunc32 f) Eval_mem_inv"
  "writefunc32 (installed_ops f) = or_else (writefunc32 f) Set_mem_inv"
  "readfunc32 (installed_direct f) = or_else (readfunc32 f) Eval_mem_inv_direct"
  "writefunc32 (installed_direct f) = or_else (writefunc32 f) Set_mem_inv_direct"
  by (simp_all add: installed_ops_def installed_direct_def Let_def)

lemma direct_ram_reg:
  assumes "direct_ram s" "reg_mem_area addr sz mc f s = Inr (i, s')"
  shows "direct_ram s'"
proof -
  obtain a where a: "dev_list s' = dev_list s @ [a]" "ops a = installed_ops f" "direct_ops a = installed_direct f"
    using assms(2) by (auto simp: reg_mem_area_def register_memoryarea_mask_def upd_area_def bind_outcome_eq_Inr Let_def split: if_splits)
  have "\<forall>b. (readfunc32 (ops a) = Some (Simmem_read b) \<longrightarrow> readfunc32 (direct_ops a) = Some (Simmem_read b))
     \<and> (writefunc32 (ops a) = Some (Simmem_write b) \<longrightarrow> writefunc32 (direct_ops a) = Some (Simmem_write b))"
    unfolding a(2,3) installed_words by (simp add: or_else_def split: option.split)
  then show ?thesis using assms(1) by (simp add: direct_ram_def a(1))
qed

lemma direct_ramD:
  assumes "direct_ram s" "ram_at s a b off"
  obtains i where "find_area a 0 (dev_list s) = Some i" "off = unat (a AND size_mask (dev_list s ! i))"
    "readfunc32 (direct_ops (dev_list s ! i)) = Some (Simmem_read b)"
    "writefunc32 (direct_ops (dev_list s ! i)) = Some (Simmem_write b)"
proof -
  obtain i where i: "find_area a 0 (dev_list s) = Some i" "off = unat (a AND size_mask (dev_list s ! i))"
    "readfunc32 (ops (dev_list s ! i)) = Some (Simmem_read b)" "writefunc32 (ops (dev_list s ! i)) = Some (Simmem_write b)"
    using assms(2) by (auto simp: ram_at_def)
  have "dev_list s ! i \<in> set (dev_list s)" using i(1) by (auto simp: find_area_Some)
  with assms(1) i that show thesis by (simp add: direct_ram_def)
qed

lemma areas_inv_found: "areas_inv s \<Longrightarrow> areas_inv (s\<lparr>cur_area := find_area a 0 (dev_list s)\<rparr>)"
  using verify_inv[of s a] by (simp add: verify_unique)

lemma direct_load:
  assumes "areas_inv s" "direct_ram s" "ram_word s a v" "4 dvd unat a"
  shows "eval_direct32 a False False s = Inr (v, s\<lparr>cur_area := find_area a 0 (dev_list s)\<rparr>)"
proof -
  obtain b off where r: "ram_at s a b (off + unat a mod 4)" "4 dvd off" "4 dvd length (blocks s ! b)"
    "off + 4 \<le> length (blocks s ! b)" "v = word_at (words_bigendian s) (blocks s ! b) off" "off < 2 ^ 32"
    using assms(3) by (rule ram_wordE)
  have at: "ram_at s a b off" using r(1) assms(4) by simp
  obtain i where "find_area a 0 (dev_list s) = Some i" "off = unat (a AND size_mask (dev_list s ! i))"
    "readfunc32 (direct_ops (dev_list s ! i)) = Some (Simmem_read b)" by (rule direct_ramD[OF assms(2) at])
  then show ?thesis
    using host_read32_word[OF r(3,2,4,6), of "words_bigendian s"] r(5) assms(4)
    by (simp add: eval_direct32_def and_3_dvd direct_addr_def verify_unique[OF assms(1)] call_read32_def simmem_read32_def Let_def)
qed

lemma direct_store:
  assumes "areas_inv s" "ram_inj s" "direct_ram s" "ram_word s a v0" "4 dvd unat a"
  shows "\<exists>b m. set_direct32 a v False False s = Inr (set_block b m (s\<lparr>cur_area := find_area a 0 (dev_list s)\<rparr>))
     \<and> stored a v s (set_block b m (s\<lparr>cur_area := find_area a 0 (dev_list s)\<rparr>))"
proof -
  obtain b off where at: "ram_at s a b off" using assms(4) by (rule ram_wordE)
  obtain i where i: "find_area a 0 (dev_list s) = Some i" "off = unat (a AND size_mask (dev_list s ! i))"
    "writefunc32 (direct_ops (dev_list s ! i)) = Some (Simmem_write b)" by (rule direct_ramD[OF assms(3) at])
  obtain s1 where s1: "setsim_mem32 a 0 v s = Inr s1" "stored a v s s1"
    using store_ram_word[OF assms(1,2,4,5)] by blast
  then obtain m where m: "host_write32 (words_bigendian s) (blocks s ! b) off v = Inr m"
    "s1 = set_block b m (touch_area a (\<lambda>a. delayw (ops a)) (s\<lparr>cur_vadd := 0\<rparr>))"
    unfolding setsim_ram[OF assms(1) at] by (auto simp: bind_outcome_eq_Inr)
  let ?t = "set_block b m (s\<lparr>cur_area := find_area a 0 (dev_list s)\<rparr>)"
  have "set_direct32 a v False False s = Inr ?t"
    using i m(1) assms(5)
    by (simp add: set_direct32_def and_3_dvd direct_addr_def verify_unique[OF assms(1)] call_write32_def simmem_write32_def Let_def)
  moreover have w: "ram_word ?t = ram_word s1" "ram_inj ?t = ram_inj s1" using ram_word_cong[of ?t s1] m(2) by simp_all
  have inv: "areas_inv ?t" by (simp add: areas_inv_found[OF assms(1)])
  have kept: "cur_area ?t \<noteq> None" "dcache ?t = dcache s" "dcfg ?t = dcfg s" "dc_off ?t = dc_off s" "core_kept s ?t"
    using i(1) by (simp_all add: dc_off_def core_kept_def)
  have "stored a v s ?t" using s1(2) inv kept unfolding stored_def w by simp
  ultimately show ?thesis by blast
qed

definition direct_good :: "'z board_scheme \<Rightarrow> bool" where
  "direct_good s \<longleftrightarrow> ram_good s \<and> direct_ram s"

lemma direct_good_stored:
  "direct_good s \<Longrightarrow> stored a v s s' \<Longrightarrow> dev_list s' = dev_list s \<Longrightarrow> direct_good s'"
  by (simp add: direct_good_def ram_good_def stored_def direct_ram_def)

interpretation direct: memory_port "\<lambda>a. eval_direct32 a False False" "\<lambda>a v. set_direct32 a v False False" direct_good ram_place ram_word
proof
  fix s :: "'z board_scheme" and a p v assume g: "direct_good s" "ram_place s a p" "ram_word s p v"
  let ?s = "s\<lparr>cur_area := find_area a 0 (dev_list s)\<rparr>"
  have a: "areas_inv s" "direct_ram s" "p = a" "4 dvd unat a" using g by (simp_all add: direct_good_def ram_good_def ram_place_def)
  have "ram_word ?s = ram_word s" "ram_inj ?s = ram_inj s" using ram_word_cong[of ?s s] by simp_all
  moreover have "areas_inv ?s" using a(1) by (rule areas_inv_found)
  ultimately show "\<exists>s'. eval_direct32 a False False s = Inr (v, s') \<and> direct_good s' \<and> ram_place s' = ram_place s \<and> ram_word s' = ram_word s"
    using direct_load[OF a(1,2) _ a(4)] g(1,3) a(3) ram_place_cong[of ?s s]
    by (simp add: direct_good_def ram_good_def direct_ram_def)
next
  fix s :: "'z board_scheme" and a p v0 v assume g: "direct_good s" "ram_place s a p" "ram_word s p v0"
  then have a: "areas_inv s" "ram_inj s" "direct_ram s" "p = a" "4 dvd unat a" "ram_word s a v0"
    by (simp_all add: direct_good_def ram_good_def ram_place_def)
  obtain s' where s': "set_direct32 a v False False s = Inr s'" "stored a v s s'" "dev_list s' = dev_list s"
    using direct_store[OF a(1-3,6,5)] by fastforce
  moreover have "direct_good s'" using g(1) s'(2,3) by (rule direct_good_stored)
  moreover have "ram_place s' = ram_place s" using stored_exists[OF s'(2) a(6)] by (rule ram_place_cong)
  moreover have "ram_word s' q w" if "ram_place s b q" "q \<noteq> p" "ram_word s q w" for b q w
    using stored_words[OF s'(2) a(6,5), of q] that a(4) by (auto simp: ram_place_def)
  ultimately show "\<exists>s'. set_direct32 a v False False s = Inr s' \<and> direct_good s' \<and> ram_place s' = ram_place s \<and> ram_word s' p v
     \<and> (\<forall>b q w. ram_place s b q \<longrightarrow> q \<noteq> p \<longrightarrow> ram_word s q w \<longrightarrow> ram_word s' q w)"
    unfolding a(4) stored_def by blast
qed

section \<open>The state of a channel\<close>

definition has_chan :: "nat \<Rightarrow> nat \<Rightarrow> 'z board_scheme \<Rightarrow> bool" where
  "has_chan k c s \<longleftrightarrow> k < length (dmas s) \<and> c < length (dma_ch (dmas s ! k))"

lemma upd_chan_fields [simp]:
  "dev_list (upd_chan k c f s) = dev_list s" "blocks (upd_chan k c f s) = blocks s"
  "words_bigendian (upd_chan k c f s) = words_bigendian s" "sched (upd_chan k c f s) = sched s" "cfg (upd_chan k c f s) = cfg s"
  "areas_inv (upd_chan k c f s) = areas_inv s" "direct_ram (upd_chan k c f s) = direct_ram s"
  "has_chan k c (upd_chan k c f s) = has_chan k c s"
  by (auto simp: upd_chan_def upd_dma_def upd_ch_def areas_inv_def direct_ram_def has_chan_def nth_list_update)

lemma upd_chan_ram [simp]:
  "ram_word (upd_chan k c f s) = ram_word s" "ram_inj (upd_chan k c f s) = ram_inj s" "direct_good (upd_chan k c f s) = direct_good s"
  using ram_word_cong[of "upd_chan k c f s" s] by (simp_all add: direct_good_def ram_good_def)

lemma dma_chan_upd [simp]: "has_chan k c s \<Longrightarrow> dma_chan k c (upd_chan k c f s) = f (dma_chan k c s)"
  by (simp add: has_chan_def upd_chan_def upd_dma_def upd_ch_def)

lemma upd_chan_irq [simp]:
  "has_chan k c s \<Longrightarrow> d_irq (dmas (upd_chan k c f s) ! k) = d_irq (dmas s ! k)"
  "has_chan k c s \<Longrightarrow> int_msk_a (dmas (upd_chan k c f s) ! k) = int_msk_a (dmas s ! k)"
  by (simp_all add: has_chan_def upd_chan_def upd_dma_def upd_ch_def)

text \<open>
  A channel in the middle of a plain transfer, with \<open>left\<close> words to go: neither stopped nor waiting
  for a request, not restarting, no descriptor to follow.
\<close>

definition dma_going :: "nat \<Rightarrow> nat \<Rightarrow> nat \<Rightarrow> 'z board_scheme \<Rightarrow> bool" where
  "dma_going k c left s \<longleftrightarrow> has_chan k c s \<and> (let h = dma_chan k c s in
     \<not> bit (ch_csr h) CH_STOP \<and> \<not> bit (ch_csr h) CH_MODE \<and> \<not> bit (ch_csr h) CH_ARS \<and> bit (ch_csr h) CH_BUSY
     \<and> \<not> load_next_descriptor h \<and> chunk_size h \<noteq> 0 \<and> unat (total_size h) = unat (words_transferred h) + left)"

text \<open>What the end of a transfer leaves: the channel disabled, idle and done.\<close>

definition dma_finished :: "nat \<Rightarrow> nat \<Rightarrow> 'z board_scheme \<Rightarrow> bool" where
  "dma_finished k c s \<longleftrightarrow> (let v = ch_csr (dma_chan k c s) in
     bit v CH_DONE \<and> \<not> bit v CH_BUSY \<and> \<not> bit v CH_EN \<and> \<not> bit v CH_ERR)"

text \<open>Changes of registers and queue, which memory and devices do not see.\<close>

definition same_devices :: "'z board_scheme \<Rightarrow> 'z board_scheme \<Rightarrow> bool" where
  "same_devices s s' \<longleftrightarrow> dev_list s' = dev_list s \<and> blocks s' = blocks s \<and> words_bigendian s' = words_bigendian s
     \<and> areas_inv s' = areas_inv s \<and> dmas s' = dmas s \<and> cfg s' = cfg s"

lemma same_devices_ram:
  assumes "same_devices s s'"
  shows "ram_word s' = ram_word s" "direct_good s' = direct_good s" "has_chan k c s' = has_chan k c s"
    "dma_going k c n s' = dma_going k c n s" "dma_finished k c s' = dma_finished k c s" "dmas s' = dmas s" "cfg s' = cfg s"
  using assms ram_word_cong[of s' s]
  by (simp_all add: same_devices_def direct_good_def ram_good_def direct_ram_def has_chan_def dma_going_def dma_finished_def)

lemma same_devices_sched [simp]: "same_devices s (s\<lparr>sched := q\<rparr>)" "same_devices s (s\<lparr>sprs := f, sched := q\<rparr>)"
  by (simp_all add: same_devices_def areas_inv_def)

lemma terminate_finishes:
  assumes "has_chan k c s" "\<not> load_next_descriptor (dma_chan k c s)" "\<not> bit (ch_csr (dma_chan k c s)) CH_ARS"
    "pic_enabled (cfg s)" "0 \<le> d_irq (dmas s ! k)" "d_irq (dmas s ! k) < 32" "room 1 (sched s)" "direct_good s"
  shows "\<exists>s'. dma_channel_terminate_transfer k c g s = Inr s' \<and> dma_finished k c s' \<and> direct_good s' \<and> ram_word s' = ram_word s"
proof -
  define s1 where "s1 = (if bit (ch_csr (dma_chan k c s)) SZ_WB \<and> bit (ch_csr (dma_chan k c s)) USE_ED
      then upd_chan k c (\<lambda>h. h\<lparr>ch_sz := set_field 0 12 (total_size h - words_transferred h) (ch_sz h)\<rparr>) s else s)"
  define s2 where "s2 = upd_chan k c (\<lambda>h. h\<lparr>ch_csr := clear_flag CH_BUSY (clear_flag CH_ERR (set_flag CH_DONE (clear_flag CH_EN (ch_csr h))))\<rparr>) s1"
  have s1: "has_chan k c s1" "direct_good s1" "ram_word s1 = ram_word s" "sched s1 = sched s" "cfg s1 = cfg s"
    "d_irq (dmas s1 ! k) = d_irq (dmas s ! k)"
    using assms by (simp_all add: s1_def)
  have s2: "has_chan k c s2" "direct_good s2" "ram_word s2 = ram_word s" "sched s2 = sched s" "cfg s2 = cfg s"
    "d_irq (dmas s2 ! k) = d_irq (dmas s ! k)" "dma_finished k c s2"
    using s1 by (simp_all add: s2_def dma_finished_def bit_simps)
  have t: "dma_channel_terminate_transfer k c g s = (if g then dma_interrupt k c INE_DONE INT_DONE s2 else Inr s2)"
    using assms(2,3) by (simp add: dma_channel_terminate_transfer_def Let_def s2_def s1_def)
  show ?thesis
  proof (cases "g \<and> bit (ch_csr (dma_chan k c s2)) INE_DONE \<and> int_msk_a (dmas s2 ! k) AND ch_mask (dma_chan k c s2) \<noteq> 0")
    case False
    then show ?thesis using t s2 by (auto simp: dma_interrupt_def Let_def)
  next
    case True
    define s3 where "s3 = upd_dma k (int_src_a_update (\<lambda>_. ch_mask (dma_chan k c s2)))
        (upd_chan k c (\<lambda>h. h\<lparr>ch_csr := set_flag INT_DONE (ch_csr h)\<rparr>) s2)"
    have s3: "direct_good s3" "ram_word s3 = ram_word s" "sched s3 = sched s" "cfg s3 = cfg s" "dma_finished k c s3"
      "d_irq (dmas s3 ! k) = d_irq (dmas s ! k)"
      using s2 ram_word_cong[of s3 s2]
      by (auto simp: s3_def upd_dma_def upd_chan_def upd_ch_def has_chan_def dma_finished_def direct_good_def ram_good_def
          direct_ram_def areas_inv_def bit_simps Let_def)
    have "dma_channel_terminate_transfer k c g s = report_interrupt (d_irq (dmas s ! k)) s3"
      using t True s2(6) by (simp add: dma_interrupt_def Let_def s3_def)
    then obtain f q where "dma_channel_terminate_transfer k c g s = Inr (s3\<lparr>sprs := f, sched := q\<rparr>)"
      using report_interrupt_room[OF assms(5,6), of s3 0] assms(4,7) s3 by auto
    then show ?thesis using s3 by (simp add: same_devices_ram(1,2,5)[OF same_devices_sched(2)])
  qed
qed

section \<open>One word\<close>

text \<open>The two accesses of a word: they change one word of memory, and no device.\<close>

lemma copy_word:
  assumes "direct_good s" "ram_place s a a" "ram_place s b b" "\<forall>p. ram_place s p p \<longrightarrow> ram_word s p (m p)"
  obtains s1 s2 where "eval_direct32 a False False s = Inr (m a, s1)" "set_direct32 b (m a) False False s1 = Inr s2"
    "direct_good s2" "ram_place s2 = ram_place s" "\<forall>p. ram_place s p p \<longrightarrow> ram_word s2 p ((m(b := m a)) p)"
    "dmas s1 = dmas s" "dmas s2 = dmas s" "sched s2 = sched s" "cfg s2 = cfg s"
proof -
  let ?s1 = "s\<lparr>cur_area := find_area a 0 (dev_list s)\<rparr>"
  have g: "areas_inv s" "ram_inj s" "direct_ram s" using assms(1) by (simp_all add: direct_good_def ram_good_def)
  have pl: "4 dvd unat a" "4 dvd unat b" using assms(2,3) by (simp_all add: ram_place_def)
  have ld: "eval_direct32 a False False s = Inr (m a, ?s1)"
    using direct_load[OF g(1,3) _ pl(1)] assms(2,4) by blast
  have w1: "ram_word ?s1 = ram_word s" "ram_inj ?s1 = ram_inj s" using ram_word_cong[of ?s1 s] by simp_all
  have g1: "areas_inv ?s1" "ram_inj ?s1" "direct_ram ?s1" "ram_word ?s1 b (m b)"
    using areas_inv_found[OF g(1)] g w1 assms(3,4) by (simp_all add: direct_ram_def)
  obtain c mm where "set_direct32 b (m a) False False ?s1 = Inr (set_block c mm (?s1\<lparr>cur_area := find_area b 0 (dev_list s)\<rparr>))"
    "stored b (m a) ?s1 (set_block c mm (?s1\<lparr>cur_area := find_area b 0 (dev_list s)\<rparr>))"
    using direct_store[OF g1 pl(2), of "m a"] by auto
  moreover define s2 where "s2 = set_block c mm (?s1\<lparr>cur_area := find_area b 0 (dev_list s)\<rparr>)"
  ultimately have st: "set_direct32 b (m a) False False ?s1 = Inr s2" "stored b (m a) ?s1 s2" by simp_all
  have "direct_good ?s1" using g1 by (simp add: direct_good_def ram_good_def)
  then have "direct_good s2" using st(2) by (rule direct_good_stored) (simp add: s2_def)
  moreover have "ram_place s2 = ram_place s"
    using ram_place_cong[of s2 s] stored_exists[OF st(2) g1(4)] w1(1) by simp
  moreover have "ram_word s2 p ((m(b := m a)) p)" if p: "ram_place s p p" for p
  proof (cases "p = b")
    case True
    then show ?thesis using st(2) by (simp add: stored_def)
  next
    case False
    then show ?thesis
      using stored_words[OF st(2) g1(4) pl(2), of p] p assms(4) w1(1) by (simp add: ram_place_def)
  qed
  ultimately show thesis using that[OF ld st(1)] by (simp add: s2_def)
qed

lemma dma_word_step:
  assumes go: "dma_going k c (Suc n) s" and good: "direct_good s"
    and h: "ch_source (dma_chan k c s) = a" "ch_destination (dma_chan k c s) = b"
    and pl: "ram_place s a a" "ram_place s b b" and m: "\<forall>p. ram_place s p p \<longrightarrow> ram_word s p (m p)"
    and room: "room 1 (sched s)" and irq: "pic_enabled (cfg s)" "0 \<le> d_irq (dmas s ! k)" "d_irq (dmas s ! k) < 32"
  shows "\<exists>s'. dma_word k c s = Inr s' \<and> direct_good s' \<and> ram_place s' = ram_place s
     \<and> (\<forall>p. ram_place s p p \<longrightarrow> ram_word s' p ((m(b := m a)) p))
     \<and> (if n = 0 then dma_finished k c s'
        else dma_going k c n s' \<and> job_waits (Dma_channel_clock k c) s' \<and> cfg s' = cfg s
          \<and> d_irq (dmas s' ! k) = d_irq (dmas s ! k)
          \<and> ch_source (dma_chan k c s') = masked_increase a (source_mask (dma_chan k c s))
          \<and> ch_destination (dma_chan k c s') = masked_increase b (destination_mask (dma_chan k c s))
          \<and> source_mask (dma_chan k c s') = source_mask (dma_chan k c s)
          \<and> destination_mask (dma_chan k c s') = destination_mask (dma_chan k c s))"
proof -
  obtain s1 s2 where s2: "eval_direct32 a False False s = Inr (m a, s1)" "set_direct32 b (m a) False False s1 = Inr s2"
    "direct_good s2" "ram_place s2 = ram_place s" "\<forall>p. ram_place s p p \<longrightarrow> ram_word s2 p ((m(b := m a)) p)"
    "dmas s1 = dmas s" "dmas s2 = dmas s" "sched s2 = sched s" "cfg s2 = cfg s"
    using copy_word[OF good pl m] by blast
  have hc: "has_chan k c s" "has_chan k c s2" using go s2(7) by (simp_all add: dma_going_def has_chan_def)
  define s3 where "s3 = upd_chan k c (\<lambda>h. h\<lparr>dma_ack_o := (words_transferred h mod chunk_size h = 0)\<rparr>)
      (upd_chan k c (\<lambda>h. h\<lparr>ch_source := masked_increase (ch_source h) (source_mask h),
         ch_destination := masked_increase (ch_destination h) (destination_mask h),
         words_transferred := words_transferred h + 1\<rparr>) s2)"
  let ?h = "dma_chan k c s" and ?h3 = "dma_chan k c s3"
  have ch: "ch_csr ?h3 = ch_csr ?h" "chunk_size ?h3 = chunk_size ?h" "total_size ?h3 = total_size ?h"
    "words_transferred ?h3 = words_transferred ?h + 1" "load_next_descriptor ?h3 = load_next_descriptor ?h"
    "ch_source ?h3 = masked_increase a (source_mask ?h)" "ch_destination ?h3 = masked_increase b (destination_mask ?h)"
    "source_mask ?h3 = source_mask ?h" "destination_mask ?h3 = destination_mask ?h" "has_chan k c s3"
    using hc h by (simp_all add: s3_def s2(7))
  have f3: "direct_good s3" "ram_word s3 = ram_word s2" "sched s3 = sched s" "cfg s3 = cfg s"
    "d_irq (dmas s3 ! k) = d_irq (dmas s ! k)" "ram_place s3 = ram_place s"
    using hc s2(3,4,7,8,9) ram_place_cong[of s3 s2] by (simp_all add: s3_def)
  have G: "\<not> bit (ch_csr ?h) CH_MODE" "\<not> bit (ch_csr ?h) CH_ARS" "\<not> load_next_descriptor ?h" "chunk_size ?h \<noteq> 0"
    "unat (total_size ?h) = unat (words_transferred ?h) + Suc n" "bit (ch_csr ?h) CH_BUSY" "\<not> bit (ch_csr ?h) CH_STOP"
    using go by (simp_all add: dma_going_def Let_def)
  have wt: "unat (words_transferred ?h + 1) = unat (words_transferred ?h) + 1"
    using G(5) unsigned_less[of "total_size ?h", where ?'a = nat] by (simp add: unat_word_ariths)
  have w: "dma_word k c s = (if n = 0 then dma_channel_terminate_transfer k c True s3 else SCHED_ADD (Dma_channel_clock k c) 1 s3)"
    using s2(1,2,6,7) hc G ch wt h
    by (simp add: dma_word_def channel_nd_i_def Let_def s3_def word_le_nat_alt)
  show ?thesis
  proof (cases "n = 0")
    case True
    then obtain s' where "dma_word k c s = Inr s'" "dma_finished k c s'" "direct_good s'" "ram_word s' = ram_word s3"
      using terminate_finishes[of k c s3 True] ch f3 G irq room w by auto
    then show ?thesis using True f3 s2(5) ram_place_cong[of s' s3] by auto
  next
    case False
    obtain q where q: "SCHED_ADD (Dma_channel_clock k c) 1 s3 = Inr (s3\<lparr>sched := q\<rparr>)"
      "job_waits (Dma_channel_clock k c) (s3\<lparr>sched := q\<rparr>)"
      using SCHED_ADD_room[of 0 s3] room f3(3) by auto
    note sd = same_devices_ram[OF same_devices_sched(1)[of s3 q]]
    have "dma_going k c n s3" using ch G wt by (simp add: dma_going_def Let_def)
    then show ?thesis
      using False w q f3 ch s2(5) ram_place_cong[of "s3\<lparr>sched := q\<rparr>" s3]
      by (intro exI[of _ "s3\<lparr>sched := q\<rparr>"]) (simp add: sd(1,2,4))
  qed
qed

section \<open>The whole transfer\<close>

text \<open>
  The clocks of a channel: before each the scheduler has taken the job off and the queue is some
  \<open>q i\<close>; the next comes if the clock has scheduled it.
\<close>

primrec dma_clocks ::
  "nat \<Rightarrow> nat \<Rightarrow> (nat \<Rightarrow> client_job scheduler) \<Rightarrow> nat \<Rightarrow> 'z board_scheme \<Rightarrow> 'z board_scheme outcome" where
  "dma_clocks k c q 0 s = Inr s"
| "dma_clocks k c q (Suc n) s =
     bind_outcome (dma_channel_clock k c (s\<lparr>sched := q n\<rparr>)) (\<lambda>s.
       if job_waits (Dma_channel_clock k c) s then dma_clocks k c q n s else Inr s)"

text \<open>The copy on an abstract memory, word by word.\<close>

primrec copy_words :: "nat \<Rightarrow> u32 \<Rightarrow> u32 \<Rightarrow> u32 \<Rightarrow> u32 \<Rightarrow> (u32 \<Rightarrow> u32) \<Rightarrow> u32 \<Rightarrow> u32" where
  "copy_words 0 a am b bm m = m"
| "copy_words (Suc n) a am b bm m = copy_words n (masked_increase a am) am (masked_increase b bm) bm (m(b := m a))"

lemma dma_clocks_going:
  assumes "dma_going k c (Suc n) s" "direct_good s" "source_mask (dma_chan k c s) = am" "destination_mask (dma_chan k c s) = bm"
    "\<And>i. i \<le> n \<Longrightarrow> ram_place s (((\<lambda>v. masked_increase v am) ^^ i) (ch_source (dma_chan k c s)))
        (((\<lambda>v. masked_increase v am) ^^ i) (ch_source (dma_chan k c s)))"
    "\<And>i. i \<le> n \<Longrightarrow> ram_place s (((\<lambda>v. masked_increase v bm) ^^ i) (ch_destination (dma_chan k c s)))
        (((\<lambda>v. masked_increase v bm) ^^ i) (ch_destination (dma_chan k c s)))"
    "\<forall>p. ram_place s p p \<longrightarrow> ram_word s p (m p)" "\<And>i. room 1 (q i)"
    "pic_enabled (cfg s)" "0 \<le> d_irq (dmas s ! k)" "d_irq (dmas s ! k) < 32"
  shows "\<exists>s'. dma_clocks k c q (Suc n) s = Inr s' \<and> dma_finished k c s'
     \<and> (\<forall>p. ram_place s p p \<longrightarrow> ram_word s' p
          (copy_words (Suc n) (ch_source (dma_chan k c s)) am (ch_destination (dma_chan k c s)) bm m p))"
  using assms(1-7,9-11)
proof (induction n arbitrary: s m)
  case (0 s m)
  let ?a = "ch_source (dma_chan k c s)" and ?b = "ch_destination (dma_chan k c s)" and ?s = "s\<lparr>sched := q 0\<rparr>"
  note sd = same_devices_ram[OF same_devices_sched(1)[of s "q 0"]]
  have pl: "ram_place ?s = ram_place s" using sd(1) by (intro ram_place_cong) simp
  have "bit (ch_csr (dma_chan k c s)) CH_BUSY" "\<not> bit (ch_csr (dma_chan k c s)) CH_STOP" "\<not> bit (ch_csr (dma_chan k c s)) CH_MODE"
    using 0(1) by (simp_all add: dma_going_def Let_def)
  then have clk: "dma_channel_clock k c ?s = dma_word k c ?s" by (simp add: dma_channel_clock_def Let_def)
  obtain s' where "dma_word k c ?s = Inr s'" "dma_finished k c s'"
    "\<forall>p. ram_place s p p \<longrightarrow> ram_word s' p ((m(?b := m ?a)) p)"
    using dma_word_step[of k c 0 ?s ?a ?b m] 0 assms(8)[of 0] 0(5)[of 0] 0(6)[of 0] pl sd by auto
  then show ?case using clk by auto
next
  case (Suc n s m)
  let ?a = "ch_source (dma_chan k c s)" and ?b = "ch_destination (dma_chan k c s)" and ?s = "s\<lparr>sched := q (Suc n)\<rparr>"
  note sd = same_devices_ram[OF same_devices_sched(1)[of s "q (Suc n)"]]
  have pl: "ram_place ?s = ram_place s" using sd(1) by (intro ram_place_cong) simp
  have "bit (ch_csr (dma_chan k c s)) CH_BUSY" "\<not> bit (ch_csr (dma_chan k c s)) CH_STOP" "\<not> bit (ch_csr (dma_chan k c s)) CH_MODE"
    using Suc.prems(1) by (simp_all add: dma_going_def Let_def)
  then have clk: "dma_channel_clock k c ?s = dma_word k c ?s" by (simp add: dma_channel_clock_def Let_def)
  define m1 where "m1 = m(?b := m ?a)"
  have step: "\<exists>s'. dma_word k c ?s = Inr s' \<and> direct_good s' \<and> ram_place s' = ram_place ?s
     \<and> (\<forall>p. ram_place ?s p p \<longrightarrow> ram_word s' p (m1 p))
     \<and> (if Suc n = 0 then dma_finished k c s'
        else dma_going k c (Suc n) s' \<and> job_waits (Dma_channel_clock k c) s' \<and> cfg s' = cfg ?s
          \<and> d_irq (dmas s' ! k) = d_irq (dmas ?s ! k)
          \<and> ch_source (dma_chan k c s') = masked_increase ?a (source_mask (dma_chan k c ?s))
          \<and> ch_destination (dma_chan k c s') = masked_increase ?b (destination_mask (dma_chan k c ?s))
          \<and> source_mask (dma_chan k c s') = source_mask (dma_chan k c ?s)
          \<and> destination_mask (dma_chan k c s') = destination_mask (dma_chan k c ?s))"
    unfolding m1_def
    by (rule dma_word_step) (use Suc.prems assms(8) Suc.prems(5)[of 0] Suc.prems(6)[of 0] pl sd in simp_all)
  then obtain s1 where s1: "dma_word k c ?s = Inr s1" "direct_good s1" "ram_place s1 = ram_place s"
    "\<forall>p. ram_place s p p \<longrightarrow> ram_word s1 p (m1 p)" "dma_going k c (Suc n) s1" "job_waits (Dma_channel_clock k c) s1"
    "cfg s1 = cfg s" "d_irq (dmas s1 ! k) = d_irq (dmas s ! k)"
    "ch_source (dma_chan k c s1) = masked_increase ?a am" "ch_destination (dma_chan k c s1) = masked_increase ?b bm"
    "source_mask (dma_chan k c s1) = am" "destination_mask (dma_chan k c s1) = bm"
    unfolding pl using Suc.prems(3,4) by auto
  have shift: "(f ^^ Suc i) x = (f ^^ i) (f x)" for f :: "u32 \<Rightarrow> u32" and i x by (simp add: funpow_swap1)
  have "ram_place s1 (((\<lambda>v. masked_increase v am) ^^ i) (ch_source (dma_chan k c s1))) (((\<lambda>v. masked_increase v am) ^^ i) (ch_source (dma_chan k c s1)))"
    "ram_place s1 (((\<lambda>v. masked_increase v bm) ^^ i) (ch_destination (dma_chan k c s1))) (((\<lambda>v. masked_increase v bm) ^^ i) (ch_destination (dma_chan k c s1)))"
    if "i \<le> n" for i
    using Suc.prems(5,6)[of "Suc i"] that unfolding shift s1(3,9,10) by simp_all
  then obtain s2 where "dma_clocks k c q (Suc n) s1 = Inr s2" "dma_finished k c s2"
    "\<forall>p. ram_place s1 p p \<longrightarrow> ram_word s2 p (copy_words (Suc n) (masked_increase ?a am) am (masked_increase ?b bm) bm m1 p)"
    using Suc.IH[of s1 m1] s1 Suc.prems(8-10) by auto
  moreover have "dma_clocks k c q (Suc (Suc n)) s = dma_clocks k c q (Suc n) s1"
    by (subst dma_clocks.simps(2)) (simp only: clk s1(1,6) bind_outcome_simps if_True)
  moreover have "copy_words (Suc (Suc n)) ?a am ?b bm m = copy_words (Suc n) (masked_increase ?a am) am (masked_increase ?b bm) bm m1"
    unfolding m1_def by (rule copy_words.simps(2))
  ultimately show ?case using s1(3) by metis
qed

text \<open>A small controller: channel 0 is set up to copy two words from 0 to 8 on the cached board.\<close>

definition copy_channel :: dma_channel where
  "copy_channel = zero_channel\<lparr>ch_mask := 1, ch_am0 := 0xFFFFFFFC, ch_am1 := 0xFFFFFFFC, ch_csr := 0x19, ch_sz := 2, ch_a1 := 8\<rparr>"

definition dma_board :: board where
  "dma_board = cached_board\<lparr>cfg := (cfg cached_board)\<lparr>pic_enabled := True\<rparr>,
     dmas := [\<lparr>d_enabled = True, d_baseaddr = 0, d_irq = 3, d_vapi_id = 0, d_csr = 0, int_msk_a = 0, int_msk_b = 0,
               int_src_a = 0, int_src_b = 0, dma_ch = [copy_channel]\<rparr>]\<rparr>"

lemma dma_board_ram: "ram_word dma_board = ram_word cached_board" "ram_inj dma_board"
  using ram_word_cong[of dma_board cached_board] cached_board_ram(1) by (simp_all add: dma_board_def)

lemma dma_board_place: "4 dvd unat a \<Longrightarrow> unat a < 16 \<Longrightarrow> ram_place dma_board a a"
  using ram_block_word[OF cached_board_ram(2)] by (simp add: ram_place_def dma_board_ram)

lemma dma_board_good: "direct_good dma_board"
proof -
  have "areas_inv dma_board" using cached_board_inv by (simp add: dc_inv_state_def areas_inv_def dma_board_def)
  moreover have "direct_ram dma_board"
    by (auto simp: direct_ram_def dma_board_def cached_board_fields new_area_def installed_words memory_ops_def
        small_section_def memory_sec_start_def or_else_def Let_def)
  ultimately show ?thesis by (simp add: direct_good_def ram_good_def dma_board_ram)
qed

lemma copy_two: "copy_words 2 a am b bm m = (let m = m(b := m a) in m(masked_increase b bm := m (masked_increase a am)))"
  by (simp add: numeral_2_eq_2 Let_def)

section \<open>Properties\<close>

text \<open>
  C5: a transfer completes, and copies. A channel is set up for a plain transfer of \<open>n > 0\<close> words
  between places of plain memory, with or without increments, whose addresses may overlap. Clocked
  as often as it asks for, whatever else the scheduler holds, it is done after \<open>n\<close> clocks, disabled
  and idle, and memory is as after copying the words one by one.
\<close>

theorem dma_transfer_completes:
  assumes "has_chan k c s" "direct_good s" "h = dma_chan k c s"
    and csr: "\<not> bit (ch_csr h) CH_STOP" "\<not> bit (ch_csr h) CH_MODE" "\<not> bit (ch_csr h) CH_ARS" "\<not> bit (ch_csr h) CH_BUSY"
      "\<not> bit (ch_csr h) USE_ED"
    and n: "unat (ch_sz h AND mask 12) = n" "0 < n"
    and am: "am = (if bit (ch_csr h) INC_SRC then ucast (ch_am0 h) else 0)"
      "bm = (if bit (ch_csr h) INC_DST then ucast (ch_am1 h) else 0)"
    and places: "\<forall>i<n. ram_place s (((\<lambda>v. masked_increase v am) ^^ i) (ucast (ch_a0 h))) (((\<lambda>v. masked_increase v am) ^^ i) (ucast (ch_a0 h)))"
      "\<forall>i<n. ram_place s (((\<lambda>v. masked_increase v bm) ^^ i) (ucast (ch_a1 h))) (((\<lambda>v. masked_increase v bm) ^^ i) (ucast (ch_a1 h)))"
    and m: "\<forall>p. ram_place s p p \<longrightarrow> ram_word s p (m p)" and room: "\<forall>i. room 1 (q i)"
    and irq: "pic_enabled (cfg s)" "0 \<le> d_irq (dmas s ! k)" "d_irq (dmas s ! k) < 32"
  shows "\<exists>s'. dma_clocks k c q n s = Inr s' \<and> dma_finished k c s'
     \<and> (\<forall>p. ram_place s p p \<longrightarrow> ram_word s' p (copy_words n (ucast (ch_a0 h)) am (ucast (ch_a1 h)) bm m p))"
proof -
  obtain l where l: "n = Suc l" using n(2) by (cases n) auto
  let ?s = "s\<lparr>sched := q l\<rparr>"
  define s1 where "s1 = upd_chan k c dma_init_transfer (upd_chan k c (load_next_descriptor_update (\<lambda>_. False))
      (upd_chan k c (\<lambda>h. h\<lparr>ch_csr := set_flag CH_BUSY (clear_flag CH_ERR (clear_flag CH_DONE (ch_csr h)))\<rparr>) ?s))"
  note sd = same_devices_ram[OF same_devices_sched(1)[of s "q l"]]
  have hc: "has_chan k c ?s" "dma_chan k c ?s = h" using assms(1,3) sd by simp_all
  have "ch_sz h AND mask 12 \<noteq> 0" using n by auto
  then have going: "dma_going k c (Suc l) s1"
    using hc csr n l by (simp add: dma_going_def s1_def dma_init_transfer_def get_field_def bit_simps Let_def)
  have f1: "ch_source (dma_chan k c s1) = ucast (ch_a0 h)" "ch_destination (dma_chan k c s1) = ucast (ch_a1 h)"
    "source_mask (dma_chan k c s1) = am" "destination_mask (dma_chan k c s1) = bm"
    "direct_good s1" "ram_word s1 = ram_word s" "d_irq (dmas s1 ! k) = d_irq (dmas s ! k)" "cfg s1 = cfg s" "sched s1 = q l"
    using hc csr am assms(2) sd(1,2) by (simp_all add: s1_def dma_init_transfer_def bit_simps Let_def)
  have pl: "ram_place s1 = ram_place s" using f1(6) by (intro ram_place_cong) simp
  have "dma_channel_clock k c ?s = dma_word k c s1"
    using hc csr by (simp add: dma_channel_clock_def dma_start_def channel_nd_i_def s1_def dma_init_transfer_def bit_simps Let_def)
  moreover have "s1\<lparr>sched := q l\<rparr> = s1" unfolding f1(9)[symmetric] by (cases s1) simp
  then have "dma_channel_clock k c (s1\<lparr>sched := q l\<rparr>) = dma_word k c s1"
    using going by (simp add: dma_channel_clock_def dma_going_def Let_def)
  ultimately have eq: "dma_clocks k c q n s = dma_clocks k c q n s1" by (simp add: l)
  have "\<exists>s'. dma_clocks k c q (Suc l) s1 = Inr s' \<and> dma_finished k c s'
     \<and> (\<forall>p. ram_place s1 p p \<longrightarrow> ram_word s' p
          (copy_words (Suc l) (ch_source (dma_chan k c s1)) am (ch_destination (dma_chan k c s1)) bm m p))"
    by (rule dma_clocks_going) (use going f1 places m room irq in \<open>simp_all add: pl l\<close>)
  then show ?thesis unfolding eq unfolding l pl f1(1,2) .
qed

theorem dma_transfer_completes_witness:
  "\<exists>s' v w. dma_clocks 0 0 (\<lambda>_. \<lparr>free_job_queue = [\<lparr>time = 0, param = 0, func = Sched_guard\<rparr>],
        job_queue = [\<lparr>time = 1000, param = 0, func = Sched_guard\<rparr>]\<rparr>) 2 dma_board = Inr s' \<and> dma_finished 0 0 s'
     \<and> ram_word dma_board 0 v \<and> ram_word s' 8 v \<and> ram_word dma_board 4 w \<and> ram_word s' 12 w"
proof -
  let ?m = "\<lambda>p. SOME v. ram_word dma_board p v"
  let ?q = "\<lambda>_ :: nat. \<lparr>free_job_queue = [\<lparr>time = 0, param = 0, func = Sched_guard\<rparr>],
        job_queue = [\<lparr>time = 1000, param = 0, func = Sched_guard\<rparr>]\<rparr> :: client_job scheduler"
  have m: "\<forall>p. ram_place dma_board p p \<longrightarrow> ram_word dma_board p (?m p)" by (auto simp: ram_place_def intro: someI)
  have ch: "dma_chan 0 0 dma_board = copy_channel" "has_chan 0 0 dma_board" by (simp_all add: dma_board_def has_chan_def)
  have two: "i < 2 \<longleftrightarrow> i = 0 \<or> i = 1" for i :: nat by auto
  have inc: "masked_increase 0 0xFFFFFFFC = 4" "masked_increase 8 0xFFFFFFFC = 12" by (simp_all add: masked_increase_def)
  have pl: "ram_place dma_board 0 0" "ram_place dma_board 4 4" "ram_place dma_board 8 8" "ram_place dma_board 12 12"
    by (rule dma_board_place; simp)+
  have "\<exists>s'. dma_clocks 0 0 ?q 2 dma_board = Inr s' \<and> dma_finished 0 0 s'
     \<and> (\<forall>p. ram_place dma_board p p \<longrightarrow> ram_word s' p (copy_words 2 (ucast (ch_a0 copy_channel)) 0xFFFFFFFC (ucast (ch_a1 copy_channel)) 0xFFFFFFFC ?m p))"
    by (rule dma_transfer_completes[OF ch(2) dma_board_good ch(1)[symmetric]])
      (use m pl in \<open>simp_all add: copy_channel_def zero_channel_def bit_numeral_rec mask_eq_exp_minus_1 two inc room_def dma_board_def\<close>)
  then obtain s' where s': "dma_clocks 0 0 ?q 2 dma_board = Inr s'" "dma_finished 0 0 s'"
    "\<And>p. ram_place dma_board p p \<Longrightarrow> ram_word s' p (copy_words 2 0 0xFFFFFFFC 8 0xFFFFFFFC ?m p)"
    by (auto simp: copy_channel_def zero_channel_def)
  have "copy_words 2 0 0xFFFFFFFC 8 0xFFFFFFFC ?m 8 = ?m 0" "copy_words 2 0 0xFFFFFFFC 8 0xFFFFFFFC ?m 12 = ?m 4"
    by (simp_all add: copy_two inc Let_def)
  then have "ram_word s' 8 (?m 0)" "ram_word s' 12 (?m 4)" using s'(3)[OF pl(3)] s'(3)[OF pl(4)] by simp_all
  then show ?thesis using s'(1,2) m pl(1,2) by blast
qed

end
