(* ===== verification/Serial.thy ===== *)
theory Serial
  imports Uart Queueing
begin

text \<open>
  Correctness of the serial port: frames decode to what was encoded, characters leave and arrive in
  order through the FIFOs, and where the interrupt identification goes wrong.
\<close>

section \<open>Frames\<close>

lemma drop_and_1: "drop_bit n p AND 1 = (of_bool (bit p n) :: u64)"
  by (simp add: and_one_eq bit_iff_odd_drop_bit mod2_eq_if)

lemma parity_Suc: "parity_of p (Suc n) = parity_of p n XOR of_bool (bit p n)"
  by (simp add: parity_of_def drop_and_1)

lemma parity_cases: "parity_of p n = 0 \<or> parity_of p n = 1"
  by (induction n) (auto simp: parity_Suc, simp add: parity_of_def)

lemma parity_cong: "(\<And>i. i < n \<Longrightarrow> bit p i = bit q i) \<Longrightarrow> parity_of p n = parity_of q n"
  by (induction n) (simp_all add: parity_Suc, simp add: parity_of_def)

lemma take_part: "(\<And>i. i < n \<Longrightarrow> bit p i = bit q i) \<Longrightarrow> p AND mask n = q AND (mask n :: u64)"
  by (rule bit_word_eqI) (auto simp: bit_simps)

lemma data_bits: "unat (lcr AND 3 :: u8) + 5 \<le> 8"
proof -
  have "unat (lcr AND 3) \<le> unat (3 :: u8)" using word_and_le1[of lcr 3] by (simp add: word_le_nat_alt and.commute)
  then show ?thesis by simp
qed

text \<open>The bits of a frame.\<close>

definition frame_parity :: "u8 \<Rightarrow> u64 \<Rightarrow> nat \<Rightarrow> u64" where
  "frame_parity lcr packet n = (if lcr AND UART_LCR_SPAR \<noteq> 0 then 1
     else if lcr AND UART_LCR_EPAR \<noteq> 0 then parity_of packet n else parity_of packet n XOR 1)"

lemma frame_parity_cases: "frame_parity lcr p n = 0 \<or> frame_parity lcr p n = 1"
  using parity_cases[of p n] by (auto simp: frame_parity_def)

definition flag_at :: "nat \<Rightarrow> u64 \<Rightarrow> u64" where
  "flag_at n x = push_bit n x"

lemma bit_flag_at: "x = 0 \<or> x = 1 \<Longrightarrow> n < 64 \<Longrightarrow> bit (flag_at n x) i \<longleftrightarrow> i = n \<and> x = 1"
  by (auto simp: flag_at_def bit_simps)

lemma encode_bits:
  fixes lcr :: u8 and c :: u8
  defines "n \<equiv> unat (lcr AND UART_LCR_WLEN8) + 5"
  assumes "n \<le> bits"
  shows "i < n \<Longrightarrow> bit (encode_packet lcr bits c) i = bit c i"
    and "lcr AND UART_LCR_PARITY \<noteq> 0 \<Longrightarrow> bit (encode_packet lcr bits c) n \<longleftrightarrow> frame_parity lcr (ucast c AND mask n) n = 1"
    and "lcr AND UART_LCR_PARITY \<noteq> 0 \<Longrightarrow> bit (encode_packet lcr bits c) (n + 1)"
    and "lcr AND UART_LCR_PARITY \<noteq> 0 \<Longrightarrow> lcr AND UART_LCR_STOP \<noteq> 0 \<Longrightarrow> bit (encode_packet lcr bits c) (n + 2)"
    and "lcr AND UART_LCR_PARITY = 0 \<Longrightarrow> bit (encode_packet lcr bits c) n"
    and "lcr AND UART_LCR_PARITY = 0 \<Longrightarrow> lcr AND UART_LCR_STOP \<noteq> 0 \<Longrightarrow> bit (encode_packet lcr bits c) (n + 1)"
proof -
  have n: "n \<le> 8" unfolding n_def by (rule data_bits)
  have m: "min bits n = n" using assms(2) by simp
  let ?p = "ucast c AND mask n :: u64"
  have e: "encode_packet lcr bits c =
      (if lcr AND UART_LCR_PARITY \<noteq> 0
       then (if lcr AND UART_LCR_STOP \<noteq> 0
             then ((?p OR flag_at n (frame_parity lcr ?p n)) OR flag_at (n + 1) 1) OR flag_at (n + 2) 1
             else (?p OR flag_at n (frame_parity lcr ?p n)) OR flag_at (n + 1) 1)
       else (if lcr AND UART_LCR_STOP \<noteq> 0 then (?p OR flag_at n 1) OR flag_at (n + 1) 1 else ?p OR flag_at n 1))"
    using m unfolding encode_packet_def frame_parity_def n_def by (simp add: flag_at_def Let_def)
  have b: "bit ?p i \<longleftrightarrow> i < n \<and> bit c i" for i using n by (auto simp: bit_simps)
  note pb = bit_flag_at[OF frame_parity_cases] bit_flag_at[of 1, simplified]
  show "i < n \<Longrightarrow> bit (encode_packet lcr bits c) i = bit c i"
    using n unfolding e by (simp add: bit_or_iff b pb)
  show "lcr AND UART_LCR_PARITY \<noteq> 0 \<Longrightarrow> bit (encode_packet lcr bits c) n \<longleftrightarrow> frame_parity lcr (ucast c AND mask n) n = 1"
    "lcr AND UART_LCR_PARITY \<noteq> 0 \<Longrightarrow> bit (encode_packet lcr bits c) (n + 1)"
    "lcr AND UART_LCR_PARITY \<noteq> 0 \<Longrightarrow> lcr AND UART_LCR_STOP \<noteq> 0 \<Longrightarrow> bit (encode_packet lcr bits c) (n + 2)"
    "lcr AND UART_LCR_PARITY = 0 \<Longrightarrow> bit (encode_packet lcr bits c) n"
    "lcr AND UART_LCR_PARITY = 0 \<Longrightarrow> lcr AND UART_LCR_STOP \<noteq> 0 \<Longrightarrow> bit (encode_packet lcr bits c) (n + 1)"
    using n unfolding e by (auto simp: bit_or_iff b pb)
qed

text \<open>
  C20: a frame decodes to its character. When both ends have the same mode, and the transmitter
  sends the number of bits of the mode, the receiver reads the character, cut to that number of bits, with the mode
  and neither a parity nor a frame error, for every parity and number of stop bits.
\<close>

theorem frame_roundtrip:
  assumes "unat (lcr AND UART_LCR_WLEN8) + 5 \<le> bits"
  shows "decode_packet lcr (encode_packet lcr bits c)
     = (ucast c AND mask (unat (lcr AND UART_LCR_WLEN8) + 5)) OR push_bit 8 (ucast lcr)"
proof -
  define n where "n = unat (lcr AND UART_LCR_WLEN8) + 5"
  define p where "p = encode_packet lcr bits c"
  let ?d = "ucast c AND mask n :: u64"
  note bits = encode_bits[OF assms, where c = c, folded n_def p_def]
  have d: "p AND mask n = ?d" using data_bits[of lcr] by (intro take_part) (auto simp: bits(1) bit_simps n_def)
  have par: "parity_of p n = parity_of ?d n" using data_bits[of lcr] by (intro parity_cong) (auto simp: bits(1) bit_simps n_def)
  have par1: "parity_of p (n + 1) = parity_of ?d n XOR of_bool (bit p n)" by (simp add: parity_Suc par)
  show ?thesis
    unfolding decode_packet_def p_def[symmetric] n_def[symmetric] Let_def d drop_and_1
    using bits(2-6) par1 parity_cases[of ?d n]
    by (auto simp: frame_parity_def drop_and_1)
qed

theorem frame_roundtrip_witness:
  "decode_packet 0x1b (encode_packet 0x1b 8 0x41) = 0x1b41"
  using frame_roundtrip[of "0x1b" 8 "0x41"] by (simp add: mask_eq_exp_minus_1)

section \<open>FIFOs\<close>

text \<open>The contents of a ring of length \<open>l\<close> from position \<open>t\<close>.\<close>

definition ring :: "'a list \<Rightarrow> nat \<Rightarrow> nat \<Rightarrow> nat \<Rightarrow> 'a list" where
  "ring b t n l = map (\<lambda>i. b ! ((t + i) mod l)) [0..<n]"

lemma ring_0 [simp]: "ring b t 0 l = []" by (simp add: ring_def)

lemma ring_apart:
  fixes i n t l :: nat
  assumes "i < n" "n < l"
  shows "(t + i) mod l \<noteq> (t + n) mod l"
proof
  assume "(t + i) mod l = (t + n) mod l"
  then have "(t + n) mod l = (t + i) mod l" by simp
  then have "l dvd (t + n) - (t + i)" using assms mod_eq_dvd_iff_nat[of "t + i" "t + n" l] by simp
  then have "l dvd n - i" by simp
  with assms show False by (auto dest: dvd_imp_le)
qed

lemma ring_push:
  assumes "n < l" "l \<le> length b"
  shows "ring (b[(t + n) mod l := v]) t (Suc n) l = ring b t n l @ [v]"
proof -
  have "(t + n) mod l < length b" using assms mod_less_divisor[of l "t + n"] by linarith
  moreover have "(t + n) mod l \<noteq> (t + i) mod l" if "i < n" for i using ring_apart[OF that assms(1), of t] by metis
  ultimately show ?thesis by (auto simp: ring_def nth_list_update)
qed

lemma ring_pop: "t < l \<Longrightarrow> ring b t (Suc n) l = b ! t # ring b ((t + 1) mod l) n l"
proof -
  assume "t < l"
  have "[0..<Suc n] = 0 # map Suc [0..<n]" by (simp only: map_Suc_upt upt_conv_Cons zero_less_Suc)
  moreover have "(t + Suc i) mod l = ((t + 1) mod l + i) mod l" for i by (simp add: mod_simps)
  ultimately show ?thesis using \<open>t < l\<close> by (simp add: ring_def del: upt_Suc)
qed

text \<open>The invariant of both FIFOs: 1 or 16 places, the head as far ahead of the tail as the count says.\<close>

definition ring_wf :: "'a list \<Rightarrow> nat \<Rightarrow> nat \<Rightarrow> u32 \<Rightarrow> nat \<Rightarrow> bool" where
  "ring_wf b h t n l \<longleftrightarrow> (l = 1 \<or> l = 16) \<and> length b = 16 \<and> t < l \<and> unat n \<le> l \<and> h = (t + unat n) mod l"

definition uart_wf :: "uart \<Rightarrow> bool" where
  "uart_wf u \<longleftrightarrow> ring_wf (u_txbuf u) (txbuf_head u) (txbuf_tail u) (txbuf_full u) (fifo_len u)
     \<and> ring_wf (u_rxbuf u) (rxbuf_head u) (rxbuf_tail u) (rxbuf_full u) (fifo_len u)"

lemma count_Suc:
  fixes n :: u32
  assumes "unat n < 16"
  shows "unat (n + 1) = Suc (unat n)"
  using assms by (simp add: unat_word_ariths)

lemma ring_wf_push:
  assumes "ring_wf b h t n l" "n < of_nat l"
  shows "ring_wf (b[h := v]) ((h + 1) mod l) t (n + 1) l"
    and "ring (b[h := v]) t (unat (n + 1)) l = ring b t (unat n) l @ [v]" "h < length b"
proof -
  have l: "unat n < l" "l \<le> 16" using assms by (auto simp: ring_wf_def word_less_nat_alt unat_of_nat)
  then have c: "unat (n + 1) = Suc (unat n)" by (intro count_Suc) simp
  show "ring_wf (b[h := v]) ((h + 1) mod l) t (n + 1) l"
    using assms(1) l by (auto simp: ring_wf_def c mod_simps)
  show "ring (b[h := v]) t (unat (n + 1)) l = ring b t (unat n) l @ [v]"
    using assms(1) l ring_push[of "unat n" l b t v] by (simp add: ring_wf_def c)
  show "h < length b" using assms(1) l mod_less_divisor[of l "t + unat n"] by (auto simp: ring_wf_def)
qed

lemma ring_wf_pop:
  assumes "ring_wf b h t n l" "n \<noteq> 0"
  shows "ring_wf b h ((t + 1) mod l) (n - 1) l" "t < length b"
    and "ring b t (unat n) l = b ! t # ring b ((t + 1) mod l) (unat (n - 1)) l"
proof -
  have c: "unat n = Suc (unat (n - 1))"
    using assms(2) unat_minus_one[of n] by (metis Suc_diff_1 unat_eq_zero neq0_conv)
  show "ring_wf b h ((t + 1) mod l) (n - 1) l" using assms(1) by (auto simp: ring_wf_def c mod_simps)
  show "t < length b" using assms(1) by (auto simp: ring_wf_def)
  show "ring b t (unat n) l = b ! t # ring b ((t + 1) mod l) (unat (n - 1)) l"
    unfolding c using assms(1) by (intro ring_pop) (simp add: ring_wf_def)
qed

section \<open>Interrupts do not touch the FIFOs\<close>

definition same_fifos :: "uart \<Rightarrow> uart \<Rightarrow> bool" where
  "same_fifos u u' \<longleftrightarrow> (\<exists>i j. u' = u\<lparr>u_ints := i, u_iir := j\<rparr>)"

text \<open>A port whose interrupts can be reported \<open>k\<close> times.\<close>

definition port_ok :: "nat \<Rightarrow> uart \<times> 'z machine_scheme \<Rightarrow> bool" where
  "port_ok k us \<longleftrightarrow> 0 \<le> u_irq (fst us) \<and> u_irq (fst us) < 32 \<and> pic_enabled (cfg (snd us)) \<and> room k (sched (snd us))"

definition int_step :: "('z port \<Rightarrow> 'z port outcome) \<Rightarrow> bool" where
  "int_step f \<longleftrightarrow> (\<forall>u s k. port_ok (Suc k) (u, s) \<longrightarrow>
     (\<exists>u' s'. f (u, s) = Inr (u', s') \<and> same_fifos u u' \<and> port_ok k (u', s')))"

lemma port_report:
  assumes "port_ok (Suc k) (u, s)"
  shows "\<exists>s'. report_interrupt (u_irq u) s = Inr s' \<and> cfg s' = cfg s \<and> room k (sched s')"
  using report_interrupt_room[of "u_irq u" s k] assms by (auto simp: port_ok_def)

lemma same_fifos_upd: "same_fifos u (u\<lparr>u_ints := i\<rparr>)" "same_fifos u (u\<lparr>u_ints := i, u_iir := j\<rparr>)" "same_fifos u (u\<lparr>u_iir := j\<rparr>)" "same_fifos u u"
proof -
  show "same_fifos u (u\<lparr>u_ints := i\<rparr>)" unfolding same_fifos_def by (intro exI[of _ i] exI[of _ "u_iir u"]) simp
  show "same_fifos u (u\<lparr>u_ints := i, u_iir := j\<rparr>)" unfolding same_fifos_def by blast
  show "same_fifos u (u\<lparr>u_iir := j\<rparr>)" unfolding same_fifos_def by (intro exI[of _ "u_ints u"] exI[of _ j]) simp
  show "same_fifos u u" unfolding same_fifos_def by (intro exI[of _ "u_ints u"] exI[of _ "u_iir u"]) simp
qed

lemma port_ok_less: "port_ok (Suc k) us \<Longrightarrow> port_ok k us"
  using room_less[of "Suc k" "sched (snd us)" k] by (simp add: port_ok_def)

lemma same_fifos_trans: "same_fifos u v \<Longrightarrow> same_fifos v w \<Longrightarrow> same_fifos u w"
  unfolding same_fifos_def by (elim exE) (simp, blast)

lemma int_stepI:
  fixes f :: "'z port \<Rightarrow> 'z port outcome"
  assumes "\<And>u s. f (u, s) = (let u = u\<lparr>u_ints := u_ints u OR m\<rparr> in if c u then Inr (u, s)
      else if d u then bind_outcome (report_interrupt (u_irq u) s) (\<lambda>s. Inr (u\<lparr>u_iir := j\<rparr>, s)) else Inr (u, s))"
  shows "int_step f"
  unfolding int_step_def
proof (intro allI impI)
  fix u k and s :: "'z machine_scheme" assume ok: "port_ok (Suc k) (u, s)"
  define v where "v = u\<lparr>u_ints := u_ints u OR m\<rparr>"
  have v: "same_fifos u v" "port_ok (Suc k) (v, s)" using ok by (simp_all add: v_def same_fifos_upd port_ok_def)
  obtain s' where s': "report_interrupt (u_irq v) s = Inr s'" "cfg s' = cfg s" "room k (sched s')" using port_report[OF v(2)] by blast
  have "port_ok k (v\<lparr>u_iir := j\<rparr>, s')" using s' v(2) by (simp add: port_ok_def)
  then show "\<exists>u' s'. f (u, s) = Inr (u', s') \<and> same_fifos u u' \<and> port_ok k (u', s')"
    using s'(1) v port_ok_less[OF v(2)] same_fifos_trans[OF v(1) same_fifos_upd(3)]
    by (simp add: assms Let_def flip: v_def)
qed

lemma int_steps:
  "int_step uart_int_msi" "int_step uart_int_thri" "int_step uart_int_cti" "int_step uart_int_rdi" "int_step uart_int_rlsi"
proof -
  show "int_step uart_int_msi" by (rule int_stepI) (simp only: uart_int_msi_def prod.case)
  show "int_step uart_int_thri" by (rule int_stepI) (simp only: uart_int_thri_def prod.case)
  show "int_step uart_int_cti" by (rule int_stepI) (simp only: uart_int_cti_def prod.case)
  show "int_step uart_int_rdi" by (rule int_stepI) (simp only: uart_int_rdi_def prod.case)
  show "int_step uart_int_rlsi"
    by (rule int_stepI[where d = "\<lambda>_. True"]) (simp only: uart_int_rlsi_def prod.case if_True)
qed

lemma int_next: "int_step (uart_next_int :: 'z port \<Rightarrow> 'z port outcome)"
  unfolding int_step_def
proof (intro allI impI)
  fix u k and s :: "'z machine_scheme" assume ok: "port_ok (Suc k) (u, s)"
  have "\<exists>s'. clear_interrupt (u_irq u) s = Inr s' \<and> cfg s' = cfg s \<and> sched s' = sched s"
    using ok by (simp add: clear_interrupt_def port_ok_def)
  then obtain s' where s': "clear_interrupt (u_irq u) s = Inr s'" "cfg s' = cfg s" "sched s' = sched s" by blast
  have "port_ok k (u\<lparr>u_iir := UART_IIR_NO_INT\<rparr>, s')" using port_ok_less[OF ok] s'(2,3) by (simp add: port_ok_def)
  then show "\<exists>u' s'. uart_next_int (u, s) = Inr (u', s') \<and> same_fifos u u' \<and> port_ok k (u', s')"
    using int_steps[unfolded int_step_def, rule_format, OF ok] s'(1)
    by (simp add: uart_next_int_def same_fifos_upd)
qed

lemma int_clear: "int_step (uart_clear_int n intr :: 'z port \<Rightarrow> 'z port outcome)"
  unfolding int_step_def
proof (intro allI impI)
  fix u k and s :: "'z machine_scheme" assume ok: "port_ok (Suc k) (u, s)"
  define v where "v = u\<lparr>u_ints := u_ints u AND NOT (push_bit (unat intr) 1)\<rparr>"
  define t where "t = (if intr = UART_IIR_CTI then SCHED_FIND_REMOVE (Uart_job Uart_int_cti n) s else s)"
  have "room (Suc k) (sched t)" "cfg t = cfg s"
    using SCHED_FIND_REMOVE_room[of "Suc k" s "Uart_job Uart_int_cti n"] ok by (auto simp: t_def port_ok_def)
  then have vt: "port_ok (Suc k) (v, t)" "same_fifos u v" using ok by (simp_all add: v_def port_ok_def same_fifos_upd)
  have "uart_clear_int n intr (u, s) = (if intr \<noteq> u_iir v then Inr (v, t) else uart_next_int (v, t))"
    by (simp add: uart_clear_int_def Let_def v_def t_def)
  then show "\<exists>u' s'. uart_clear_int n intr (u, s) = Inr (u', s') \<and> same_fifos u u' \<and> port_ok k (u', s')"
    using int_next[unfolded int_step_def, rule_format, OF vt(1)] vt port_ok_less[OF vt(1)] same_fifos_trans[OF vt(2)] by auto
qed

lemma int_stepD:
  assumes "int_step f" "port_ok (Suc k) (u, s)"
  obtains u' s' where "f (u, s) = Inr (u', s')" "same_fifos u u'" "port_ok k (u', s')"
  using assms unfolding int_step_def by blast

lemma sched_step:
  assumes "port_ok (Suc k) (u, s)"
  obtains s' where "SCHED_ADD j t s = Inr s'" "port_ok k (u, s')" "job_waits j s'"
  using SCHED_ADD_room[of k s j t] assms by (auto simp: port_ok_def)

section \<open>Characters in order\<close>

definition tx_fifo :: "uart \<Rightarrow> u8 list" where
  "tx_fifo u = ring (u_txbuf u) (txbuf_tail u) (unat (txbuf_full u)) (fifo_len u)"

definition rx_fifo :: "uart \<Rightarrow> u16 list" where
  "rx_fifo u = ring (u_rxbuf u) (rxbuf_tail u) (unat (rxbuf_full u)) (fifo_len u)"

text \<open>Everything on its way out: sent, in the shift register, waiting.\<close>

definition tx_line :: "uart \<Rightarrow> u8 list" where
  "tx_line u = u_sent u @ (if u_lsr u AND UART_LSR_TXSERE \<noteq> 0 then [] else [u_txser u]) @ tx_fifo u"

text \<open>Characters go to the channel: no break, no loopback, no verification interface, divisor latch closed.\<close>

definition plain_line :: "uart \<Rightarrow> bool" where
  "plain_line u \<longleftrightarrow> u_lcr u AND UART_LCR_DLAB = 0 \<and> u_lcr u AND UART_LCR_SBC = 0 \<and> u_mcr u AND UART_MCR_LOOP = 0 \<and> u_vapi_id u = 0"

lemma same_fifos_keep:
  assumes "same_fifos u u'"
  shows "tx_line u' = tx_line u" "uart_wf u' = uart_wf u" "rx_fifo u' = rx_fifo u" "u_lsr u' = u_lsr u" "plain_line u' = plain_line u"
    "u_sent u' = u_sent u" "rxbuf_full u' = rxbuf_full u" "u_fcr u' = u_fcr u" "fifo_len u' = fifo_len u" "u_rxbuf u' = u_rxbuf u"
    "rxbuf_tail u' = rxbuf_tail u" "rxbuf_head u' = rxbuf_head u" "u_char_clks u' = u_char_clks u" "txbuf_full u' = txbuf_full u"
  using assms by (auto simp: same_fifos_def tx_line_def tx_fifo_def rx_fifo_def uart_wf_def plain_line_def)

lemma same_tx_fifo: "same_fifos u u' \<Longrightarrow> tx_fifo u' = tx_fifo u"
  by (auto simp: same_fifos_def tx_fifo_def)

lemma port_ok_cong: "u_irq u' = u_irq u \<Longrightarrow> port_ok k (u', s) = port_ok k (u, s)"
  by (simp add: port_ok_def)

lemma ring_nonempty: "n \<noteq> 0 \<Longrightarrow> ring b t (unat (n :: u32)) l \<noteq> []"
  by (simp add: ring_def unat_eq_zero)

lemma write_keeps_order:
  assumes "uart_wf u" "plain_line u" "port_ok 2 (u, s)" "txbuf_full u < of_nat (fifo_len u)"
  shows "\<exists>u' s'. uart_write_byte n 0 v (u, s) = Inr (u', s') \<and> uart_wf u' \<and> plain_line u' \<and> tx_line u' = tx_line u @ [v]"
proof -
  have tx: "ring_wf (u_txbuf u) (txbuf_head u) (txbuf_tail u) (txbuf_full u) (fifo_len u)" using assms(1) by (simp add: uart_wf_def)
  note push = ring_wf_push[OF tx assms(4)]
  define w where "w = u\<lparr>u_lsr := u_lsr u AND NOT UART_LSR_TXBUFE, u_txbuf := (u_txbuf u)[txbuf_head u := v],
      txbuf_head := (txbuf_head u + 1) mod fifo_len u, txbuf_full := txbuf_full u + 1\<rparr>"
  have lsr: "(u_lsr u AND NOT UART_LSR_TXBUFE) AND UART_LSR_TXSERE = u_lsr u AND UART_LSR_TXSERE"
    by (rule and_clear_other) simp
  have w: "uart_wf w" "plain_line w" "tx_line w = tx_line u @ [v]"
    using push assms(1,2) lsr by (simp_all add: w_def uart_wf_def plain_line_def tx_line_def tx_fifo_def)
  have ok: "port_ok 2 (w, s)" using assms(3) by (simp add: port_ok_def w_def)
  have two: "port_ok (Suc 1) (w, s)" using ok by (simp add: numeral_2_eq_2)
  obtain s0 where s0: "SCHED_ADD (Uart_job Uart_tx_send n) 0 s = Inr s0" "port_ok 1 (w, s0)" by (rule sched_step[OF two])
  define s1 where "s1 = (if txbuf_full u = 0 \<and> u_lsr u AND UART_LSR_TXSERE \<noteq> 0 then s0 else s)"
  have s1: "(if txbuf_full u = 0 \<and> u_lsr u AND UART_LSR_TXSERE \<noteq> 0
        then bind_outcome (SCHED_ADD (Uart_job Uart_tx_send n) 0 s) (\<lambda>s. Inr (w, s)) else Inr (w, s)) = Inr (w, s1)"
    "port_ok (Suc 0) (w, s1)"
    using s0 port_ok_less[OF two] by (simp_all add: s1_def)
  obtain u' s' where u': "uart_clear_int n UART_IIR_THRI (w, s1) = Inr (u', s')" "same_fifos w u'"
    by (rule int_stepD[OF int_clear s1(2)])
  have "uart_write_byte n 0 v (u, s) = bind_outcome (if txbuf_full u = 0 \<and> u_lsr u AND UART_LSR_TXSERE \<noteq> 0
      then bind_outcome (SCHED_ADD (Uart_job Uart_tx_send n) 0 s) (\<lambda>s. Inr (w, s)) else Inr (w, s)) (uart_clear_int n UART_IIR_THRI)"
    using assms(2,4) push(3) lsr unfolding w_def by (simp add: uart_write_byte_def uart_write_txbuf_def plain_line_def Let_def)
  then have "uart_write_byte n 0 v (u, s) = Inr (u', s')" unfolding s1(1) using u'(1) by simp
  then show ?thesis using same_fifos_keep[OF u'(2)] w by metis
qed

lemma full_write_replaces:
  assumes "uart_wf u" "plain_line u" "port_ok 2 (u, s)" "txbuf_full u = of_nat (fifo_len u)"
  shows "\<exists>u' s'. uart_write_byte n 0 v (u, s) = Inr (u', s') \<and> uart_wf u' \<and> plain_line u' \<and> tx_fifo u' = v # tl (tx_fifo u)"
proof -
  have tx: "ring_wf (u_txbuf u) (txbuf_head u) (txbuf_tail u) (txbuf_full u) (fifo_len u)" using assms(1) by (simp add: uart_wf_def)
  then have l: "fifo_len u = 1 \<or> fifo_len u = 16" "txbuf_tail u < fifo_len u" "length (u_txbuf u) = 16" by (auto simp: ring_wf_def)
  then have n: "unat (txbuf_full u) = fifo_len u" using assms(4) by auto
  then have h: "txbuf_head u = txbuf_tail u" using tx by (simp add: ring_wf_def)
  obtain k where k: "fifo_len u = Suc k" using l(2) by (cases "fifo_len u") auto
  define w where "w = u\<lparr>u_lsr := u_lsr u AND NOT UART_LSR_TXBUFE, u_txbuf := (u_txbuf u)[txbuf_head u := v]\<rparr>"
  have "(u_txbuf u)[txbuf_tail u := v] ! ((txbuf_tail u + 1 + i) mod Suc k) = u_txbuf u ! ((txbuf_tail u + 1 + i) mod Suc k)"
    if "i < k" for i
    using ring_apart[of 0 "1 + i" "Suc k" "txbuf_tail u"] that l(2) k by (intro nth_list_update_neq) (simp add: add.assoc)
  then have "ring ((u_txbuf u)[txbuf_tail u := v]) ((txbuf_tail u + 1) mod Suc k) k (Suc k)
      = ring (u_txbuf u) ((txbuf_tail u + 1) mod Suc k) k (Suc k)"
    by (simp add: ring_def mod_simps)
  moreover have "txbuf_tail u < length (u_txbuf u)" using l by auto
  ultimately have f: "tx_fifo w = v # tl (tx_fifo u)" using l k
    by (simp add: tx_fifo_def w_def h n ring_pop del: add_Suc add_Suc_right)
  have w: "uart_wf w" "plain_line w" using assms(1,2) by (simp_all add: w_def uart_wf_def ring_wf_def plain_line_def)
  have ok: "port_ok (Suc 1) (w, s)" using assms(3) by (simp add: port_ok_def w_def numeral_2_eq_2)
  obtain u' s' where u': "uart_clear_int n UART_IIR_THRI (w, s) = Inr (u', s')" "same_fifos w u'" by (rule int_stepD[OF int_clear ok])
  have "uart_write_byte n 0 v (u, s) = uart_clear_int n UART_IIR_THRI (w, s)"
    using assms(2,4) l h unfolding w_def by (auto simp: uart_write_byte_def uart_write_txbuf_def plain_line_def Let_def)
  then have "uart_write_byte n 0 v (u, s) = Inr (u', s')" using u'(1) by simp
  then show ?thesis using same_fifos_keep[OF u'(2)] same_tx_fifo[OF u'(2)] w f by metis
qed

lemma tx_send_keeps_order:
  assumes "uart_wf u" "plain_line u" "port_ok 2 (u, s)" "txbuf_full u \<noteq> 0"
  shows "\<exists>u' s'. uart_tx_send n (u, s) = Inr (u', s') \<and> uart_wf u' \<and> plain_line u' \<and> tx_line u' = u_sent u @ tx_fifo u
     \<and> u_sent u' = u_sent u \<and> u_lsr u' AND UART_LSR_TXSERE = 0"
proof -
  have tx: "ring_wf (u_txbuf u) (txbuf_head u) (txbuf_tail u) (txbuf_full u) (fifo_len u)" using assms(1) by (simp add: uart_wf_def)
  define m where "m = txbuf_full u - 1"
  note pop = ring_wf_pop[OF tx assms(4), folded m_def]
  define w where "w = u\<lparr>u_txser := u_txbuf u ! txbuf_tail u, txbuf_tail := (txbuf_tail u + 1) mod fifo_len u,
      txbuf_full := m, u_lsr := u_lsr u AND NOT UART_LSR_TXSERE\<rparr>"
  define z where "z = (if m = 0 then w\<lparr>u_lsr := u_lsr w OR UART_LSR_TXBUFE\<rparr> else w)"
  have lsr: "(u_lsr u AND NOT UART_LSR_TXSERE) AND UART_LSR_TXSERE = 0" "((u_lsr u AND NOT UART_LSR_TXSERE) OR UART_LSR_TXBUFE) AND UART_LSR_TXSERE = 0"
    by (simp_all only: flag_simps, subst and_or_other, simp, rule and_clear_same)
  have wm: "txbuf_full w = m" by (simp add: w_def)
  have z: "uart_wf z" "plain_line z" "tx_line z = u_sent u @ tx_fifo u" "u_sent z = u_sent u" "u_lsr z AND UART_LSR_TXSERE = 0" "u_irq z = u_irq u" "u_irq w = u_irq u"
    using pop assms(1,2) lsr by (cases "m = 0"; auto simp: z_def w_def uart_wf_def plain_line_def tx_line_def tx_fifo_def)+
  have ok: "port_ok 2 (w, s)" using assms(3) by (simp add: port_ok_def w_def)
  obtain s1 where s1: "SCHED_ADD (Uart_job Uart_char_clock n) (int (u_char_clks w * UART_CLOCK_DIVIDER)) s = Inr s1" "port_ok 1 (w, s1)"
    by (rule sched_step[of 1 w s "Uart_job Uart_char_clock n" "int (u_char_clks w * UART_CLOCK_DIVIDER)"])
      (use ok in \<open>simp add: numeral_2_eq_2\<close>)
  have "port_ok (Suc 0) (z, s1)" using s1(2) z(6) by (simp add: port_ok_def w_def)
  then have "\<exists>u' s'. uart_int_thri (z, s1) = Inr (u', s') \<and> same_fifos z u'"
    using int_steps(2) unfolding int_step_def by blast
  then obtain u' s' where u': "(if m = 0 then uart_int_thri (z, s1) else Inr (z, s1)) = Inr (u', s')" "same_fifos z u'"
    using same_fifos_upd(4)[of z] by (cases "m = 0") auto
  have "uart_tx_send n (u, s) = bind_outcome (bind_outcome
      (SCHED_ADD (Uart_job Uart_char_clock n) (int (u_char_clks w * UART_CLOCK_DIVIDER)) s) (\<lambda>s. Inr (w, s)))
      (\<lambda>(u, s). if txbuf_full u = 0 then uart_int_thri (u\<lparr>u_lsr := u_lsr u OR UART_LSR_TXBUFE\<rparr>, s) else Inr (u, s))"
    using pop(2) assms(2) unfolding w_def by (simp add: uart_tx_send_def plain_line_def Let_def flip: m_def)
  then have "uart_tx_send n (u, s) = Inr (u', s')"
    unfolding s1(1) using u'(1) wm by (simp add: z_def split: if_splits)
  then show ?thesis using same_fifos_keep[OF u'(2)] z by metis
qed

lemma char_clock_keeps_order:
  assumes "uart_wf u" "plain_line u" "port_ok 2 (u, s)" "u_lsr u AND UART_LSR_TXSERE = 0"
  shows "\<exists>u' s'. uart_char_clock n (u, s) = Inr (u', s') \<and> uart_wf u' \<and> plain_line u' \<and> tx_line u' = tx_line u
     \<and> u_sent u' = u_sent u @ [u_txser u]"
proof -
  define w where "w = u\<lparr>u_sent := u_sent u @ [u_txser u]\<rparr>"
  have w: "uart_wf w" "plain_line w" "port_ok 2 (w, s)" "txbuf_full w = txbuf_full u" "u_sent w = u_sent u @ [u_txser u]" "u_lsr w = u_lsr u"
    "tx_line u = u_sent w @ tx_fifo w"
    using assms by (simp_all add: w_def uart_wf_def plain_line_def port_ok_def tx_line_def tx_fifo_def)
  have e: "uart_char_clock n (u, s) = (if txbuf_full u = 0 then Inr (w\<lparr>u_lsr := u_lsr u OR UART_LSR_TXSERE\<rparr>, s) else uart_tx_send n (w, s))"
    using assms(2) by (simp add: uart_char_clock_def send_char_def plain_line_def w_def)
  show ?thesis
  proof (cases "txbuf_full u = 0")
    case True
    have "(u_lsr u OR UART_LSR_TXSERE) AND UART_LSR_TXSERE \<noteq> 0" by (simp add: bit_simps word_ao_dist2)
    then show ?thesis using True w unfolding e by (simp add: tx_line_def tx_fifo_def uart_wf_def plain_line_def)
  next
    case False
    then show ?thesis using tx_send_keeps_order[of w s n] w unfolding e by auto
  qed
qed

lemma load_keeps_line:
  assumes "uart_wf u" "plain_line u" "port_ok 2 (u, s)" "u_lsr u AND UART_LSR_TXSERE \<noteq> 0" "txbuf_full u \<noteq> 0"
  shows "\<exists>u' s'. uart_tx_send n (u, s) = Inr (u', s') \<and> uart_wf u' \<and> plain_line u' \<and> tx_line u' = tx_line u \<and> u_sent u' = u_sent u"
proof -
  have "tx_line u = u_sent u @ tx_fifo u" using assms(4) by (simp add: tx_line_def)
  then show ?thesis using tx_send_keeps_order[OF assms(1-3,5), of n] by auto
qed

text \<open>
  C15: characters leave in the order they were written. Everything on its way out - the characters
  sent, the one in the shift register, the ones waiting - is one line: a write to the transmit register
  appends to it unless the FIFO is full, and then it takes the place of the oldest character waiting; the
  job that loads the shift register and the job that ends a character only move along it, and the end of
  a character sends exactly the character in the shift register. The FIFOs stay well formed.
\<close>

theorem uart_transmit_order:
  assumes "uart_wf u" "plain_line u" "port_ok 2 (u, s)"
  shows "(txbuf_full u < of_nat (fifo_len u) \<longrightarrow>
      (\<exists>u' s'. uart_write_byte n 0 v (u, s) = Inr (u', s') \<and> uart_wf u' \<and> plain_line u' \<and> tx_line u' = tx_line u @ [v]))
    \<and> (txbuf_full u = of_nat (fifo_len u) \<longrightarrow>
      (\<exists>u' s'. uart_write_byte n 0 v (u, s) = Inr (u', s') \<and> uart_wf u' \<and> plain_line u' \<and> tx_fifo u' = v # tl (tx_fifo u)))
    \<and> (u_lsr u AND UART_LSR_TXSERE \<noteq> 0 \<and> txbuf_full u \<noteq> 0 \<longrightarrow>
      (\<exists>u' s'. uart_tx_send n (u, s) = Inr (u', s') \<and> uart_wf u' \<and> plain_line u' \<and> tx_line u' = tx_line u \<and> u_sent u' = u_sent u))
    \<and> (u_lsr u AND UART_LSR_TXSERE = 0 \<longrightarrow>
      (\<exists>u' s'. uart_char_clock n (u, s) = Inr (u', s') \<and> uart_wf u' \<and> plain_line u' \<and> tx_line u' = tx_line u
        \<and> u_sent u' = u_sent u @ [u_txser u]))"
  using write_keeps_order[OF assms] full_write_replaces[OF assms] load_keeps_line[OF assms] char_clock_keeps_order[OF assms]
  by (intro conjI impI) simp_all

text \<open>A 16550 with an empty transmitter, and a processor with its interrupt controller.\<close>

definition idle_port :: uart where
  "idle_port = \<lparr>u_txbuf = replicate 16 0, u_rxbuf = replicate 16 0, u_dll = 0, u_dlh = 0, u_ier = 0x0f, u_iir = UART_IIR_NO_INT, u_fcr = 0,
     u_lcr = 3, u_mcr = 0, u_lsr = UART_LSR_TXBUFE OR UART_LSR_TXSERE, u_msr = 0, u_scr = 0, u_txser = 0, u_rxser = 0, u_loopback = 0,
     txbuf_head = 0, txbuf_tail = 0, rxbuf_head = 0, rxbuf_tail = 0, txbuf_full = 0, rxbuf_full = 0, u_receiving = False,
     recv_break = False, u_ints = 0, u_char_clks = 10, v_char_clks = 0, v_dll = 0, v_dlh = 0, v_lcr = 0, v_skew = 0,
     vapi_buf = replicate 128 0, vapi_buf_head = 0, vapi_buf_tail = 0, fifo_len = 16, u_channel = [], u_sent = [], u_vapi_out = [],
     u_enabled = True, u_jitter = 0, u_baseaddr = 0, u_irq = 2, u_vapi_id = 0, uart16550 = True\<rparr>"

definition port_machine :: machine where
  "port_machine = zero_machine\<lparr>cfg := zero_config\<lparr>pic_enabled := True\<rparr>,
     sched := \<lparr>free_job_queue = replicate 5 \<lparr>time = 0, param = 0, func = Sched_guard\<rparr>,
               job_queue = [\<lparr>time = 1000, param = 0, func = Sched_guard\<rparr>]\<rparr>\<rparr>"

definition loaded_port :: uart where
  "loaded_port = idle_port\<lparr>txbuf_full := 16, rxbuf_full := 2, rxbuf_head := 2,
     u_txbuf := map of_nat [65..<81], u_rxbuf := (u_rxbuf idle_port)[0 := 65, 1 := 66]\<rparr>"

lemma port_machine_ok: "0 \<le> u_irq u \<Longrightarrow> u_irq u < 32 \<Longrightarrow> k \<le> 5 \<Longrightarrow> port_ok k (u, port_machine)"
  by (simp add: port_ok_def port_machine_def room_def)

lemma ports_good:
  "uart_wf idle_port" "plain_line idle_port" "uart_wf loaded_port" "plain_line loaded_port" "plain_line (loaded_port\<lparr>u_lsr := 0\<rparr>)"
  "uart_wf (loaded_port\<lparr>u_lsr := 0\<rparr>)"
  by (simp_all add: uart_wf_def ring_wf_def idle_port_def loaded_port_def plain_line_def)

lemma ports_tx: "tx_fifo loaded_port = map of_nat [65..<81]" "rx_fifo loaded_port = [65, 66]" "tx_line idle_port = []"
  by (simp_all add: tx_fifo_def rx_fifo_def tx_line_def ring_def loaded_port_def idle_port_def upt_rec)

theorem uart_transmit_order_witness:
  "(\<exists>u' s'. uart_write_byte 0 0 65 (idle_port, port_machine) = Inr (u', s') \<and> tx_line u' = [65])
   \<and> (\<exists>u' s'. uart_write_byte 0 0 1 (loaded_port, port_machine) = Inr (u', s') \<and> tx_fifo u' = 1 # map of_nat [66..<81])
   \<and> (\<exists>u' s'. uart_tx_send 0 (loaded_port, port_machine) = Inr (u', s') \<and> tx_line u' = tx_line loaded_port)
   \<and> (\<exists>u' s'. uart_char_clock 0 (loaded_port\<lparr>u_lsr := 0\<rparr>, port_machine) = Inr (u', s') \<and> u_sent u' = [0])"
proof -
  have ok: "port_ok 2 (idle_port, port_machine)" "port_ok 2 (loaded_port, port_machine)" "port_ok 2 (loaded_port\<lparr>u_lsr := 0\<rparr>, port_machine)"
    by (rule port_machine_ok; simp add: idle_port_def loaded_port_def)+
  have f: "txbuf_full idle_port < of_nat (fifo_len idle_port)" "txbuf_full loaded_port = of_nat (fifo_len loaded_port)"
    "u_lsr loaded_port AND UART_LSR_TXSERE \<noteq> 0" "txbuf_full loaded_port \<noteq> 0"
    by (simp_all add: idle_port_def loaded_port_def)
  have tl: "tl (map of_nat [65..<81]) = (map of_nat [66..<81] :: u8 list)" by (simp add: upt_rec)
  have s: "u_sent (loaded_port\<lparr>u_lsr := 0\<rparr>) @ [u_txser (loaded_port\<lparr>u_lsr := 0\<rparr>)] = [0]" by (simp add: loaded_port_def idle_port_def)
  have "\<exists>u' s'. uart_write_byte 0 0 65 (idle_port, port_machine) = Inr (u', s') \<and> tx_line u' = [65]"
    using uart_transmit_order[OF ports_good(1,2) ok(1), of 0 65] f(1) ports_tx(3) by auto
  moreover have "\<exists>u' s'. uart_write_byte 0 0 1 (loaded_port, port_machine) = Inr (u', s') \<and> tx_fifo u' = 1 # map of_nat [66..<81]"
    using uart_transmit_order[OF ports_good(3,4) ok(2), of 0 1] f(2) unfolding ports_tx(1) tl by auto
  moreover have "\<exists>u' s'. uart_tx_send 0 (loaded_port, port_machine) = Inr (u', s') \<and> tx_line u' = tx_line loaded_port"
    using uart_transmit_order[OF ports_good(3,4) ok(2), of 0 1] f(3,4) by auto
  moreover have "\<exists>u' s'. uart_char_clock 0 (loaded_port\<lparr>u_lsr := 0\<rparr>, port_machine) = Inr (u', s') \<and> u_sent u' = [0]"
    using uart_transmit_order[OF ports_good(6,5) ok(3), of 0 1] unfolding s by auto
  ultimately show ?thesis by blast
qed

section \<open>Receiver\<close>

lemma int_step_Inr: "int_step Inr"
  using port_ok_less same_fifos_upd(4) by (fastforce simp: int_step_def)

lemma int_step_if: "int_step f \<Longrightarrow> int_step g \<Longrightarrow> int_step (\<lambda>us. if c us then f us else g us)"
  by (simp add: int_step_def)

lemma check_steps: "int_step uart_check_rlsi" "int_step uart_check_rdi"
  unfolding uart_check_rlsi_def uart_check_rdi_def case_prod_unfold
  by (rule int_step_if int_steps int_step_Inr)+

lemma add_char_appends:
  fixes s :: "'z machine_scheme"
  assumes "uart_wf u" "port_ok 4 (u, s)"
  shows "\<exists>u' s'. uart_add_char n ch (u, s) = Inr (u', s') \<and> uart_wf u'
     \<and> (if rxbuf_full u < of_nat (fifo_len u) then rx_fifo u' = rx_fifo u @ [ch]
        else rx_fifo u' = rx_fifo u \<and> u_lsr u' AND UART_LSR_OVRRUN \<noteq> 0)"
proof -
  define a where "a = u\<lparr>u_lsr := u_lsr u OR UART_LSR_RDRDY\<rparr>"
  have a: "uart_wf a" "rx_fifo a = rx_fifo u" "port_ok (Suc 3) (a, s)" "rxbuf_full a = rxbuf_full u" "fifo_len a = fifo_len u"
    using assms by (simp_all add: a_def uart_wf_def rx_fifo_def port_ok_def)
  obtain b s1 where b: "uart_clear_int n UART_IIR_CTI (a, s) = Inr (b, s1)" "same_fifos a b" "port_ok 3 (b, s1)"
    by (rule int_stepD[OF int_clear a(3)])
  note k = same_fifos_keep[OF b(2)]
  have "port_ok (Suc 2) (b, s1)" using b(3) by (simp add: numeral_3_eq_3)
  from sched_step[OF this]
  obtain s2 where s2: "SCHED_ADD (Uart_job Uart_int_cti n) (int (u_char_clks b * UART_CHAR_TIMEOUT * UART_CLOCK_DIVIDER)) s1 = Inr s2"
    "port_ok 2 (b, s2)" by metis
  have rx: "ring_wf (u_rxbuf b) (rxbuf_head b) (rxbuf_tail b) (rxbuf_full b) (fifo_len b)" "uart_wf b"
    using a(1) k(2) by (simp_all add: uart_wf_def)
  let ?c = "rxbuf_full b < of_nat (fifo_len b)"
  define w where "w = b\<lparr>u_rxbuf := (u_rxbuf b)[rxbuf_head b := ch], rxbuf_head := (rxbuf_head b + 1) mod fifo_len b, rxbuf_full := rxbuf_full b + 1\<rparr>"
  define e where "e = (rxbuf_full b = 0)"
  define z where "z = (if ?c then if e then w\<lparr>u_lsr := u_lsr w OR ucast (drop_bit 8 ch)\<rparr> else w
      else b\<lparr>u_lsr := u_lsr b OR (UART_LSR_OVRRUN OR UART_LSR_RXERR)\<rparr>)"
  define f :: "'z port \<Rightarrow> 'z port outcome" where "f = (if ?c then if e then uart_check_rlsi else Inr else uart_int_rlsi)"
  note push = ring_wf_push[OF rx(1)]
  have z: "uart_wf z" "port_ok (Suc 1) (z, s2)" using push(1) rx(2) s2(2)
    by (auto simp: z_def w_def uart_wf_def port_ok_def numeral_2_eq_2)
  have o: "(l OR (UART_LSR_OVRRUN OR UART_LSR_RXERR)) AND UART_LSR_OVRRUN \<noteq> 0" for l :: u8
    by (simp add: word_ao_dist)
  have q: "if ?c then rx_fifo z = rx_fifo b @ [ch] else rx_fifo z = rx_fifo b \<and> u_lsr z AND UART_LSR_OVRRUN \<noteq> 0"
    using push(2) o by (simp add: z_def w_def rx_fifo_def)
  have "int_step f" unfolding f_def by (auto intro: int_steps check_steps int_step_Inr)
  from int_stepD[OF this z(2)] obtain x s3 where x: "f (z, s2) = Inr (x, s3)" "same_fifos z x" "port_ok (Suc 0) (x, s3)" by auto
  obtain y s4 where y: "uart_check_rdi (x, s3) = Inr (y, s4)" "same_fifos x y" by (rule int_stepD[OF check_steps(2) x(3)])
  have zy: "same_fifos z y" by (rule same_fifos_trans[OF x(2) y(2)])
  have full: "(rxbuf_full b + 1 > of_nat (fifo_len b)) = (\<not> ?c)"
    using rx(1) by (auto simp: ring_wf_def word_less_nat_alt unat_word_ariths)
  have "uart_add_char n ch (u, s) = bind_outcome (f (z, s2)) uart_check_rdi"
    unfolding uart_add_char_def prod.case a_def[symmetric] b(1) bind_outcome_simps fst_conv s2(1) full e_def[symmetric] Let_def
    using push(3) by (cases "?c") (simp_all add: f_def z_def w_def)
  then have "uart_add_char n ch (u, s) = Inr (y, s4)" using x(1) y(1) by simp
  moreover have "uart_wf y" "rx_fifo b = rx_fifo u" "rxbuf_full b = rxbuf_full u" "fifo_len b = fifo_len u" "rx_fifo y = rx_fifo z" "u_lsr y = u_lsr z"
    using same_fifos_keep[OF zy] z(1) k a by simp_all
  ultimately show ?thesis using q by simp
qed

lemma lsr_keeps: "uart_wf (u\<lparr>u_lsr := l\<rparr>) = uart_wf u" "rx_fifo (u\<lparr>u_lsr := l\<rparr>) = rx_fifo u"
  by (simp_all add: uart_wf_def rx_fifo_def)

lemma read_takes_head:
  fixes s :: "'z machine_scheme"
  assumes "uart_wf u" "port_ok 5 (u, s)" "u_lcr u AND UART_LCR_DLAB = 0" "rx_fifo u \<noteq> []"
  shows "\<exists>u' s'. uart_read_byte n 0 (u, s) = Inr (ucast (hd (rx_fifo u)), u', s') \<and> uart_wf u' \<and> rx_fifo u' = tl (rx_fifo u)"
proof -
  have rx: "ring_wf (u_rxbuf u) (rxbuf_head u) (rxbuf_tail u) (rxbuf_full u) (fifo_len u)" using assms(1) by (simp add: uart_wf_def)
  have n0: "rxbuf_full u \<noteq> 0" using assms(4) by (auto simp: rx_fifo_def)
  define m where "m = rxbuf_full u - 1"
  note pop = ring_wf_pop[OF rx n0, folded m_def]
  define w where "w = u\<lparr>rxbuf_tail := (rxbuf_tail u + 1) mod fifo_len u, rxbuf_full := m\<rparr>"
  have w: "uart_wf w" "rx_fifo u = u_rxbuf u ! rxbuf_tail u # rx_fifo w"
    using pop assms(1) by (simp_all add: w_def uart_wf_def rx_fifo_def)
  have "port_ok (Suc 4) (w, s)" using assms(2) by (simp add: port_ok_def w_def)
  from int_stepD[OF int_clear this] obtain a s1 where a: "uart_clear_int n UART_IIR_RDI (w, s) = Inr (a, s1)" "same_fifos w a"
    "port_ok 4 (a, s1)" by metis
  have "port_ok (Suc 3) (a, s1)" using a(3) by simp
  from int_stepD[OF int_clear this] obtain b s2 where b: "uart_clear_int n UART_IIR_CTI (a, s1) = Inr (b, s2)" "same_fifos a b"
    "port_ok 3 (b, s2)" by metis
  have k: "same_fifos w b" by (rule same_fifos_trans[OF a(2) b(2)])
  have "port_ok (Suc 2) (b, s2)" using b(3) by simp
  from sched_step[OF this]
  obtain s3 where s3: "SCHED_ADD (Uart_job Uart_int_cti n) (int (u_char_clks b * UART_CHAR_TIMEOUT * UART_CLOCK_DIVIDER)) s2 = Inr s3"
    "port_ok 2 (b, s3)" by metis
  define z where "z = b\<lparr>u_lsr := u_lsr b OR (UART_LSR_RDRDY OR ucast (drop_bit 8 (u_rxbuf b ! rxbuf_tail b)))\<rparr>"
  have "port_ok (Suc 1) (z, s3)" using s3(2) by (simp add: z_def port_ok_def numeral_2_eq_2)
  from int_stepD[OF check_steps(1) this] obtain c s4 where c: "uart_check_rlsi (z, s3) = Inr (c, s4)" "same_fifos z c" "port_ok (Suc 0) (c, s4)"
    by auto
  obtain d s5 where d: "uart_check_rdi (c, s4) = Inr (d, s5)" "same_fifos c d" by (rule int_stepD[OF check_steps(2) c(3)])
  define y where "y = (if rxbuf_full b \<noteq> 0 then d else b\<lparr>u_lsr := u_lsr b AND NOT UART_LSR_RDRDY\<rparr>)"
  have "uart_wf b" "rx_fifo b = rx_fifo w" "uart_wf d" "rx_fifo d = rx_fifo w"
    using same_fifos_keep(2,3)[OF k] same_fifos_keep(2,3)[OF same_fifos_trans[OF c(2) d(2)]] w(1) by (simp_all add: z_def lsr_keeps)
  then have y: "uart_wf y" "rx_fifo y = rx_fifo w" by (simp_all add: y_def lsr_keeps)
  have "uart_read_byte n 0 (u, s) = bind_outcome (uart_clear_int n UART_IIR_RDI (w, s)) (\<lambda>us.
           bind_outcome (uart_clear_int n UART_IIR_CTI us) (\<lambda>(u', s).
           bind_outcome
             (if rxbuf_full u' \<noteq> 0
              then
                bind_outcome (uart_sched Uart_int_cti n (u_char_clks u' * UART_CHAR_TIMEOUT * UART_CLOCK_DIVIDER)
                   (u'\<lparr>u_lsr := u_lsr u' OR (UART_LSR_RDRDY OR ucast (drop_bit 8 (u_rxbuf u' ! rxbuf_tail u')))\<rparr>, s)) (\<lambda>us.
                bind_outcome (uart_check_rlsi us) uart_check_rdi)
              else Inr (u'\<lparr>u_lsr := u_lsr u' AND NOT UART_LSR_RDRDY\<rparr>, s)) (\<lambda>us. Inr (ucast (hd (rx_fifo u)), us))))"
    using assms(3) pop(2) n0 by (simp add: uart_read_byte_def uart_read_rxbuf_def w_def w(2) flip: m_def)
  also have "\<dots> = Inr (ucast (hd (rx_fifo u)), y, if rxbuf_full b \<noteq> 0 then s5 else s2)"
    unfolding a(1) b(1) bind_outcome_simps prod.case using s3(1) c(1) d(1) by (simp add: y_def flip: z_def)
  finally show ?thesis using y w(2) by (intro exI[of _ y]) simp
qed

text \<open>
  C16: characters are read in the order they arrived. A character received is appended to the FIFO,
  and dropped with the overrun flag set when the FIFO is full; a read of the receive register returns the
  oldest character and removes it, whatever interrupts either raises.
\<close>

theorem uart_receive_order:
  assumes "uart_wf u" "port_ok 5 (u, s)"
  shows "(\<exists>u' s'. uart_add_char n ch (u, s) = Inr (u', s') \<and> uart_wf u'
        \<and> (if rxbuf_full u < of_nat (fifo_len u) then rx_fifo u' = rx_fifo u @ [ch]
           else rx_fifo u' = rx_fifo u \<and> u_lsr u' AND UART_LSR_OVRRUN \<noteq> 0))
    \<and> (u_lcr u AND UART_LCR_DLAB = 0 \<and> rx_fifo u \<noteq> [] \<longrightarrow>
      (\<exists>u' s'. uart_read_byte n 0 (u, s) = Inr (ucast (hd (rx_fifo u)), u', s') \<and> uart_wf u' \<and> rx_fifo u' = tl (rx_fifo u)))"
proof (intro conjI impI)
  have "port_ok (Suc 4) (u, s)" using assms(2) by simp
  from port_ok_less[OF this] show "\<exists>u' s'. uart_add_char n ch (u, s) = Inr (u', s') \<and> uart_wf u'
      \<and> (if rxbuf_full u < of_nat (fifo_len u) then rx_fifo u' = rx_fifo u @ [ch]
         else rx_fifo u' = rx_fifo u \<and> u_lsr u' AND UART_LSR_OVRRUN \<noteq> 0)"
    by (rule add_char_appends[OF assms(1)])
qed (use read_takes_head[OF assms] in blast)

theorem uart_receive_order_witness:
  "(\<exists>u' s'. uart_add_char 0 67 (loaded_port, port_machine) = Inr (u', s') \<and> rx_fifo u' = [65, 66, 67])
   \<and> (\<exists>u' s'. uart_read_byte 0 0 (loaded_port, port_machine) = Inr (65, u', s') \<and> rx_fifo u' = [66])"
proof -
  have ok: "port_ok 5 (loaded_port, port_machine)" by (rule port_machine_ok) (simp_all add: idle_port_def loaded_port_def)
  have f: "rxbuf_full loaded_port < of_nat (fifo_len loaded_port)" "u_lcr loaded_port AND UART_LCR_DLAB = 0"
    by (simp_all add: idle_port_def loaded_port_def)
  show ?thesis using uart_receive_order[OF ports_good(3) ok, of 0 67] f by (auto simp: ports_tx(2))
qed

section \<open>Stale identification\<close>

lemma or_flag_set: "x AND push_bit k 1 \<noteq> 0 \<Longrightarrow> x OR push_bit k 1 = (x :: 'a::len word)"
  by (rule bit_word_eqI) (auto simp: and_exp_eq_0_iff_not_bit bit_simps)

text \<open>A lower priority interrupt that is due changes nothing while the identification names a higher one.\<close>

lemma masked_int:
  assumes "uart_due UART_IIR_RDI UART_IER_RDI u" "u_iir u = UART_IIR_RLSI"
  shows "uart_int_rdi (u, s) = Inr (u, s)"
  using assms or_flag_set[of "u_ints u" 4] by (simp add: uart_due_def uart_int_rdi_def)

lemma masked_thri:
  assumes "uart_due UART_IIR_THRI UART_IER_THRI u" "u_iir u = UART_IIR_RDI"
  shows "uart_int_thri (u, s) = Inr (u, s)"
  using assms or_flag_set[of "u_ints u" 2] by (simp add: uart_due_def uart_int_thri_def)

lemma clear_flag_due:
  "uart_due i e (u\<lparr>u_ints := u_ints u AND NOT (push_bit (unat i) 1)\<rparr>) = False"
  "unat i \<noteq> unat j \<Longrightarrow> unat i < 32 \<Longrightarrow> unat j < 32 \<Longrightarrow>
    uart_due i e (u\<lparr>u_ints := u_ints u AND NOT (push_bit (unat j) 1)\<rparr>) = uart_due i e u"
  by (simp_all add: uart_due_def and_exp_eq_0_iff_not_bit bit_simps and_clear_same)

lemma stale_ints:
  "u_iir u = UART_IIR_RLSI \<Longrightarrow> uart_due UART_IIR_RDI UART_IER_RDI u \<Longrightarrow>
      uart_clear_int n UART_IIR_RLSI (u, s) = Inr (u\<lparr>u_ints := u_ints u AND NOT (push_bit (unat UART_IIR_RLSI) 1)\<rparr>, s)"
  "u_iir u = UART_IIR_RDI \<Longrightarrow> \<not> uart_due UART_IIR_RLSI UART_IER_RLSI u \<Longrightarrow> \<not> uart_due UART_IIR_CTI UART_IER_RDI u \<Longrightarrow>
      uart_due UART_IIR_THRI UART_IER_THRI u \<Longrightarrow>
      uart_clear_int n UART_IIR_RDI (u, s) = Inr (u\<lparr>u_ints := u_ints u AND NOT (push_bit (unat UART_IIR_RDI) 1)\<rparr>, s)"
proof -
  define v where "v i = u\<lparr>u_ints := u_ints u AND NOT (push_bit (unat (i :: u8)) 1)\<rparr>" for i
  have due: "uart_due i e (v i) = False"
    "unat i \<noteq> unat j \<Longrightarrow> unat i < 32 \<Longrightarrow> unat j < 32 \<Longrightarrow> uart_due i e (v j) = uart_due i e u" for i j e
    unfolding v_def by (rule clear_flag_due; assumption)+
  have v: "u_iir (v i) = u_iir u" for i by (simp add: v_def)
  show "u_iir u = UART_IIR_RLSI \<Longrightarrow> uart_due UART_IIR_RDI UART_IER_RDI u \<Longrightarrow>
      uart_clear_int n UART_IIR_RLSI (u, s) = Inr (u\<lparr>u_ints := u_ints u AND NOT (push_bit (unat UART_IIR_RLSI) 1)\<rparr>, s)"
    unfolding uart_clear_int_def Let_def prod.case v_def[symmetric]
    by (simp add: uart_next_int_def due masked_int v)
  show "u_iir u = UART_IIR_RDI \<Longrightarrow> \<not> uart_due UART_IIR_RLSI UART_IER_RLSI u \<Longrightarrow> \<not> uart_due UART_IIR_CTI UART_IER_RDI u \<Longrightarrow>
      uart_due UART_IIR_THRI UART_IER_THRI u \<Longrightarrow>
      uart_clear_int n UART_IIR_RDI (u, s) = Inr (u\<lparr>u_ints := u_ints u AND NOT (push_bit (unat UART_IIR_RDI) 1)\<rparr>, s)"
    unfolding uart_clear_int_def Let_def prod.case v_def[symmetric]
    by (simp add: uart_next_int_def due masked_thri v)
qed

text \<open>
  C38: the interrupt identification goes stale. The interrupt it names is cleared while one of lower
  priority is due - received data behind a line error, an empty transmitter behind received data: the
  identification keeps naming the interrupt that is no longer pending and the line is not touched,
  because the routine that raises the next one is refused by the identification of the one just cleared.
\<close>

theorem uart_stale_identification:
  "(u_iir u = UART_IIR_RLSI \<and> uart_due UART_IIR_RDI UART_IER_RDI u \<longrightarrow>
      uart_clear_int n UART_IIR_RLSI (u, s) = Inr (u\<lparr>u_ints := u_ints u AND NOT (push_bit (unat UART_IIR_RLSI) 1)\<rparr>, s))
    \<and> (u_iir u = UART_IIR_RDI \<and> \<not> uart_due UART_IIR_RLSI UART_IER_RLSI u \<and> \<not> uart_due UART_IIR_CTI UART_IER_RDI u
        \<and> uart_due UART_IIR_THRI UART_IER_THRI u \<longrightarrow>
      uart_clear_int n UART_IIR_RDI (u, s) = Inr (u\<lparr>u_ints := u_ints u AND NOT (push_bit (unat UART_IIR_RDI) 1)\<rparr>, s))"
  using stale_ints by blast

theorem uart_stale_identification_witness:
  "uart_clear_int 0 UART_IIR_RLSI (idle_port\<lparr>u_iir := UART_IIR_RLSI, u_ints := 0x50\<rparr>, port_machine)
     = Inr (idle_port\<lparr>u_iir := UART_IIR_RLSI, u_ints := 0x10\<rparr>, port_machine)"
  using uart_stale_identification[of "idle_port\<lparr>u_iir := UART_IIR_RLSI, u_ints := 0x50\<rparr>" 0 port_machine]
  by (simp add: uart_due_def idle_port_def)

end
