(* ===== verification/Vapi.thy ===== *)
theory Vapi
  imports Serial
begin

text \<open>
  The loop of a serial port over the commands of the verification interface ends: the bound of
  \<open>vapi_loop\<close> is larger than the number of commands in the buffer, and every turn takes one.
\<close>

text \<open>The commands in the buffer, and a port whose buffer is well formed.\<close>

definition vapi_pending :: "uart \<Rightarrow> nat" where
  "vapi_pending u = (vapi_buf_head u + 128 - vapi_buf_tail u) mod 128"

definition vapi_wf :: "uart \<Rightarrow> bool" where
  "vapi_wf u \<longleftrightarrow> vapi_buf_head u < 128 \<and> vapi_buf_tail u < 128"

lemma vapi_pending_take:
  assumes "vapi_wf u" "vapi_buf_head u \<noteq> vapi_buf_tail u" "vapi_buf_tail u' = (vapi_buf_tail u + 1) mod 128" "vapi_buf_head u' = vapi_buf_head u"
  shows "vapi_wf u'" "vapi_pending u = Suc (vapi_pending u')"
proof -
  have "vapi_buf_tail u + 1 = 128 \<or> vapi_buf_tail u + 1 < 128" using assms(1) by (auto simp: vapi_wf_def)
  then have "vapi_buf_tail u' = (if vapi_buf_tail u = 127 then 0 else vapi_buf_tail u + 1)" using assms(3) by auto
  moreover have "(h + 128 - t) mod 128 = (if t \<le> h then h - t else h + 128 - t)" if "h < 128" "t < 128" for h t :: nat
    using that by (auto simp: mod_if)
  ultimately show "vapi_wf u'" "vapi_pending u = Suc (vapi_pending u')"
    using assms(1,2,4) by (auto simp: vapi_wf_def vapi_pending_def split: if_splits)
qed

text \<open>A function that ends and leaves at most as many commands as there are.\<close>

definition vapi_safe :: "nat \<Rightarrow> 'z port outcome \<Rightarrow> bool" where
  "vapi_safe k r \<longleftrightarrow> r \<noteq> Inl Diverges \<and> (\<forall>u s. r = Inr (u, s) \<longrightarrow> vapi_wf u \<and> vapi_pending u \<le> k)"

lemma vapi_safe_Inr: "vapi_wf u \<Longrightarrow> vapi_pending u \<le> k \<Longrightarrow> vapi_safe k (Inr (u, s))"
  by (simp add: vapi_safe_def)

lemma vapi_safe_bind:
  "vapi_safe j r \<Longrightarrow> (\<And>u s. vapi_wf u \<Longrightarrow> vapi_pending u \<le> j \<Longrightarrow> vapi_safe k (f (u, s))) \<Longrightarrow> vapi_safe k (bind_outcome r f)"
  by (cases r) (auto simp: vapi_safe_def, blast+)

lemma vapi_safe_if: "(c \<Longrightarrow> vapi_safe k a) \<Longrightarrow> (\<not> c \<Longrightarrow> vapi_safe k b) \<Longrightarrow> vapi_safe k (if c then a else b)"
  by simp

lemma bind_if: "bind_outcome (if c then a else b) f = (if c then bind_outcome a f else bind_outcome b f)"
  by simp

lemma vapi_safe_mono: "vapi_safe j r \<Longrightarrow> j \<le> k \<Longrightarrow> vapi_safe k r"
  by (cases r) (auto simp: vapi_safe_def)

lemma SCHED_ADD_ends: "SCHED_ADD j t s \<noteq> Inl Diverges"
  by (simp add: SCHED_ADD_def sched_add_def bind_outcome_def split: sum.splits list.splits)

lemma vapi_safe_sched:
  "vapi_wf u \<Longrightarrow> vapi_pending u \<le> k \<Longrightarrow> vapi_safe k (bind_outcome (SCHED_ADD j t s) (\<lambda>s. Inr (u, s)))"
  using SCHED_ADD_ends[of j t s] by (cases "SCHED_ADD j t s") (auto simp: vapi_safe_def)

lemma vapi_same:
  "vapi_buf_tail u' = vapi_buf_tail u \<Longrightarrow> vapi_buf_head u' = vapi_buf_head u \<Longrightarrow> vapi_wf u' = vapi_wf u \<and> vapi_pending u' = vapi_pending u"
  by (simp add: vapi_wf_def vapi_pending_def)

lemma vapi_data_safe: "vapi_wf u \<Longrightarrow> vapi_pending u \<le> k \<Longrightarrow> vapi_safe k (uart_vapi_data n d (u, s))"
  unfolding uart_vapi_data_def Let_def prod.case
  by (auto intro!: vapi_safe_Inr vapi_safe_sched simp: vapi_wf_def vapi_pending_def)

lemma break_start_safe:
  fixes s :: "'z machine_scheme"
  assumes "vapi_wf u" "vapi_pending u \<le> k" "\<And>v t. vapi_wf v \<Longrightarrow> vapi_pending v \<le> k \<Longrightarrow> vapi_safe k (cmd (v, t))"
  shows "vapi_safe k (break_start cmd n (u, s))"
proof -
  have "vapi_wf (u\<lparr>u_receiving := False, recv_break := True\<rparr>)" "vapi_pending (u\<lparr>u_receiving := False, recv_break := True\<rparr>) \<le> k"
    using assms(1,2) by (simp_all add: vapi_wf_def vapi_pending_def)
  then show ?thesis
    unfolding break_start_def Let_def fst_conv snd_conv prod.case
    by (intro vapi_safe_bind) (auto intro!: vapi_safe_sched assms(3) vapi_safe_Inr)
qed

lemma vapi_loop_safe:
  fixes s :: "'z machine_scheme"
  shows "vapi_wf u \<Longrightarrow> vapi_pending u < k \<Longrightarrow> vapi_safe (vapi_pending u) (vapi_loop k n (u, s))"
proof (induction k arbitrary: u s)
  case (Suc k)
  show ?case
  proof (cases "vapi_buf_head u = vapi_buf_tail u")
    case True
    then show ?thesis using Suc.prems by (simp add: vapi_safe_def)
  next
    case False
    define w where "w = u\<lparr>vapi_buf_tail := (vapi_buf_tail u + 1) mod 128\<rparr>"
    define d where "d = vapi_buf u ! vapi_buf_tail u"
    have w: "vapi_wf w" "vapi_pending u = Suc (vapi_pending w)"
      by (rule vapi_pending_take[OF Suc.prems(1) False]; simp add: w_def)+
    have step: "vapi_safe (vapi_pending w) (vapi_loop k n (v, t))" if "vapi_wf v" "vapi_pending v \<le> vapi_pending w"
      for v and t :: "'z machine_scheme"
      by (rule vapi_safe_mono[OF Suc.IH]) (use that Suc.prems(2) w(2) in simp_all)
    have same: "vapi_safe (vapi_pending w) (vapi_loop k n (v, s))"
      if "vapi_buf_tail v = vapi_buf_tail w" "vapi_buf_head v = vapi_buf_head w" for v
      using vapi_same[OF that] w(1) by (intro step) simp_all
    have stop: "vapi_safe (vapi_pending w) (Inr (uart_recv_break_stop n (w, s)))"
      using w(1) by (simp add: uart_recv_break_stop_def vapi_safe_def vapi_wf_def vapi_pending_def)
    have "vapi_safe (vapi_pending w) (bind_outcome (Inr (uart_recv_break_stop n (w, s))) (vapi_loop k n))"
      by (rule vapi_safe_bind[OF stop]) (rule step)
    then have stopped: "vapi_safe (vapi_pending w) (vapi_loop k n (uart_recv_break_stop n (w, s)))" by simp
    have sched: "vapi_safe (vapi_pending w) (bind_outcome (SCHED_ADD j i s) (\<lambda>s. Inr (w, s)))" for j i
      by (rule vapi_safe_sched[OF w(1)]) simp
    then have sched_loop: "vapi_safe (vapi_pending w) (bind_outcome (bind_outcome (SCHED_ADD j i s) (\<lambda>s. Inr (w, s))) (vapi_loop k n))" for j i
      by (rule vapi_safe_bind) (rule step)
    have brk: "vapi_safe (vapi_pending w) (break_start (vapi_loop k n) n (w, s))"
      by (rule break_start_safe[OF w(1) order_refl]) (rule step)
    then have brk_loop: "vapi_safe (vapi_pending w) (bind_outcome (break_start (vapi_loop k n) n (w, s)) (vapi_loop k n))"
      by (rule vapi_safe_bind) (rule step)
    have "vapi_safe (vapi_pending w) (vapi_loop (Suc k) n (u, s))"
      unfolding vapi_loop.simps(2) prod.case Let_def w_def[symmetric] d_def[symmetric] if_not_P[OF False] bind_if bind_outcome_simps
      by (intro vapi_safe_if vapi_data_safe[OF w(1) order_refl] same brk_loop stopped sched_loop) simp_all
    then show ?thesis by (rule vapi_safe_mono) (simp add: w(2))
  qed
qed simp

text \<open>The bound of \<open>uart_vapi_cmd\<close> is enough: it ends with fewer commands or the fault of a job.\<close>

lemma vapi_cmd_ends: "vapi_wf u \<Longrightarrow> uart_vapi_cmd n (u, s) \<noteq> Inl Diverges"
proof -
  assume u: "vapi_wf u"
  have "vapi_pending u < 128" by (simp add: vapi_pending_def)
  from vapi_loop_safe[OF u this, of n s] show ?thesis by (simp add: vapi_safe_def uart_vapi_cmd_def)
qed

end
