(* ===== verification/Pins.thy ===== *)
theory Pins
  imports Gpio Queueing
begin

text \<open>
  Correctness of the general purpose I/O port: what one clock does to the pins and when it interrupts.
\<close>

text \<open>A pin of the controller has an edge that interrupts.\<close>

definition pin_edge :: "gpio_regs \<Rightarrow> gpio_regs \<Rightarrow> nat \<Rightarrow> bool" where
  "pin_edge c x i \<longleftrightarrow> i < 32 \<and> bit (g_in x) i \<noteq> bit (g_in c) i \<and> bit (g_inte x) i \<and> bit (g_ptrig x) i = bit (g_in x) i"

lemma gpio_edges_bit: "bit (gpio_edges c x AND ucast (g_inte x)) i \<longleftrightarrow> pin_edge c x i"
  by (auto simp: gpio_edges_def pin_edge_def bit_simps Let_def)

lemma gpio_edges_any: "gpio_edges c x AND ucast (g_inte x) \<noteq> 0 \<longleftrightarrow> (\<exists>i. pin_edge c x i)"
  unfolding gpio_edges_bit[symmetric] using bit_eq_iff[of "gpio_edges c x AND ucast (g_inte x)" 0] by auto

lemma pin_edge_changes: "pin_edge c x i \<Longrightarrow> g_in x \<noteq> g_in c"
  by (auto simp: pin_edge_def)

lemma job_waits_added:
  assumes "room (Suc k) (sched s)" "SCHED_ADD j t s = Inr s'"
  shows "job_waits f s' = (job_waits f s \<or> f = j)"
proof -
  have "job_queue (sched s) \<noteq> []" "free_job_queue (sched s) \<noteq> []" using assms(1) by (auto simp: room_def)
  then obtain q where "SCHED_ADD j t s = Inr (s\<lparr>sched := q\<rparr>)"
    "due (job_queue q) = insert_due (effective_time t (job_queue (sched s))) (Job j, 0) (due (job_queue (sched s)))"
    using SCHED_ADD_returns by blast
  then show ?thesis using assms(2) by (auto simp: job_waits_def due_funcs set_insert_due)
qed

text \<open>The pins after a clock, without interrupts.\<close>

definition clocked :: "gpio \<Rightarrow> gpio_regs" where
  "clocked g =
     (let x = g_next g;
          x = x\<lparr>g_in := g_in x AND NOT (g_oe x)\<rparr>;
          x = x\<lparr>g_out := (g_out x AND NOT (g_aux x)) OR (g_auxiliary_inputs g AND g_aux x)\<rparr>
      in x\<lparr>g_out := g_out x AND g_oe x\<rparr>)"

lemma device_clock_clocked:
  "gpio_device_clock n (g, s) =
     (let c = g_curr g; x = clocked g;
          g = (if g_out x \<noteq> g_out c \<and> g_base_vapi_id g \<noteq> 0
               then g\<lparr>g_vapi_out := g_vapi_out g @ [(g_base_vapi_id g, g_out x)]\<rparr> else g);
          hit = gpio_edges c x AND ucast (g_inte x);
          ring = (g_in x \<noteq> g_in c \<and> g_ctrl x AND RGPIO_CTRL_INTE \<noteq> 0 \<and> hit \<noteq> 0);
          x = (if ring then x\<lparr>g_ctrl := g_ctrl x OR RGPIO_CTRL_INTS, g_ints := g_ints x OR ucast hit\<rparr> else x)
      in bind_outcome (if ring then SCHED_ADD (Gpio_do_int n) 1 s else Inr s)
           (\<lambda>s. Inr (g\<lparr>g_next := x, g_curr := x\<rparr>, s)))"
  by (simp only: gpio_device_clock_def clocked_def Let_def prod.case)

definition ringing :: "gpio \<Rightarrow> bool" where
  "ringing g \<longleftrightarrow> g_ctrl (g_next g) AND RGPIO_CTRL_INTE \<noteq> 0 \<and> (\<exists>i. pin_edge (g_curr g) (clocked g) i)"

lemma device_clock:
  assumes "room (Suc k) (sched s)"
  shows "\<exists>g' s'. gpio_device_clock n (g, s) = Inr (g', s') \<and> room k (sched s') \<and> g_next g' = g_curr g'
     \<and> g_in (g_curr g') = g_in (clocked g) \<and> g_out (g_curr g') = g_out (clocked g) \<and> g_oe (g_curr g') = g_oe (clocked g)
     \<and> (ringing g \<longrightarrow> job_waits (Gpio_do_int n) s' \<and> g_ctrl (g_curr g') AND RGPIO_CTRL_INTS \<noteq> 0
         \<and> (\<forall>i. pin_edge (g_curr g) (clocked g) i \<longrightarrow> bit (g_ints (g_curr g')) i))
     \<and> (\<not> ringing g \<longrightarrow> s' = s \<and> g_curr g' = clocked g)"
proof -
  let ?c = "g_curr g" and ?x = "clocked g"
  define hit where "hit = gpio_edges ?c ?x AND ucast (g_inte ?x)"
  define x where "x = (if ringing g then ?x\<lparr>g_ctrl := g_ctrl ?x OR RGPIO_CTRL_INTS, g_ints := g_ints ?x OR ucast hit\<rparr> else ?x)"
  define h where "h = (if g_out ?x \<noteq> g_out ?c \<and> g_base_vapi_id g \<noteq> 0
      then g\<lparr>g_vapi_out := g_vapi_out g @ [(g_base_vapi_id g, g_out ?x)]\<rparr> else g)"
  have ctrl: "g_ctrl ?x = g_ctrl (g_next g)" by (simp add: clocked_def Let_def)
  have r: "(g_in ?x \<noteq> g_in ?c \<and> g_ctrl ?x AND RGPIO_CTRL_INTE \<noteq> 0 \<and> hit \<noteq> 0) = ringing g"
    using pin_edge_changes[of ?c ?x] unfolding hit_def gpio_edges_any ringing_def
    by (auto simp: ctrl)
  have e: "gpio_device_clock n (g, s) = bind_outcome (if ringing g then SCHED_ADD (Gpio_do_int n) 1 s else Inr s)
      (\<lambda>s. Inr (h\<lparr>g_next := x, g_curr := x\<rparr>, s))"
    unfolding device_clock_clocked Let_def x_def h_def hit_def[symmetric] r ..
  obtain q where q: "SCHED_ADD (Gpio_do_int n) 1 s = Inr (s\<lparr>sched := q\<rparr>)" "job_waits (Gpio_do_int n) (s\<lparr>sched := q\<rparr>)" "room k q"
    using SCHED_ADD_room[OF assms] by blast
  have i: "(l OR RGPIO_CTRL_INTS) AND RGPIO_CTRL_INTS \<noteq> 0" for l :: u64 using and_or_same[of l 8] by simp
  have b: "bit (g_ints ?x OR ucast hit) i" if "pin_edge ?c ?x i" for i
    using that gpio_edges_bit[of ?c ?x i, folded hit_def] by (simp add: bit_simps pin_edge_def)
  show ?thesis
  proof (cases "ringing g")
    case True
    then show ?thesis using q i b unfolding e by (simp add: x_def)
  next
    case False
    then show ?thesis using room_less[OF assms, of k] unfolding e by (simp add: x_def)
  qed
qed

text \<open>
  C31: one clock of the port. A pin that is enabled for output carries the auxiliary input where
  that is selected and the output register elsewhere, and reads as 0; a pin that is not enabled is
  driven to 0 and keeps its input. The clock runs again, and it raises an interrupt exactly when interrupts are
  enabled and some enabled pin had the edge its trigger names: then the status of each such pin is set.
\<close>

theorem gpio_clock_pins:
  assumes "room 2 (sched s)" "g_ctrl (g_curr g) AND RGPIO_CTRL_ECLK = 0" "\<not> job_waits (Gpio_do_int n) s"
  shows "\<exists>g' s'. gpio_clock n (g, s) = Inr (g', s') \<and> job_waits (Gpio_clock n) s'
     \<and> (\<forall>i<64. bit (g_out (g_curr g')) i = (bit (g_oe (g_next g)) i
           \<and> (if bit (g_aux (g_next g)) i then bit (g_auxiliary_inputs g) i else bit (g_out (g_next g)) i)))
     \<and> (\<forall>i<64. bit (g_in (g_curr g')) i = (bit (g_in (g_next g)) i \<and> \<not> bit (g_oe (g_next g)) i))
     \<and> job_waits (Gpio_do_int n) s' = ringing g
     \<and> (ringing g \<longrightarrow> (\<forall>i. pin_edge (g_curr g) (clocked g) i \<longrightarrow> bit (g_ints (g_curr g')) i))"
proof -
  have two: "room (Suc 1) (sched s)" using assms(1) by (simp add: numeral_2_eq_2)
  from device_clock[OF two, of n g] obtain g' s1 where d: "gpio_device_clock n (g, s) = Inr (g', s1)" "room (Suc 0) (sched s1)"
    "g_in (g_curr g') = g_in (clocked g)" "g_out (g_curr g') = g_out (clocked g)"
    "ringing g \<longrightarrow> job_waits (Gpio_do_int n) s1 \<and> (\<forall>i. pin_edge (g_curr g) (clocked g) i \<longrightarrow> bit (g_ints (g_curr g')) i)"
    "\<not> ringing g \<longrightarrow> s1 = s"
    by auto
  obtain q where q: "SCHED_ADD (Gpio_clock n) 1 s1 = Inr (s1\<lparr>sched := q\<rparr>)" "job_waits (Gpio_clock n) (s1\<lparr>sched := q\<rparr>)"
    using SCHED_ADD_room[OF d(2)] by blast
  have "gpio_clock n (g, s) = Inr (g', s1\<lparr>sched := q\<rparr>)" using assms(2) d(1) q(1) by (simp add: gpio_clock_def)
  moreover have "job_waits (Gpio_do_int n) (s1\<lparr>sched := q\<rparr>) = ringing g"
    using job_waits_added[OF d(2) q(1)] d(5,6) assms(3) by auto
  moreover have "bit (g_out (clocked g)) i = (bit (g_oe (g_next g)) i
           \<and> (if bit (g_aux (g_next g)) i then bit (g_auxiliary_inputs g) i else bit (g_out (g_next g)) i))"
    "bit (g_in (clocked g)) i = (bit (g_in (g_next g)) i \<and> \<not> bit (g_oe (g_next g)) i)" if "i < 64" for i
    using that by (auto simp: clocked_def bit_simps Let_def)
  ultimately show ?thesis using d q(2) by (intro exI[of _ g'] exI[of _ "s1\<lparr>sched := q\<rparr>"]) simp
qed

text \<open>A port with interrupts on a rising edge of pin 3, which has just risen; pin 0 is an output.\<close>

definition rising_port :: gpio where
  "rising_port = gpio_sec_start\<lparr>g_next := zero_gpio_regs\<lparr>g_in := 8, g_out := 1, g_oe := 1, g_inte := 8, g_ptrig := 8, g_ctrl := 4\<rparr>\<rparr>"

definition gpio_machine :: machine where
  "gpio_machine = zero_machine\<lparr>sched := \<lparr>free_job_queue = replicate 2 \<lparr>time = 0, param = 0, func = Sched_guard\<rparr>,
               job_queue = [\<lparr>time = 1000, param = 0, func = Sched_guard\<rparr>]\<rparr>\<rparr>"

theorem gpio_clock_pins_witness:
  "\<exists>g' s'. gpio_clock 0 (rising_port, gpio_machine) = Inr (g', s') \<and> bit (g_out (g_curr g')) 0 \<and> job_waits (Gpio_do_int 0) s'
     \<and> bit (g_ints (g_curr g')) 3"
proof -
  have e: "pin_edge (g_curr rising_port) (clocked rising_port) 3"
    by (simp add: pin_edge_def rising_port_def clocked_def gpio_sec_start_def zero_gpio_regs_def bit_simps bit_numeral_rec)
  then have r: "ringing rising_port"
    unfolding ringing_def by (auto simp: rising_port_def)
  have "room 2 (sched gpio_machine)" "g_ctrl (g_curr rising_port) AND RGPIO_CTRL_ECLK = 0" "\<not> job_waits (Gpio_do_int 0) gpio_machine"
    by (simp_all add: room_def gpio_machine_def rising_port_def job_waits_def gpio_sec_start_def zero_gpio_regs_def)
  from gpio_clock_pins[OF this]
  obtain g' s' where g': "gpio_clock 0 (rising_port, gpio_machine) = Inr (g', s')" "job_waits (Gpio_do_int 0) s' = ringing rising_port"
    "\<forall>i<64. bit (g_out (g_curr g')) i = (bit (g_oe (g_next rising_port)) i
       \<and> (if bit (g_aux (g_next rising_port)) i then bit (g_auxiliary_inputs rising_port) i else bit (g_out (g_next rising_port)) i))"
    "ringing rising_port \<longrightarrow> (\<forall>i. pin_edge (g_curr rising_port) (clocked rising_port) i \<longrightarrow> bit (g_ints (g_curr g')) i)"
    by blast
  have "bit (g_out (g_curr g')) 0" using g'(3)[rule_format, of 0] by (simp add: rising_port_def gpio_sec_start_def zero_gpio_regs_def)
  then show ?thesis using g' e r by blast
qed

end
