(* ===== verification/Cpu.thy ===== *)
theory Cpu
  imports Devices Operands
begin

text \<open>
  The processor core around the instructions, \<^verbatim>\<open>cpu/or32/execute.c\<close> built for simple
  execution: registers, operands of the current instruction, the store buffer, and the branch
  prediction of \<^verbatim>\<open>bpb/branch-predict.c\<close>. Statistics are not modelled. The SoftFloat library
  is a parameter: a record of functions of the rounding mode and the operands that return a result
  and the flags to raise.
\<close>

section \<open>State\<close>

record bpb_way =
  bpb_addr :: u32
  bpb_taken :: int
  bpb_lru :: int

record btic_way =
  btic_addr :: u32
  btic_lru :: int

record softfloat =
  float32_add :: "nat \<Rightarrow> u32 \<Rightarrow> u32 \<Rightarrow> u32 \<times> u8"
  float32_sub :: "nat \<Rightarrow> u32 \<Rightarrow> u32 \<Rightarrow> u32 \<times> u8"
  float32_mul :: "nat \<Rightarrow> u32 \<Rightarrow> u32 \<Rightarrow> u32 \<times> u8"
  float32_div :: "nat \<Rightarrow> u32 \<Rightarrow> u32 \<Rightarrow> u32 \<times> u8"
  float32_rem :: "nat \<Rightarrow> u32 \<Rightarrow> u32 \<Rightarrow> u32 \<times> u8"
  float32_to_int32 :: "nat \<Rightarrow> u32 \<Rightarrow> u32 \<times> u8"
  int32_to_float32 :: "nat \<Rightarrow> u32 \<Rightarrow> u32 \<times> u8"
  float32_eq :: "u32 \<Rightarrow> u32 \<Rightarrow> bool \<times> u8"
  float32_lt :: "u32 \<Rightarrow> u32 \<Rightarrow> bool \<times> u8"
  float32_le :: "u32 \<Rightarrow> u32 \<Rightarrow> bool \<times> u8"
  float32_is_nan :: "u32 \<Rightarrow> bool"

record iqueue_entry =
  insn_index :: int
  insn :: u32
  insn_addr :: u32

text \<open>
  The instruction table, the automaton that decodes it and the descriptors of the operands
  (\<^verbatim>\<open>op_data\<close>, \<^verbatim>\<open>or1ksim_op_start\<close>), the two entries of
  \<^verbatim>\<open>cpu_state\<close>, the breakpoints of \<^verbatim>\<open>labels.c\<close>, the file variables of \<^verbatim>\<open>execute.c\<close>, the predictors with their switches, the floating point
  state, the counters of the simulator that \<^verbatim>\<open>l.nop\<close> reads, and the values that
  \<^verbatim>\<open>random\<close> is going to return.
\<close>

record cpu = board +
  opcodes :: "or32_opcode list"
  decoder :: automata_build
  op_table :: "insn_op_struct list"
  op_start :: "nat list"
  iqueue :: iqueue_entry
  icomplet :: iqueue_entry
  breakpoint :: int
  breakpoints :: "u32 list"
  break_just_hit :: bool
  superscalar :: bool
  dependstats :: bool
  do_stats :: bool
  multissue :: "insn_type \<Rightarrow> int"
  issued_per_cycle :: int
  supercycles :: int
  hazardwait :: int
  sbuf_head :: nat
  sbuf_tail :: nat
  sbuf_count :: nat
  sbuf_buf :: "nat \<Rightarrow> int"
  sbuf_prev_cycles :: int
  bpb_on :: bool
  btic_on :: bool
  bpb :: "nat \<Rightarrow> bpb_way"
  btic :: "nat \<Rightarrow> nat \<Rightarrow> btic_way"
  soft :: softfloat
  float_rounding_mode :: nat
  float_exception_flags :: u8
  reset_cycles :: int
  reset_instructions :: int
  hush :: bool
  clkcycle_ps :: int
  rnd :: "nat \<Rightarrow> u32"

section \<open>Registers and operands\<close>

abbreviation (input) MAX_GPRS :: u32 where "MAX_GPRS \<equiv> 32"
abbreviation (input) LINK_REGNO :: u32 where "LINK_REGNO \<equiv> 9"

definition evalsim_reg :: "u32 \<Rightarrow> 'z machine_scheme \<Rightarrow> u32 outcome" where
  "evalsim_reg regno s = (if regno < MAX_GPRS then Inr (reg s (unat regno)) else Inl Exit_called)"

definition setsim_reg :: "u32 \<Rightarrow> u32 \<Rightarrow> 'z machine_scheme \<Rightarrow> 'z machine_scheme outcome" where
  "setsim_reg regno v s =
     (let v = (if regno = 0 then 0 else v)
      in if regno < MAX_GPRS then Inr (s\<lparr>reg := (reg s)(unat regno := v)\<rparr>) else Inl Exit_called)"

text \<open>The descriptor of operand \<open>n\<close>; a displacement and its base register count as one operand.\<close>

fun skip_operands :: "nat \<Rightarrow> insn_op_struct list \<Rightarrow> insn_op_struct list outcome" where
  "skip_operands 0 opds = Inr opds"
| "skip_operands (Suc n) [] = Inl Undefined_behaviour"
| "skip_operands (Suc n) (opd # opds) =
     (if op_type opd AND OPTYPE_LAST \<noteq> 0 then Inl Exit_called
      else skip_operands (if op_type opd AND OPTYPE_OP \<noteq> 0 \<and> op_type opd AND OPTYPE_DIS = 0 then n else Suc n) opds)"

abbreviation descriptors :: "iqueue_entry \<Rightarrow> 'z cpu_scheme \<Rightarrow> insn_op_struct list" where
  "descriptors cur s \<equiv> drop (op_start s ! nat (insn_index cur)) (op_table s)"

definition eval_operand :: "nat \<Rightarrow> iqueue_entry \<Rightarrow> 'z cpu_scheme \<Rightarrow> (u32 \<times> 'z cpu_scheme) outcome" where
  "eval_operand op_no cur s =
     bind_outcome (skip_operands op_no (descriptors cur s)) (\<lambda>opds.
       case opds of
         [] \<Rightarrow> Inl Undefined_behaviour
       | opd # _ \<Rightarrow>
           if op_type opd AND OPTYPE_DIS \<noteq> 0 then
             bind_outcome (eval_operand_val (insn cur) opds) (\<lambda>disp.
               bind_outcome (eval_operand_val (insn cur) (tl (dropWhile (\<lambda>d. op_type d AND OPTYPE_OP = 0) opds))) (\<lambda>r.
                 bind_outcome (evalsim_reg r s) (\<lambda>v. Inr (disp + v, s\<lparr>insn_ea := disp + v\<rparr>))))
           else if op_type opd AND OPTYPE_REG \<noteq> 0 then
             bind_outcome (eval_operand_val (insn cur) opds) (\<lambda>r.
               bind_outcome (evalsim_reg r s) (\<lambda>v. Inr (v, s)))
           else bind_outcome (eval_operand_val (insn cur) opds) (\<lambda>v. Inr (v, s)))"

definition set_operand :: "nat \<Rightarrow> u32 \<Rightarrow> iqueue_entry \<Rightarrow> 'z cpu_scheme \<Rightarrow> 'z cpu_scheme outcome" where
  "set_operand op_no v cur s =
     bind_outcome (skip_operands op_no (descriptors cur s)) (\<lambda>opds.
       case opds of
         [] \<Rightarrow> Inl Undefined_behaviour
       | opd # _ \<Rightarrow>
           if op_type opd AND OPTYPE_REG = 0 then Inl Exit_called
           else bind_outcome (eval_operand_val (insn cur) opds) (\<lambda>r. setsim_reg r v s))"

text \<open>
  \<^verbatim>\<open>PARAM0\<close> to \<^verbatim>\<open>PARAM2\<close> and \<^verbatim>\<open>SET_PARAM0\<close>, in the style of a function that
  goes on with the value. \<open>reg_param\<close> is \<^verbatim>\<open>REG_PARAM0\<close>, the number of the register, which
  only the generated decoder defines.
\<close>

definition with_param ::
  "nat \<Rightarrow> iqueue_entry \<Rightarrow> (u32 \<Rightarrow> 'z cpu_scheme \<Rightarrow> 'z cpu_scheme outcome) \<Rightarrow> 'z cpu_scheme \<Rightarrow> 'z cpu_scheme outcome" where
  "with_param op_no cur f s = bind_outcome (eval_operand op_no cur s) (\<lambda>(v, s). f v s)"

definition reg_param :: "iqueue_entry \<Rightarrow> 'z cpu_scheme \<Rightarrow> u32 outcome" where
  "reg_param cur s = eval_operand_val (insn cur) (descriptors cur s)"

section \<open>Store buffer\<close>

abbreviation (input) MAX_SBUF_LEN :: nat where "MAX_SBUF_LEN \<equiv> 256"

abbreviation (input) sbuf_next :: "nat \<Rightarrow> nat" where "sbuf_next i \<equiv> (i + 1) mod MAX_SBUF_LEN"

text \<open>
  Everything here but the clock is an \<^verbatim>\<open>int\<close>. The difference of the 64 bit clock and the time of the
  last update, and that time itself, are cut to 32 bits; sums that overflow, which C leaves undefined,
  wrap as in the compiled program.
\<close>

definition int32 :: "int \<Rightarrow> int" where
  "int32 v = signed_take_bit 31 v"

text \<open>The stores that have completed meanwhile leave the buffer; the oldest one left has run for the rest.\<close>

primrec sbuf_drain :: "nat \<Rightarrow> int \<Rightarrow> 'z cpu_scheme \<Rightarrow> 'z cpu_scheme" where
  "sbuf_drain 0 delta s = s"
| "sbuf_drain (Suc n) delta s =
     (if delta \<ge> sbuf_buf s (sbuf_tail s)
      then sbuf_drain n (int32 (delta - sbuf_buf s (sbuf_tail s))) (s\<lparr>sbuf_tail := sbuf_next (sbuf_tail s), sbuf_count := n\<rparr>)
      else s\<lparr>sbuf_buf := (sbuf_buf s)(sbuf_tail s := int32 (sbuf_buf s (sbuf_tail s) - delta))\<rparr>)"

text \<open>Waiting for the oldest store.\<close>

definition sbuf_wait :: "'z cpu_scheme \<Rightarrow> 'z cpu_scheme" where
  "sbuf_wait s =
     s\<lparr>mem_cycles := mem_cycles s + sbuf_buf s (sbuf_tail s),
       sbuf_prev_cycles := int32 (sbuf_prev_cycles s + sbuf_buf s (sbuf_tail s)),
       sbuf_tail := sbuf_next (sbuf_tail s),
       sbuf_count := sbuf_count s - 1\<rparr>"

definition sbuf_store :: "int \<Rightarrow> 'z cpu_scheme \<Rightarrow> 'z cpu_scheme" where
  "sbuf_store cyc s =
     (let delta = int32 (cycles s - sbuf_prev_cycles s);
          s = sbuf_drain (sbuf_count s) delta (s\<lparr>sbuf_prev_cycles := int32 (cycles s)\<rparr>);
          s = (if sbuf_count s \<ge> sbuf_len (cfg s) then sbuf_wait s else s)
      in s\<lparr>sbuf_buf := (sbuf_buf s)(sbuf_head s := cyc), sbuf_head := sbuf_next (sbuf_head s),
           sbuf_count := sbuf_count s + 1\<rparr>)"

definition sbuf_load :: "'z cpu_scheme \<Rightarrow> 'z cpu_scheme" where
  "sbuf_load s =
     (let delta = int32 (cycles s - sbuf_prev_cycles s);
          s = sbuf_drain (sbuf_count s) delta (s\<lparr>sbuf_prev_cycles := int32 (cycles s)\<rparr>)
      in (sbuf_wait ^^ sbuf_count s) s)"

section \<open>Branch prediction\<close>

text \<open>The prediction buffer has one way and two states, the target cache two ways.\<close>

definition bpb_update :: "u32 \<Rightarrow> bool \<Rightarrow> 'z cpu_scheme \<Rightarrow> 'z cpu_scheme" where
  "bpb_update addr taken s =
     (if \<not> bpb_on s then s
      else
        (let e = unat addr mod 64; w = bpb s e;
             w = (if bpb_addr w = addr
                  then w\<lparr>bpb_lru := 1,
                         bpb_taken := (if taken \<and> bpb_taken w < 1 then bpb_taken w + 1
                                       else if \<not> taken \<and> bpb_taken w \<noteq> 0 then bpb_taken w - 1
                                       else bpb_taken w)\<rparr>
                  else \<lparr>bpb_addr = addr, bpb_taken = of_bool taken, bpb_lru = 1\<rparr>)
         in s\<lparr>bpb := (bpb s)(e := w)\<rparr>))"

definition btic_update :: "u32 \<Rightarrow> 'z cpu_scheme \<Rightarrow> 'z cpu_scheme" where
  "btic_update targetaddr s =
     (if \<not> btic_on s then s
      else
        (let e = unat targetaddr mod 128;
             ws = btic s e;
             way = fold (\<lambda>i w. if btic_addr (ws i) = targetaddr then Some i else w) [0..<2] None;
             age = (\<lambda>ws. fold (\<lambda>i ws. if btic_lru (ws i) \<noteq> 0 then ws(i := (ws i)\<lparr>btic_lru := btic_lru (ws i) - 1\<rparr>) else ws)
                           [0..<2] ws);
             ws = (case way of
                     Some w \<Rightarrow> (let ws = age ws in ws(w := (ws w)\<lparr>btic_lru := 1\<rparr>))
                   | None \<Rightarrow>
                       (let w = fold (\<lambda>i m. if btic_lru (ws i) < 1 then i else m) [0..<2] 0;
                            ws = age (ws(w := (ws w)\<lparr>btic_addr := targetaddr\<rparr>))
                        in ws(w := (ws w)\<lparr>btic_lru := 1\<rparr>)))
         in s\<lparr>btic := (btic s)(e := ws)\<rparr>))"

definition bpb_enabled :: "int \<Rightarrow> 'z cpu_scheme \<Rightarrow> 'z cpu_scheme" where
  "bpb_enabled v s = s\<lparr>bpb_on := (v \<noteq> 0)\<rparr>"

definition bpb_btic :: "int \<Rightarrow> 'z cpu_scheme \<Rightarrow> 'z cpu_scheme" where
  "bpb_btic v s = s\<lparr>btic_on := (v \<noteq> 0)\<rparr>"

end
