(* ===== verification/Sprs.thy ===== *)
theory Sprs
  imports Cpu
begin

text \<open>
  Accesses to special purpose registers, \<^verbatim>\<open>mtspr\<close> and \<^verbatim>\<open>mfspr\<close> of
  \<^verbatim>\<open>cpu/or1k/sprs.c\<close>, with the effects that a write has on the timer, the caches, the interrupt
  controller, the program counter and the general registers.
\<close>

text \<open>The writable bits of the TLB registers.\<close>

definition mask_tlb :: "nat \<Rightarrow> u32 \<Rightarrow> 'z machine_scheme \<Rightarrow> 'z machine_scheme" where
  "mask_tlb regno v s =
     (let s = (if SPR_DTLBMR_BASE 0 \<le> regno \<and> regno < SPR_DTLBTR_LAST 3 then
                 set_spr regno
                   ((v AND page_mask (dmmu_state s)) OR (v AND
                      (if regno mod 256 < 0x80
                       then SPR_DTLBMR_V OR SPR_DTLBMR_PL1 OR SPR_DTLBMR_CID OR SPR_DTLBMR_LRU
                       else SPR_DTLBTR_CC OR SPR_DTLBTR_CI OR SPR_DTLBTR_WBC OR SPR_DTLBTR_WOM OR SPR_DTLBTR_A
                              OR SPR_DTLBTR_D OR SPR_DTLBTR_URE OR SPR_DTLBTR_UWE OR SPR_DTLBTR_SRE OR SPR_DTLBTR_SWE))) s
               else s)
      in if SPR_ITLBMR_BASE 0 \<le> regno \<and> regno < SPR_ITLBTR_LAST 3 then
           set_spr regno
             ((v AND page_mask (immu_state s)) OR (v AND
                (if regno mod 256 < 0x80
                 then SPR_ITLBMR_V OR SPR_ITLBMR_PL1 OR SPR_ITLBMR_CID OR SPR_ITLBMR_LRU
                 else SPR_ITLBTR_CC OR SPR_ITLBTR_CI OR SPR_ITLBTR_WBC OR SPR_ITLBTR_WOM OR SPR_ITLBTR_A
                        OR SPR_ITLBTR_D OR SPR_ITLBTR_SXE OR SPR_ITLBTR_UXE))) s
         else s)"

text \<open>A new program counter also drops a pending jump.\<close>

definition set_npc :: "u32 \<Rightarrow> 'z machine_scheme \<Rightarrow> 'z machine_scheme" where
  "set_npc v s =
     (if v \<noteq> pc s
      then (let s = s\<lparr>pc := v, delay_insn := False, pcnext := v + 4\<rparr>
            in if stalled s then s\<lparr>npc_not_valid := True\<rparr> else s)
      else s)"

definition mtspr :: "u16 \<Rightarrow> u32 \<Rightarrow> 'z board_scheme \<Rightarrow> 'z board_scheme outcome" where
  "mtspr regno v s =
     (let r = unat regno; prev_val = sprs s r; s = set_spr r v s
      in if r = SPR_TTCR then spr_write_ttcr v s
         else if r = SPR_TTMR then spr_write_ttmr prev_val s
         else if r = SPR_DCBPR then
           (case peek_into_dtlb v False True s of (a, s) \<Rightarrow>
              bind_outcome (dc_simulate_read a v 4 s) (\<lambda>(_, s). Inr (set_spr SPR_DCBPR 0 s)))
         else if r = SPR_DCBFR then Inr (set_spr SPR_DCBFR (-1) (dc_inv v s))
         else if r = SPR_DCBIR then Inr (set_spr SPR_DCBIR 0 (dc_inv v s))
         else if r = SPR_DCBWR then Inr (set_spr SPR_DCBWR 0 s)
         else if r = SPR_DCBLR then Inr (set_spr SPR_DCBLR 0 s)
         else if r = SPR_ICBPR then
           bind_outcome (ic_simulate_fetch (peek_into_itlb v s) v s) (\<lambda>(_, s). Inr (set_spr SPR_ICBPR 0 s))
         else if r = SPR_ICBIR then bind_outcome (ic_inv v s) (\<lambda>s. Inr (set_spr SPR_ICBIR 0 s))
         else if r = SPR_ICBLR then Inr (set_spr SPR_ICBLR 0 s)
         else if r = SPR_SR then
           (let s = or_spr r SPR_SR_FO s
            in if v AND SPR_SR_IEE \<noteq> 0 \<and> prev_val AND SPR_SR_IEE = 0 then pic_ints_en s else Inr s)
         else if r = SPR_NPC then Inr (set_npc v s)
         else if r = SPR_PICSR then
           Inr (if \<not> pic_edge_trigger (cfg s) then set_spr SPR_PICSR prev_val s else s)
         else if r = SPR_PICMR then
           (let s = (if pic_use_nmi (cfg s) then or_spr SPR_PICMR 3 s else s)
            in if spr_has s SPR_SR SPR_SR_IEE then pic_ints_en s else Inr s)
         else if r = SPR_PMR then
           (if pm_enabled (cfg s) \<and> v AND SPR_PMR_SUME \<noteq> 0 then Inl Exit_called else Inr s)
         else
           (let s = mask_tlb r v s
            in Inr (if 0x400 \<le> r \<and> r < 0x420 then s\<lparr>reg := (reg s)(r - 0x400 := v)\<rparr> else s)))"

definition mfspr :: "u16 \<Rightarrow> 'z machine_scheme \<Rightarrow> u32" where
  "mfspr regno s =
     (let r = unat regno
      in if r = SPR_NPC then (if strict_npc (cfg s) \<and> npc_not_valid s then 0 else pc s)
         else if r = SPR_TTCR then spr_read_ttcr s
         else if r = SPR_FPCSR then (if \<not> hardfloat (cfg s) then 0 else sprs s SPR_FPCSR)
         else if 0x400 \<le> r \<and> r < 0x420 then reg s (r - 0x400)
         else sprs s r)"

end
