(* ===== verification/Insn.thy ===== *)
theory Insn
  imports Sprs "HOL-Library.Signed_Division"
begin

text \<open>
  The instructions, \<^verbatim>\<open>cpu/or32/insnset.c\<close>, one definition per function, from the entry of the
  instruction queue and the state to the state. Signed arithmetic of the source wraps, as the tests
  of its results expect; a shift by the width of a word or more is undefined. Statistics, profiling
  and output are not modelled.
\<close>

section \<open>Flags and range exceptions\<close>

definition set_flag :: "u32 \<Rightarrow> bool \<Rightarrow> 'z machine_scheme \<Rightarrow> 'z machine_scheme" where
  "set_flag m b s = (if b then or_spr SPR_SR m s else clear_spr SPR_SR m s)"

text \<open>\<^verbatim>\<open>__builtin_add_overflow_p\<close> and \<^verbatim>\<open>__builtin_sub_overflow_p\<close> at the width of the operands.\<close>

definition add_overflow :: "'a::len word \<Rightarrow> 'a word \<Rightarrow> bool" where
  "add_overflow a b \<longleftrightarrow> sint a + sint b \<noteq> sint (a + b)"

definition sub_overflow :: "'a::len word \<Rightarrow> 'a word \<Rightarrow> bool" where
  "sub_overflow a b \<longleftrightarrow> sint a - sint b \<noteq> sint (a - b)"

definition range_exception :: "'z machine_scheme \<Rightarrow> 'z machine_scheme" where
  "range_exception s = except_handle EXCEPT_RANGE (pc s) s"

text \<open>The end of \<^verbatim>\<open>l_add\<close>, \<^verbatim>\<open>l_addc\<close> and \<^verbatim>\<open>l_sub\<close>.\<close>

definition add_range :: "'z machine_scheme \<Rightarrow> 'z machine_scheme" where
  "add_range s =
     (if spr_has s SPR_SR SPR_SR_OVE then
        if spr_has s SPR_CPUCFGR SPR_CPUCFGR_AECSRP then
          if (spr_has s SPR_SR SPR_SR_CY \<and> spr_has s SPR_AECR SPR_AECR_CYADDE)
              \<or> (spr_has s SPR_SR SPR_SR_OV \<and> spr_has s SPR_AECR SPR_AECR_OVADDE) then
            (let s = set_spr SPR_AESR 0 s;
                 s = (if spr_has s SPR_SR SPR_SR_OV then or_spr SPR_AESR SPR_AESR_OVADDE s else s);
                 s = (if spr_has s SPR_SR SPR_SR_CY then or_spr SPR_AESR SPR_AESR_CYADDE s else s)
             in range_exception s)
          else s
        else if spr_has s SPR_SR SPR_SR_OV then range_exception s else s
      else s)"

text \<open>
  The end of the multiplications and divisions: the flag that is tested, the bits of
  \<^verbatim>\<open>AECR\<close> and \<^verbatim>\<open>AESR\<close>, and whether the exception is also taken without these registers.
  The bit of \<^verbatim>\<open>AESR\<close> follows the overflow flag in all of them.
\<close>

definition mul_range :: "u32 \<Rightarrow> u32 \<Rightarrow> u32 \<Rightarrow> bool \<Rightarrow> 'z machine_scheme \<Rightarrow> 'z machine_scheme" where
  "mul_range fl aecr aesr always s =
     (if spr_has s SPR_SR SPR_SR_OVE then
        if spr_has s SPR_CPUCFGR SPR_CPUCFGR_AECSRP then
          if spr_has s SPR_SR fl \<and> spr_has s SPR_AECR aecr then
            (let s = set_spr SPR_AESR 0 s;
                 s = (if spr_has s SPR_SR SPR_SR_OV then or_spr SPR_AESR aesr s else s)
             in range_exception s)
          else s
        else if always \<and> spr_has s SPR_SR SPR_SR_OV then range_exception s else s
      else s)"

section \<open>Arithmetic\<close>

definition l_add :: "iqueue_entry \<Rightarrow> 'z cpu_scheme \<Rightarrow> 'z cpu_scheme outcome" where
  "l_add cur = with_param 2 cur (\<lambda>temp2. with_param 1 cur (\<lambda>temp3 s.
     let temp1 = temp2 + temp3
     in bind_outcome (set_operand 0 temp1 cur s) (\<lambda>s.
          let s = set_flag SPR_SR_OV (add_overflow temp2 temp3) s;
              s = set_flag SPR_SR_CY (temp1 < temp2) s
          in Inr (add_range s))))"

definition l_addc :: "iqueue_entry \<Rightarrow> 'z cpu_scheme \<Rightarrow> 'z cpu_scheme outcome" where
  "l_addc cur s0 =
     (let carry_in = spr_has s0 SPR_SR SPR_SR_CY
      in with_param 2 cur (\<lambda>temp2. with_param 1 cur (\<lambda>temp3 s.
           let temp1 = temp2 + temp3;
               temp1 = (if carry_in then temp1 + 1 else temp1)
           in bind_outcome (set_operand 0 temp1 cur s) (\<lambda>s.
                let s = set_flag SPR_SR_OV ((sint temp2 < 0 \<and> sint temp3 < 0 \<and> sint temp1 \<ge> 0)
                          \<or> (sint temp2 \<ge> 0 \<and> sint temp3 \<ge> 0 \<and> sint temp1 < 0)) s;
                    s = set_flag SPR_SR_CY ((carry_in \<and> temp1 \<le> temp2) \<or> temp1 < temp2) s
                in Inr (add_range s)))) s0)"

definition l_sub :: "iqueue_entry \<Rightarrow> 'z cpu_scheme \<Rightarrow> 'z cpu_scheme outcome" where
  "l_sub cur = with_param 2 cur (\<lambda>temp3. with_param 1 cur (\<lambda>temp2 s.
     let temp1 = temp2 - temp3
     in bind_outcome (set_operand 0 temp1 cur s) (\<lambda>s.
          let s = set_flag SPR_SR_OV (sub_overflow temp2 temp3) s;
              s = set_flag SPR_SR_CY (temp3 > temp2) s
          in Inr (add_range s))))"

definition l_mul :: "iqueue_entry \<Rightarrow> 'z cpu_scheme \<Rightarrow> 'z cpu_scheme outcome" where
  "l_mul cur = with_param 2 cur (\<lambda>temp2. with_param 1 cur (\<lambda>temp1 s.
     let ltemp0 = (scast temp1 :: u64) * scast temp2
     in bind_outcome (set_operand 0 (ucast ltemp0) cur s) (\<lambda>s.
          let s = set_flag SPR_SR_OV (sint ltemp0 < - (2 ^ 31) \<or> sint ltemp0 > 2 ^ 31 - 1) s
          in Inr (mul_range SPR_SR_OV SPR_AECR_OVMULE SPR_AESR_OVMULE True s))))"

definition l_mulu :: "iqueue_entry \<Rightarrow> 'z cpu_scheme \<Rightarrow> 'z cpu_scheme outcome" where
  "l_mulu cur = with_param 2 cur (\<lambda>temp2. with_param 1 cur (\<lambda>temp1 s.
     let ultemp0 = (ucast temp1 :: u64) * ucast temp2
     in bind_outcome (set_operand 0 (ucast ultemp0) cur s) (\<lambda>s.
          let s = set_flag SPR_SR_CY (ultemp0 > 0xffffffff) s
          in Inr (mul_range SPR_SR_CY SPR_AECR_CYMULE SPR_AESR_CYMULE False s))))"

text \<open>The destination is not written when the division is refused.\<close>

definition l_div :: "iqueue_entry \<Rightarrow> 'z cpu_scheme \<Rightarrow> 'z cpu_scheme outcome" where
  "l_div cur = with_param 2 cur (\<lambda>temp3. with_param 1 cur (\<lambda>temp2 s.
     bind_outcome
       (if temp3 = 0 \<or> (temp2 = 0x80000000 \<and> temp3 = 0xffffffff) then Inr (or_spr SPR_SR SPR_SR_OV s)
        else bind_outcome (set_operand 0 (word_of_int (sint temp2 sdiv sint temp3)) cur s) (\<lambda>s.
               Inr (clear_spr SPR_SR SPR_SR_OV s)))
       (\<lambda>s. Inr (mul_range SPR_SR_OV SPR_AECR_DBZE SPR_AESR_DBZE True s))))"

definition l_divu :: "iqueue_entry \<Rightarrow> 'z cpu_scheme \<Rightarrow> 'z cpu_scheme outcome" where
  "l_divu cur = with_param 2 cur (\<lambda>temp3. with_param 1 cur (\<lambda>temp2 s.
     bind_outcome
       (if temp3 = 0 then Inr (or_spr SPR_SR SPR_SR_OV s)
        else bind_outcome (set_operand 0 (temp2 div temp3) cur s) (\<lambda>s. Inr (clear_spr SPR_SR SPR_SR_OV s)))
       (\<lambda>s. Inr (mul_range SPR_SR_OV SPR_AECR_DBZE SPR_AESR_DBZE True s))))"

text \<open>The accumulator: \<^verbatim>\<open>MACHI\<close> and \<^verbatim>\<open>MACLO\<close> as one 64 bit integer.\<close>

definition mac_acc :: "'z machine_scheme \<Rightarrow> u64" where
  "mac_acc s = ucast (sprs s SPR_MACLO) OR push_bit 32 (ucast (sprs s SPR_MACHI))"

definition set_acc :: "u64 \<Rightarrow> 'z machine_scheme \<Rightarrow> 'z machine_scheme" where
  "set_acc v s = set_spr SPR_MACHI (ucast (drop_bit 32 v)) (set_spr SPR_MACLO (ucast v) s)"

definition l_mac :: "iqueue_entry \<Rightarrow> 'z cpu_scheme \<Rightarrow> 'z cpu_scheme outcome" where
  "l_mac cur = with_param 0 cur (\<lambda>x. with_param 1 cur (\<lambda>y s.
     let acc = mac_acc s; prod = scast x * scast y;
         s = set_acc (acc + prod) s;
         s = set_flag SPR_SR_OV (add_overflow acc prod) s
     in Inr (mul_range SPR_SR_OV SPR_AECR_OVMACADDE SPR_AESR_OVMACADDE True s)))"

definition l_msb :: "iqueue_entry \<Rightarrow> 'z cpu_scheme \<Rightarrow> 'z cpu_scheme outcome" where
  "l_msb cur = with_param 0 cur (\<lambda>x. with_param 1 cur (\<lambda>y s.
     let acc = mac_acc s; prod = scast x * scast y;
         s = set_acc (acc - prod) s;
         s = set_flag SPR_SR_OV (sub_overflow acc prod) s
     in Inr (mul_range SPR_SR_OV SPR_AECR_OVMACADDE SPR_AESR_OVMACADDE True s)))"

definition l_macrc :: "iqueue_entry \<Rightarrow> 'z cpu_scheme \<Rightarrow> 'z cpu_scheme outcome" where
  "l_macrc cur s =
     bind_outcome (set_operand 0 (sprs s SPR_MACLO) cur s) (\<lambda>s.
       Inr (set_spr SPR_MACHI 0 (set_spr SPR_MACLO 0 s)))"

section \<open>Logic, shifts and extensions\<close>

text \<open>\<^verbatim>\<open>SET_PARAM0 (f (PARAM1, PARAM2))\<close> and \<^verbatim>\<open>SET_PARAM0 (f (PARAM1))\<close>.\<close>

definition binary :: "(u32 \<Rightarrow> u32 \<Rightarrow> u32) \<Rightarrow> iqueue_entry \<Rightarrow> 'z cpu_scheme \<Rightarrow> 'z cpu_scheme outcome" where
  "binary f cur = with_param 1 cur (\<lambda>a. with_param 2 cur (\<lambda>b. set_operand 0 (f a b) cur))"

definition unary :: "(u32 \<Rightarrow> u32) \<Rightarrow> iqueue_entry \<Rightarrow> 'z cpu_scheme \<Rightarrow> 'z cpu_scheme outcome" where
  "unary f cur = with_param 1 cur (\<lambda>a. set_operand 0 (f a) cur)"

definition l_movhi :: "iqueue_entry \<Rightarrow> 'z cpu_scheme \<Rightarrow> 'z cpu_scheme outcome" where
  "l_movhi = unary (push_bit 16)"

definition l_and :: "iqueue_entry \<Rightarrow> 'z cpu_scheme \<Rightarrow> 'z cpu_scheme outcome" where
  "l_and = binary (AND)"

definition l_or :: "iqueue_entry \<Rightarrow> 'z cpu_scheme \<Rightarrow> 'z cpu_scheme outcome" where
  "l_or = binary (OR)"

definition l_xor :: "iqueue_entry \<Rightarrow> 'z cpu_scheme \<Rightarrow> 'z cpu_scheme outcome" where
  "l_xor = binary (XOR)"

definition l_sll :: "iqueue_entry \<Rightarrow> 'z cpu_scheme \<Rightarrow> 'z cpu_scheme outcome" where
  "l_sll cur = with_param 1 cur (\<lambda>a. with_param 2 cur (\<lambda>b s.
     if b \<ge> 32 then Inl Undefined_behaviour else set_operand 0 (push_bit (unat b) a) cur s))"

definition l_sra :: "iqueue_entry \<Rightarrow> 'z cpu_scheme \<Rightarrow> 'z cpu_scheme outcome" where
  "l_sra cur = with_param 1 cur (\<lambda>a. with_param 2 cur (\<lambda>b s.
     if b \<ge> 32 then Inl Undefined_behaviour else set_operand 0 (signed_drop_bit (unat b) a) cur s))"

definition l_srl :: "iqueue_entry \<Rightarrow> 'z cpu_scheme \<Rightarrow> 'z cpu_scheme outcome" where
  "l_srl cur = with_param 1 cur (\<lambda>a. with_param 2 cur (\<lambda>b s.
     if b \<ge> 32 then Inl Undefined_behaviour else set_operand 0 (drop_bit (unat b) a) cur s))"

text \<open>A rotation by 0 shifts left by 32, which is undefined.\<close>

definition l_ror :: "iqueue_entry \<Rightarrow> 'z cpu_scheme \<Rightarrow> 'z cpu_scheme outcome" where
  "l_ror cur = with_param 1 cur (\<lambda>a. with_param 2 cur (\<lambda>b s.
     let n = unat (b AND 0x1f)
     in if n = 0 then Inl Undefined_behaviour
        else set_operand 0 (drop_bit n a OR push_bit (32 - n) a) cur s))"

definition l_extbs :: "iqueue_entry \<Rightarrow> 'z cpu_scheme \<Rightarrow> 'z cpu_scheme outcome" where
  "l_extbs = unary (\<lambda>a. scast (ucast a :: u8))"

definition l_extbz :: "iqueue_entry \<Rightarrow> 'z cpu_scheme \<Rightarrow> 'z cpu_scheme outcome" where
  "l_extbz = unary (\<lambda>a. ucast (ucast a :: u8))"

definition l_exths :: "iqueue_entry \<Rightarrow> 'z cpu_scheme \<Rightarrow> 'z cpu_scheme outcome" where
  "l_exths = unary (\<lambda>a. scast (ucast a :: u16))"

definition l_exthz :: "iqueue_entry \<Rightarrow> 'z cpu_scheme \<Rightarrow> 'z cpu_scheme outcome" where
  "l_exthz = unary (\<lambda>a. ucast (ucast a :: u16))"

definition l_extws :: "iqueue_entry \<Rightarrow> 'z cpu_scheme \<Rightarrow> 'z cpu_scheme outcome" where
  "l_extws = unary (\<lambda>a. a)"

definition l_extwz :: "iqueue_entry \<Rightarrow> 'z cpu_scheme \<Rightarrow> 'z cpu_scheme outcome" where
  "l_extwz = unary (\<lambda>a. a)"

definition l_cmov :: "iqueue_entry \<Rightarrow> 'z cpu_scheme \<Rightarrow> 'z cpu_scheme outcome" where
  "l_cmov cur s =
     (if spr_has s SPR_SR SPR_SR_F then with_param 1 cur (\<lambda>a. set_operand 0 a cur) s
      else with_param 2 cur (\<lambda>b. set_operand 0 b cur) s)"

text \<open>\<^verbatim>\<open>ffs\<close>: one plus the number of the lowest bit that is set, 0 when there is none.\<close>

definition ffs :: "u32 \<Rightarrow> u32" where
  "ffs a = (case List.find (bit a) [0..<32] of None \<Rightarrow> 0 | Some i \<Rightarrow> of_nat (Suc i))"

definition l_ff1 :: "iqueue_entry \<Rightarrow> 'z cpu_scheme \<Rightarrow> 'z cpu_scheme outcome" where
  "l_ff1 = unary ffs"

text \<open>The reversal of a word by exchanging its parts; the last shift to the right keeps the sign.\<close>

definition fl1_reverse :: "u32 \<Rightarrow> u32" where
  "fl1_reverse t =
     (let t = drop_bit 1 (t AND 0xaaaaaaaa) OR push_bit 1 (t AND 0x55555555);
          t = drop_bit 2 (t AND 0xcccccccc) OR push_bit 2 (t AND 0x33333333);
          t = drop_bit 4 (t AND 0xf0f0f0f0) OR push_bit 4 (t AND 0x0f0f0f0f);
          t = drop_bit 8 (t AND 0xff00ff00) OR push_bit 8 (t AND 0x00ff00ff)
      in signed_drop_bit 16 t OR push_bit 16 t)"

definition l_fl1 :: "iqueue_entry \<Rightarrow> 'z cpu_scheme \<Rightarrow> 'z cpu_scheme outcome" where
  "l_fl1 = unary (\<lambda>a. let t = ffs (fl1_reverse a) in if t = 0 then t else 33 - t)"

section \<open>Comparisons\<close>

text \<open>\<^verbatim>\<open>SR[F]\<close> after a comparison of \<^verbatim>\<open>PARAM0\<close> and \<^verbatim>\<open>PARAM1\<close>.\<close>

definition set_if :: "(u32 \<Rightarrow> u32 \<Rightarrow> bool) \<Rightarrow> iqueue_entry \<Rightarrow> 'z cpu_scheme \<Rightarrow> 'z cpu_scheme outcome" where
  "set_if p cur = with_param 0 cur (\<lambda>a. with_param 1 cur (\<lambda>b s. Inr (set_flag SPR_SR_F (p a b) s)))"

definition l_sfeq :: "iqueue_entry \<Rightarrow> 'z cpu_scheme \<Rightarrow> 'z cpu_scheme outcome" where
  "l_sfeq = set_if (=)"

definition l_sfne :: "iqueue_entry \<Rightarrow> 'z cpu_scheme \<Rightarrow> 'z cpu_scheme outcome" where
  "l_sfne = set_if (\<noteq>)"

definition l_sfgts :: "iqueue_entry \<Rightarrow> 'z cpu_scheme \<Rightarrow> 'z cpu_scheme outcome" where
  "l_sfgts = set_if (\<lambda>a b. sint a > sint b)"

definition l_sfges :: "iqueue_entry \<Rightarrow> 'z cpu_scheme \<Rightarrow> 'z cpu_scheme outcome" where
  "l_sfges = set_if (\<lambda>a b. sint a \<ge> sint b)"

definition l_sflts :: "iqueue_entry \<Rightarrow> 'z cpu_scheme \<Rightarrow> 'z cpu_scheme outcome" where
  "l_sflts = set_if (\<lambda>a b. sint a < sint b)"

definition l_sfles :: "iqueue_entry \<Rightarrow> 'z cpu_scheme \<Rightarrow> 'z cpu_scheme outcome" where
  "l_sfles = set_if (\<lambda>a b. sint a \<le> sint b)"

definition l_sfgtu :: "iqueue_entry \<Rightarrow> 'z cpu_scheme \<Rightarrow> 'z cpu_scheme outcome" where
  "l_sfgtu = set_if (>)"

definition l_sfgeu :: "iqueue_entry \<Rightarrow> 'z cpu_scheme \<Rightarrow> 'z cpu_scheme outcome" where
  "l_sfgeu = set_if (\<ge>)"

definition l_sfltu :: "iqueue_entry \<Rightarrow> 'z cpu_scheme \<Rightarrow> 'z cpu_scheme outcome" where
  "l_sfltu = set_if (<)"

definition l_sfleu :: "iqueue_entry \<Rightarrow> 'z cpu_scheme \<Rightarrow> 'z cpu_scheme outcome" where
  "l_sfleu = set_if (\<le>)"

end
