(* ===== verification/Insn2.thy ===== *)
theory Insn2
  imports Insn
begin

text \<open>
  The instructions that access memory, special purpose registers and the floating point unit, and
  the jumps, \<^verbatim>\<open>cpu/or32/insnset.c\<close>, with the dispatch of \<^verbatim>\<open>decode_execute\<close>.
\<close>

section \<open>Loads and stores\<close>

text \<open>With a store buffer the cycles of a store do not count as memory cycles; loads wait for it.\<close>

definition buffered_store :: "('z cpu_scheme \<Rightarrow> 'z cpu_scheme outcome) \<Rightarrow> 'z cpu_scheme \<Rightarrow> 'z cpu_scheme outcome" where
  "buffered_store f s =
     (let old_cyc = mem_cycles s
      in bind_outcome (f s) (\<lambda>s.
           Inr (if sbuf_len (cfg s) \<noteq> 0
                then (let t = mem_cycles s in sbuf_store (t - old_cyc) (s\<lparr>mem_cycles := old_cyc\<rparr>)) else s)))"

definition wait_stores :: "'z cpu_scheme \<Rightarrow> 'z cpu_scheme" where
  "wait_stores s = (if sbuf_len (cfg s) \<noteq> 0 then sbuf_load s else s)"

definition store_word :: "u32 \<Rightarrow> u32 \<Rightarrow> 'z cpu_scheme \<Rightarrow> 'z cpu_scheme outcome" where
  "store_word a v s = bind_outcome (set_mem32 a v (breakpoint s) s) (\<lambda>(bp, s). Inr (s\<lparr>breakpoint := bp\<rparr>))"

definition l_sw :: "iqueue_entry \<Rightarrow> 'z cpu_scheme \<Rightarrow> 'z cpu_scheme outcome" where
  "l_sw cur = buffered_store (with_param 0 cur (\<lambda>a. with_param 1 cur (\<lambda>v. store_word a v)))"

definition l_sb :: "iqueue_entry \<Rightarrow> 'z cpu_scheme \<Rightarrow> 'z cpu_scheme outcome" where
  "l_sb cur = buffered_store (with_param 0 cur (\<lambda>a. with_param 1 cur (\<lambda>v s.
     bind_outcome (set_mem8 a (ucast v) (breakpoint s) s) (\<lambda>(bp, s). Inr (s\<lparr>breakpoint := bp\<rparr>)))))"

definition l_sh :: "iqueue_entry \<Rightarrow> 'z cpu_scheme \<Rightarrow> 'z cpu_scheme outcome" where
  "l_sh cur = buffered_store (with_param 0 cur (\<lambda>a. with_param 1 cur (\<lambda>v s.
     bind_outcome (set_mem16 a (ucast v) (breakpoint s) s) (\<lambda>(bp, s). Inr (s\<lparr>breakpoint := bp\<rparr>)))))"

definition l_swa :: "iqueue_entry \<Rightarrow> 'z cpu_scheme \<Rightarrow> 'z cpu_scheme outcome" where
  "l_swa cur s0 = with_param 0 cur (\<lambda>a s.
     case dmmu_translate a False s of (phys, s) \<Rightarrow>
       bind_outcome
         (if loadlock_addr s = phys \<and> loadlock_active s then
            bind_outcome (with_param 0 cur (\<lambda>a. with_param 1 cur (\<lambda>v. store_word a v)) s) (\<lambda>s.
              Inr (True, if sbuf_len (cfg s) \<noteq> 0
                         then (let t = mem_cycles s; old_cyc = mem_cycles s0
                               in sbuf_store (t - old_cyc) (s\<lparr>mem_cycles := old_cyc\<rparr>)) else s))
          else Inr (False, s))
         (\<lambda>(swa_success, s). Inr ((set_flag SPR_SR_F swa_success s)\<lparr>loadlock_active := False\<rparr>))) s0"

text \<open>The destination of a load is written when neither an exception nor a breakpoint occurred.\<close>

definition load_result :: "u32 \<Rightarrow> iqueue_entry \<Rightarrow> 'z cpu_scheme \<Rightarrow> 'z cpu_scheme outcome" where
  "load_result v cur s = (if \<not> (except_pending s \<or> breakpoint s \<noteq> 0) then set_operand 0 v cur s else Inr s)"

definition load32 :: "iqueue_entry \<Rightarrow> (u32 \<Rightarrow> 'z cpu_scheme \<Rightarrow> 'z cpu_scheme outcome) \<Rightarrow> 'z cpu_scheme \<Rightarrow> 'z cpu_scheme outcome" where
  "load32 cur f s = with_param 1 cur (\<lambda>a s.
     bind_outcome (eval_mem32 a (breakpoint s) s) (\<lambda>(v, bp, s). f v (s\<lparr>breakpoint := bp\<rparr>))) (wait_stores s)"

definition load16 :: "iqueue_entry \<Rightarrow> (u16 \<Rightarrow> 'z cpu_scheme \<Rightarrow> 'z cpu_scheme outcome) \<Rightarrow> 'z cpu_scheme \<Rightarrow> 'z cpu_scheme outcome" where
  "load16 cur f s = with_param 1 cur (\<lambda>a s.
     bind_outcome (eval_mem16 a (breakpoint s) s) (\<lambda>(v, bp, s). f v (s\<lparr>breakpoint := bp\<rparr>))) (wait_stores s)"

definition load8 :: "iqueue_entry \<Rightarrow> (u8 \<Rightarrow> 'z cpu_scheme \<Rightarrow> 'z cpu_scheme outcome) \<Rightarrow> 'z cpu_scheme \<Rightarrow> 'z cpu_scheme outcome" where
  "load8 cur f s = with_param 1 cur (\<lambda>a s.
     bind_outcome (eval_mem8 a (breakpoint s) s) (\<lambda>(v, bp, s). f v (s\<lparr>breakpoint := bp\<rparr>))) (wait_stores s)"

text \<open>The load lock is taken even when the load raised an exception.\<close>

definition l_lwa :: "iqueue_entry \<Rightarrow> 'z cpu_scheme \<Rightarrow> 'z cpu_scheme outcome" where
  "l_lwa cur = load32 cur (\<lambda>v s.
     with_param 1 cur (\<lambda>a s.
       case dmmu_translate a False s of (phys, s) \<Rightarrow> load_result v cur (s\<lparr>loadlock_addr := phys\<rparr>))
       (s\<lparr>loadlock_active := True\<rparr>))"

definition l_lws :: "iqueue_entry \<Rightarrow> 'z cpu_scheme \<Rightarrow> 'z cpu_scheme outcome" where
  "l_lws cur = load32 cur (\<lambda>v. load_result v cur)"

definition l_lwz :: "iqueue_entry \<Rightarrow> 'z cpu_scheme \<Rightarrow> 'z cpu_scheme outcome" where
  "l_lwz cur = load32 cur (\<lambda>v. load_result v cur)"

definition l_lbs :: "iqueue_entry \<Rightarrow> 'z cpu_scheme \<Rightarrow> 'z cpu_scheme outcome" where
  "l_lbs cur = load8 cur (\<lambda>v. load_result (scast v) cur)"

definition l_lbz :: "iqueue_entry \<Rightarrow> 'z cpu_scheme \<Rightarrow> 'z cpu_scheme outcome" where
  "l_lbz cur = load8 cur (\<lambda>v. load_result (ucast v) cur)"

definition l_lhs :: "iqueue_entry \<Rightarrow> 'z cpu_scheme \<Rightarrow> 'z cpu_scheme outcome" where
  "l_lhs cur = load16 cur (\<lambda>v. load_result (scast v) cur)"

definition l_lhz :: "iqueue_entry \<Rightarrow> 'z cpu_scheme \<Rightarrow> 'z cpu_scheme outcome" where
  "l_lhz cur = load16 cur (\<lambda>v. load_result (ucast v) cur)"

section \<open>Jumps\<close>

text \<open>A jump takes effect at once without delay slots (\<^verbatim>\<open>CPUCFGR[ND]\<close>), else after the next instruction.\<close>

definition jump_to :: "u32 \<Rightarrow> 'z machine_scheme \<Rightarrow> 'z machine_scheme" where
  "jump_to a s =
     (if spr_has s SPR_CPUCFGR SPR_CPUCFGR_ND then s\<lparr>pcnext := a\<rparr>
      else s\<lparr>pc_delay := a, next_delay_insn := True\<rparr>)"

definition branch_if :: "bool \<Rightarrow> iqueue_entry \<Rightarrow> 'z cpu_scheme \<Rightarrow> 'z cpu_scheme outcome" where
  "branch_if taken cur s =
     (let s = (if bpb_on s then bpb_update (insn_addr cur) taken s else s)
      in if taken
         then with_param 0 cur (\<lambda>n s. let s = jump_to (pc s + n * 4) s in Inr (btic_update (pcnext s) s)) s
         else Inr (btic_update (pc s) s))"

definition l_bf :: "iqueue_entry \<Rightarrow> 'z cpu_scheme \<Rightarrow> 'z cpu_scheme outcome" where
  "l_bf cur s = branch_if (spr_has s SPR_SR SPR_SR_F) cur s"

definition l_bnf :: "iqueue_entry \<Rightarrow> 'z cpu_scheme \<Rightarrow> 'z cpu_scheme outcome" where
  "l_bnf cur s = branch_if (\<not> spr_has s SPR_SR SPR_SR_F) cur s"

definition l_j :: "iqueue_entry \<Rightarrow> 'z cpu_scheme \<Rightarrow> 'z cpu_scheme outcome" where
  "l_j cur = with_param 0 cur (\<lambda>n s. Inr (jump_to (pc s + n * 4) s))"

definition link :: "'z machine_scheme \<Rightarrow> 'z machine_scheme outcome" where
  "link s = setsim_reg LINK_REGNO (pc s + (if spr_has s SPR_CPUCFGR SPR_CPUCFGR_ND then 4 else 8)) s"

definition l_jal :: "iqueue_entry \<Rightarrow> 'z cpu_scheme \<Rightarrow> 'z cpu_scheme outcome" where
  "l_jal cur = with_param 0 cur (\<lambda>n s. link (jump_to (pc s + n * 4) s))"

definition l_jalr :: "iqueue_entry \<Rightarrow> 'z cpu_scheme \<Rightarrow> 'z cpu_scheme outcome" where
  "l_jalr cur = with_param 0 cur (\<lambda>temp1 s.
     bind_outcome (reg_param cur s) (\<lambda>r.
       if r = LINK_REGNO then Inr (except_handle EXCEPT_ILLEGAL (pc s) s)
       else if temp1 AND 3 \<noteq> 0 then Inr (except_handle EXCEPT_ALIGN (pc s) s)
       else link (jump_to temp1 s)))"

definition l_jr :: "iqueue_entry \<Rightarrow> 'z cpu_scheme \<Rightarrow> 'z cpu_scheme outcome" where
  "l_jr cur = with_param 0 cur (\<lambda>temp1 s.
     Inr (if temp1 AND 3 \<noteq> 0 then except_handle EXCEPT_ALIGN (pc s) s else jump_to temp1 s))"

definition l_rfe :: "iqueue_entry \<Rightarrow> 'z cpu_scheme \<Rightarrow> 'z cpu_scheme outcome" where
  "l_rfe cur s = mtspr (of_nat SPR_SR) (sprs s SPR_ESR_BASE) (s\<lparr>pcnext := sprs s SPR_EPCR_BASE\<rparr>)"

section \<open>System instructions\<close>

abbreviation (input) NOP_EXIT :: u32 where "NOP_EXIT \<equiv> 1"
abbreviation (input) NOP_CNT_RESET :: u32 where "NOP_CNT_RESET \<equiv> 5"
abbreviation (input) NOP_GET_TICKS :: u32 where "NOP_GET_TICKS \<equiv> 6"
abbreviation (input) NOP_GET_PS :: u32 where "NOP_GET_PS \<equiv> 7"
abbreviation (input) NOP_TRACE_ON :: u32 where "NOP_TRACE_ON \<equiv> 8"
abbreviation (input) NOP_TRACE_OFF :: u32 where "NOP_TRACE_OFF \<equiv> 9"
abbreviation (input) NOP_RANDOM :: u32 where "NOP_RANDOM \<equiv> 10"
abbreviation (input) NOP_OR1KSIM :: u32 where "NOP_OR1KSIM \<equiv> 11"
abbreviation (input) NOP_EXIT_SILENT :: u32 where "NOP_EXIT_SILENT \<equiv> 12"

definition l_nop :: "iqueue_entry \<Rightarrow> 'z cpu_scheme \<Rightarrow> 'z cpu_scheme outcome" where
  "l_nop cur = with_param 0 cur (\<lambda>k s.
     if k = NOP_EXIT \<or> k = NOP_EXIT_SILENT then
       (if is_library (cfg s) then Inr (set_stall_state True (s\<lparr>halted := True\<rparr>)) else Inl Exit_called)
     else if k = NOP_CNT_RESET then Inr (s\<lparr>reset_cycles := cycles s, reset_instructions := instructions s\<rparr>)
     else if k = NOP_GET_TICKS then
       Inr (s\<lparr>reg := (reg s)(11 := word_of_int (cycles s), 12 := word_of_int (cycles s div 2 ^ 32))\<rparr>)
     else if k = NOP_GET_PS then Inr (s\<lparr>reg := (reg s)(11 := word_of_int (clkcycle_ps s))\<rparr>)
     else if k = NOP_TRACE_ON then Inr (s\<lparr>hush := False\<rparr>)
     else if k = NOP_TRACE_OFF then Inr (s\<lparr>hush := True\<rparr>)
     else if k = NOP_RANDOM then Inr (s\<lparr>reg := (reg s)(11 := rnd s 0), rnd := (\<lambda>i. rnd s (Suc i))\<rparr>)
     else if k = NOP_OR1KSIM then Inr (s\<lparr>reg := (reg s)(11 := 1)\<rparr>)
     else Inr s)"

definition l_mtspr :: "iqueue_entry \<Rightarrow> 'z cpu_scheme \<Rightarrow> 'z cpu_scheme outcome" where
  "l_mtspr cur = with_param 0 cur (\<lambda>a. with_param 2 cur (\<lambda>k. with_param 1 cur (\<lambda>v s.
     let regno = ucast (a OR k) :: u16
     in if unat regno = SPR_FPCSR \<or> spr_has s SPR_SR SPR_SR_SM then mtspr regno v s else Inl Exit_called)))"

definition l_mfspr :: "iqueue_entry \<Rightarrow> 'z cpu_scheme \<Rightarrow> 'z cpu_scheme outcome" where
  "l_mfspr cur = with_param 1 cur (\<lambda>a. with_param 2 cur (\<lambda>k s.
     let regno = ucast (a OR k) :: u16
     in if unat regno = SPR_FPCSR \<or> spr_has s SPR_SR SPR_SR_SM \<or> spr_has s SPR_SR SPR_SR_SUMRA
        then set_operand 0 (mfspr regno s) cur s
        else bind_outcome (set_operand 0 0 cur s) (\<lambda>_. Inl Exit_called)))"

definition l_sys :: "iqueue_entry \<Rightarrow> 'z cpu_scheme \<Rightarrow> 'z cpu_scheme outcome" where
  "l_sys cur s = Inr (except_handle EXCEPT_SYSCALL (sprs s SPR_EEAR_BASE) s)"

definition l_trap :: "iqueue_entry \<Rightarrow> 'z cpu_scheme \<Rightarrow> 'z cpu_scheme outcome" where
  "l_trap cur s = Inr (except_handle EXCEPT_TRAP (sprs s SPR_EEAR_BASE) s)"

text \<open>The address reported is that of the entry in \<^verbatim>\<open>cpu_state.iqueue\<close>, which is the current one.\<close>

definition l_invalid :: "iqueue_entry \<Rightarrow> 'z cpu_scheme \<Rightarrow> 'z cpu_scheme outcome" where
  "l_invalid cur s = Inr (except_handle EXCEPT_ILLEGAL (insn_addr cur) s)"

section \<open>Floating point\<close>

abbreviation (input) FPCSR_ALLF :: u32 where "FPCSR_ALLF \<equiv> 0xff8"
abbreviation (input) FPCSR_FPEE :: u32 where "FPCSR_FPEE \<equiv> 1"

definition float_set_rm :: "'z cpu_scheme \<Rightarrow> 'z cpu_scheme" where
  "float_set_rm s =
     (let rm = sprs s SPR_FPCSR AND 6
      in s\<lparr>float_rounding_mode := (if rm = 0 then 0 else if rm = 2 then 3 else if rm = 4 then 2 else 1)\<rparr>)"

definition float_set_flags :: "'z cpu_scheme \<Rightarrow> 'z cpu_scheme" where
  "float_set_flags s =
     (let fl = float_exception_flags s;
          s = clear_spr SPR_FPCSR FPCSR_ALLF s;
          s = (if fl AND 1 \<noteq> 0 then or_spr SPR_FPCSR 0x200 s else s);
          s = (if fl AND 4 \<noteq> 0 then or_spr SPR_FPCSR 0x800 s else s);
          s = (if fl AND 8 \<noteq> 0 then or_spr SPR_FPCSR 0x8 s else s);
          s = (if fl AND 16 \<noteq> 0 then or_spr SPR_FPCSR 0x10 s else s);
          s = (if fl AND 32 \<noteq> 0 then or_spr SPR_FPCSR 0x100 s else s);
          s = (if spr_has s SPR_FPCSR FPCSR_FPEE \<and> spr_has s SPR_FPCSR FPCSR_ALLF
               then except_handle EXCEPT_FPE (sprs s SPR_EEAR_BASE) s else s)
      in s\<lparr>float_exception_flags := 0\<rparr>)"

text \<open>A floating point instruction: only with hardware floating point; flags accumulate until they are read.\<close>

definition raise_flags :: "u8 \<Rightarrow> 'z cpu_scheme \<Rightarrow> 'z cpu_scheme" where
  "raise_flags fl s = s\<lparr>float_exception_flags := float_exception_flags s OR fl\<rparr>"

definition float_insn ::
  "('z cpu_scheme \<Rightarrow> 'z cpu_scheme outcome) \<Rightarrow> iqueue_entry \<Rightarrow> 'z cpu_scheme \<Rightarrow> 'z cpu_scheme outcome" where
  "float_insn f cur s =
     (if hardfloat (cfg s) then bind_outcome (f (float_set_rm s)) (\<lambda>s. Inr (float_set_flags s)) else l_invalid cur s)"

definition float_binary ::
  "(softfloat \<Rightarrow> nat \<Rightarrow> u32 \<Rightarrow> u32 \<Rightarrow> u32 \<times> u8) \<Rightarrow> iqueue_entry \<Rightarrow> 'z cpu_scheme \<Rightarrow> 'z cpu_scheme outcome" where
  "float_binary f cur = float_insn (with_param 1 cur (\<lambda>a. with_param 2 cur (\<lambda>b s.
     case f (soft s) (float_rounding_mode s) a b of (v, fl) \<Rightarrow> set_operand 0 v cur (raise_flags fl s)))) cur"

definition float_unary ::
  "(softfloat \<Rightarrow> nat \<Rightarrow> u32 \<Rightarrow> u32 \<times> u8) \<Rightarrow> iqueue_entry \<Rightarrow> 'z cpu_scheme \<Rightarrow> 'z cpu_scheme outcome" where
  "float_unary f cur = float_insn (with_param 1 cur (\<lambda>a s.
     case f (soft s) (float_rounding_mode s) a of (v, fl) \<Rightarrow> set_operand 0 v cur (raise_flags fl s))) cur"

definition float_set_if ::
  "(softfloat \<Rightarrow> u32 \<Rightarrow> u32 \<Rightarrow> bool \<times> u8) \<Rightarrow> iqueue_entry \<Rightarrow> 'z cpu_scheme \<Rightarrow> 'z cpu_scheme outcome" where
  "float_set_if f cur = float_insn (with_param 0 cur (\<lambda>a. with_param 1 cur (\<lambda>b s.
     case f (soft s) a b of (r, fl) \<Rightarrow> Inr (set_flag SPR_SR_F r (raise_flags fl s))))) cur"

definition ordered :: "softfloat \<Rightarrow> (bool \<times> u8) \<Rightarrow> bool \<Rightarrow> u32 \<Rightarrow> u32 \<Rightarrow> bool \<times> u8" where
  "ordered sf r neg a b = ((fst r \<noteq> neg) \<and> \<not> float32_is_nan sf a \<and> \<not> float32_is_nan sf b, snd r)"

definition lf_add_s :: "iqueue_entry \<Rightarrow> 'z cpu_scheme \<Rightarrow> 'z cpu_scheme outcome" where
  "lf_add_s = float_binary float32_add"

definition lf_sub_s :: "iqueue_entry \<Rightarrow> 'z cpu_scheme \<Rightarrow> 'z cpu_scheme outcome" where
  "lf_sub_s = float_binary float32_sub"

definition lf_mul_s :: "iqueue_entry \<Rightarrow> 'z cpu_scheme \<Rightarrow> 'z cpu_scheme outcome" where
  "lf_mul_s = float_binary float32_mul"

definition lf_div_s :: "iqueue_entry \<Rightarrow> 'z cpu_scheme \<Rightarrow> 'z cpu_scheme outcome" where
  "lf_div_s = float_binary float32_div"

definition lf_rem_s :: "iqueue_entry \<Rightarrow> 'z cpu_scheme \<Rightarrow> 'z cpu_scheme outcome" where
  "lf_rem_s = float_binary float32_rem"

definition lf_ftoi_s :: "iqueue_entry \<Rightarrow> 'z cpu_scheme \<Rightarrow> 'z cpu_scheme outcome" where
  "lf_ftoi_s = float_unary float32_to_int32"

definition lf_itof_s :: "iqueue_entry \<Rightarrow> 'z cpu_scheme \<Rightarrow> 'z cpu_scheme outcome" where
  "lf_itof_s = float_unary int32_to_float32"

definition lf_madd_s :: "iqueue_entry \<Rightarrow> 'z cpu_scheme \<Rightarrow> 'z cpu_scheme outcome" where
  "lf_madd_s cur = float_insn (with_param 0 cur (\<lambda>d. with_param 1 cur (\<lambda>a. with_param 2 cur (\<lambda>b s.
     case float32_mul (soft s) (float_rounding_mode s) a b of (p, fl) \<Rightarrow>
       case float32_add (soft s) (float_rounding_mode s) d p of (v, fl') \<Rightarrow>
         set_operand 0 v cur (raise_flags fl' (raise_flags fl s)))))) cur"

definition lf_sfeq_s :: "iqueue_entry \<Rightarrow> 'z cpu_scheme \<Rightarrow> 'z cpu_scheme outcome" where
  "lf_sfeq_s = float_set_if float32_eq"

definition lf_sfne_s :: "iqueue_entry \<Rightarrow> 'z cpu_scheme \<Rightarrow> 'z cpu_scheme outcome" where
  "lf_sfne_s = float_set_if (\<lambda>sf a b. case float32_eq sf a b of (r, fl) \<Rightarrow> (\<not> r, fl))"

definition lf_sfge_s :: "iqueue_entry \<Rightarrow> 'z cpu_scheme \<Rightarrow> 'z cpu_scheme outcome" where
  "lf_sfge_s = float_set_if (\<lambda>sf a b. ordered sf (float32_lt sf a b) True a b)"

definition lf_sfgt_s :: "iqueue_entry \<Rightarrow> 'z cpu_scheme \<Rightarrow> 'z cpu_scheme outcome" where
  "lf_sfgt_s = float_set_if (\<lambda>sf a b. ordered sf (float32_le sf a b) True a b)"

definition lf_sfle_s :: "iqueue_entry \<Rightarrow> 'z cpu_scheme \<Rightarrow> 'z cpu_scheme outcome" where
  "lf_sfle_s = float_set_if (\<lambda>sf a b. ordered sf (float32_le sf a b) False a b)"

definition lf_sflt_s :: "iqueue_entry \<Rightarrow> 'z cpu_scheme \<Rightarrow> 'z cpu_scheme outcome" where
  "lf_sflt_s = float_set_if (\<lambda>sf a b. ordered sf (float32_lt sf a b) False a b)"

end
