(* ===== verification/Execute.thy ===== *)
theory Execute
  imports Insn2
begin

text \<open>
  The execution loop, \<^verbatim>\<open>cpu/or32/execute.c\<close>: dispatch of a decoded instruction to its
  function, fetch with the breakpoints of \<^verbatim>\<open>cpu/common/labels.c\<close>, the update of the program
  counters, the clock, reset, and one turn of \<^verbatim>\<open>exec_main\<close>. The debugger and the command line,
  which the loop calls when the processor is stalled or a breakpoint is hit, are parameters.
  Traces, logs and the history of execution are output only.
\<close>

section \<open>Dispatch\<close>

text \<open>
  The functions that the instruction table names. The custom instructions do nothing.
  \<^verbatim>\<open>l_none\<close> has no body in the sources; the decoder that \<^verbatim>\<open>generate.c\<close> writes has an
  empty case for it.
\<close>

definition l_none :: "iqueue_entry \<Rightarrow> 'z cpu_scheme \<Rightarrow> 'z cpu_scheme outcome" where
  "l_none cur s = Inr s"

definition l_cust1 :: "iqueue_entry \<Rightarrow> 'z cpu_scheme \<Rightarrow> 'z cpu_scheme outcome" where
  "l_cust1 cur s = Inr s"

definition l_cust2 :: "iqueue_entry \<Rightarrow> 'z cpu_scheme \<Rightarrow> 'z cpu_scheme outcome" where
  "l_cust2 cur s = Inr s"

definition l_cust3 :: "iqueue_entry \<Rightarrow> 'z cpu_scheme \<Rightarrow> 'z cpu_scheme outcome" where
  "l_cust3 cur s = Inr s"

definition l_cust4 :: "iqueue_entry \<Rightarrow> 'z cpu_scheme \<Rightarrow> 'z cpu_scheme outcome" where
  "l_cust4 cur s = Inr s"

definition lf_cust1 :: "iqueue_entry \<Rightarrow> 'z cpu_scheme \<Rightarrow> 'z cpu_scheme outcome" where
  "lf_cust1 cur s = Inr s"

definition exec_table :: "(string \<times> (iqueue_entry \<Rightarrow> 'z cpu_scheme \<Rightarrow> 'z cpu_scheme outcome)) list" where
  "exec_table = [
    (''l_j'', l_j), (''l_jal'', l_jal), (''l_jr'', l_jr), (''l_jalr'', l_jalr), (''l_bf'', l_bf),
    (''l_bnf'', l_bnf), (''l_rfe'', l_rfe), (''l_sys'', l_sys), (''l_trap'', l_trap),
    (''l_nop'', l_nop), (''l_movhi'', l_movhi), (''l_macrc'', l_macrc), (''l_mac'', l_mac),
    (''l_msb'', l_msb), (''l_mfspr'', l_mfspr), (''l_mtspr'', l_mtspr), (''l_lwa'', l_lwa),
    (''l_lws'', l_lws), (''l_lwz'', l_lwz), (''l_lbs'', l_lbs), (''l_lbz'', l_lbz),
    (''l_lhs'', l_lhs), (''l_lhz'', l_lhz), (''l_swa'', l_swa), (''l_sw'', l_sw), (''l_sb'', l_sb),
    (''l_sh'', l_sh), (''l_add'', l_add), (''l_addc'', l_addc), (''l_sub'', l_sub),
    (''l_and'', l_and), (''l_or'', l_or), (''l_xor'', l_xor), (''l_mul'', l_mul),
    (''l_mulu'', l_mulu), (''l_div'', l_div), (''l_divu'', l_divu), (''l_sll'', l_sll),
    (''l_srl'', l_srl), (''l_sra'', l_sra), (''l_ror'', l_ror), (''l_extbs'', l_extbs),
    (''l_extbz'', l_extbz), (''l_exths'', l_exths), (''l_exthz'', l_exthz), (''l_extws'', l_extws),
    (''l_extwz'', l_extwz), (''l_cmov'', l_cmov), (''l_ff1'', l_ff1), (''l_fl1'', l_fl1),
    (''l_sfeq'', l_sfeq), (''l_sfne'', l_sfne), (''l_sfgts'', l_sfgts), (''l_sfges'', l_sfges),
    (''l_sflts'', l_sflts), (''l_sfles'', l_sfles), (''l_sfgtu'', l_sfgtu), (''l_sfgeu'', l_sfgeu),
    (''l_sfltu'', l_sfltu), (''l_sfleu'', l_sfleu), (''lf_add_s'', lf_add_s),
    (''lf_sub_s'', lf_sub_s), (''lf_mul_s'', lf_mul_s), (''lf_div_s'', lf_div_s),
    (''lf_rem_s'', lf_rem_s), (''lf_ftoi_s'', lf_ftoi_s), (''lf_itof_s'', lf_itof_s),
    (''lf_madd_s'', lf_madd_s), (''lf_sfeq_s'', lf_sfeq_s), (''lf_sfne_s'', lf_sfne_s),
    (''lf_sfge_s'', lf_sfge_s), (''lf_sfgt_s'', lf_sfgt_s), (''lf_sfle_s'', lf_sfle_s),
    (''lf_sflt_s'', lf_sflt_s), (''l_cust1'', l_cust1), (''l_cust2'', l_cust2),
    (''l_cust3'', l_cust3), (''l_cust4'', l_cust4), (''lf_cust1'', lf_cust1), (''l_none'', l_none),
    (''l_invalid'', l_invalid)]"

text \<open>A name that is not in the table is an undefined function.\<close>

definition exec_function :: "string \<Rightarrow> iqueue_entry \<Rightarrow> 'z cpu_scheme \<Rightarrow> 'z cpu_scheme outcome" where
  "exec_function f cur s =
     (case map_of exec_table f of None \<Rightarrow> Inl Undefined_behaviour | Some g \<Rightarrow> g cur s)"

section \<open>Issue statistics\<close>

text \<open>
  \<^verbatim>\<open>check_depend\<close>: whether the next instruction uses the flag or the register that the
  previous one sets. An index outside of the table is undefined.
\<close>

definition opcode_at :: "int \<Rightarrow> 'z cpu_scheme \<Rightarrow> or32_opcode outcome" where
  "opcode_at i s = (if 0 \<le> i \<and> nat i < length (opcodes s) then Inr (opcodes s ! nat i) else Inl Undefined_behaviour)"

fun find_dst :: "insn_op_struct list \<Rightarrow> insn_op_struct list option outcome" where
  "find_dst [] = Inl Undefined_behaviour"
| "find_dst (opd # opds) =
     (if op_type opd AND OPTYPE_DST \<noteq> 0 then Inr (Some (opd # opds))
      else if op_type opd AND OPTYPE_LAST \<noteq> 0 then Inr None
      else find_dst opds)"

fun uses_reg :: "u32 \<Rightarrow> u32 \<Rightarrow> bool \<Rightarrow> insn_op_struct list \<Rightarrow> bool outcome" where
  "uses_reg ins r next_dis [] = Inl Undefined_behaviour"
| "uses_reg ins r next_dis (opd # opds) =
     (let next_dis = (next_dis \<or> op_type opd AND OPTYPE_DIS \<noteq> 0);
          rest = (\<lambda>_. if op_type opd AND OPTYPE_LAST \<noteq> 0 then Inr False else uses_reg ins r next_dis opds)
      in if (op_type opd AND OPTYPE_DST = 0 \<or> next_dis) \<and> op_type opd AND OPTYPE_REG \<noteq> 0
         then bind_outcome (eval_operand_val ins (opd # opds)) (\<lambda>v. if v = r then Inr True else rest ())
         else rest ())"

definition check_depend :: "iqueue_entry \<Rightarrow> iqueue_entry \<Rightarrow> 'z cpu_scheme \<Rightarrow> bool outcome" where
  "check_depend prev next s =
     bind_outcome (opcode_at (insn_index prev) s) (\<lambda>po.
     bind_outcome (opcode_at (insn_index next) s) (\<lambda>no.
       if flags po AND OR32_W_FLAG \<noteq> 0 \<and> flags no AND OR32_R_FLAG \<noteq> 0 then Inr True
       else bind_outcome (find_dst (descriptors prev s)) (\<lambda>d.
         case d of
           None \<Rightarrow> Inr False
         | Some opds \<Rightarrow> bind_outcome (eval_operand_val (insn prev) opds) (\<lambda>r.
             uses_reg (insn next) r False (descriptors next s)))))"

definition new_issue :: "insn_type \<Rightarrow> int" where
  "new_issue u = (if u \<in> {it_compare, it_branch, it_jump} then 1 else 2)"

text \<open>
  \<^verbatim>\<open>analysis\<close>: two instructions start in a cycle unless their unit is taken or they depend on
  each other. The tables of \<^verbatim>\<open>stats.c\<close> are not modelled.
\<close>

definition multi_issue :: "insn_type \<Rightarrow> iqueue_entry \<Rightarrow> 'z cpu_scheme \<Rightarrow> 'z cpu_scheme outcome" where
  "multi_issue u cur s =
     bind_outcome (check_depend (icomplet s) cur s) (\<lambda>dep.
       let s = (if multissue s u < 1 \<or> dep \<or> issued_per_cycle s < 1
                then s\<lparr>multissue := new_issue, issued_per_cycle := 2, supercycles := supercycles s + 1,
                       hazardwait := hazardwait s + of_bool dep\<rparr>
                else s)
       in Inr (s\<lparr>multissue := (multissue s)(u := multissue s u - 1), issued_per_cycle := issued_per_cycle s - 1\<rparr>))"

definition analysis :: "iqueue_entry \<Rightarrow> 'z cpu_scheme \<Rightarrow> 'z cpu_scheme outcome" where
  "analysis cur s =
     bind_outcome (if dependstats s then check_depend (icomplet s) cur s else Inr False) (\<lambda>_.
     bind_outcome
       (if superscalar s then
          bind_outcome (opcode_at (insn_index cur) s) (\<lambda>oc.
            let u = func_unit oc;
                s = s\<lparr>storecycles := storecycles s + of_bool (u = it_store),
                      loadcycles := loadcycles s + of_bool (u = it_load)\<rparr>
            in multi_issue u cur s)
        else Inr s)
       (\<lambda>s. Inr (if dependstats s then s\<lparr>icomplet := cur\<rparr> else s)))"

section \<open>Execution of one instruction\<close>

definition decode_execute :: "'z cpu_scheme \<Rightarrow> 'z cpu_scheme outcome" where
  "decode_execute s =
     (case or1ksim_insn_decode (decoder s) (insn (iqueue s)) of
        None \<Rightarrow> Inl Diverges
      | Some i \<Rightarrow>
          (let cur = (iqueue s)\<lparr>insn_index := i\<rparr>; s = s\<lparr>iqueue := cur\<rparr>
           in bind_outcome
                (if i < 0 then l_invalid cur s
                 else bind_outcome (opcode_at i s) (\<lambda>oc. exec_function (function_name oc) cur s))
                (\<lambda>s. if do_stats s then analysis (iqueue s) s else Inr s)))"

definition decode_execute_wrapper :: "'z cpu_scheme \<Rightarrow> 'z cpu_scheme outcome" where
  "decode_execute_wrapper s =
     bind_outcome (decode_execute (s\<lparr>breakpoint := 0\<rparr>)) (\<lambda>s.
       Inr (if breakpoint s \<noteq> 0 then except_handle EXCEPT_TRAP (sprs s SPR_EEAR_BASE) s else s))"

definition update_pc :: "'z machine_scheme \<Rightarrow> 'z machine_scheme" where
  "update_pc s =
     (let s = s\<lparr>delay_insn := next_delay_insn s\<rparr>;
          s = set_spr SPR_PPC (pc s) s;
          s = s\<lparr>pc := pcnext s\<rparr>
      in s\<lparr>pcnext := (if delay_insn s then pc_delay s else pcnext s + 4)\<rparr>)"

section \<open>Breakpoints\<close>

definition add_breakpoint :: "u32 \<Rightarrow> 'z cpu_scheme \<Rightarrow> 'z cpu_scheme" where
  "add_breakpoint addr s = s\<lparr>breakpoints := addr # breakpoints s\<rparr>"

definition remove_breakpoint :: "u32 \<Rightarrow> 'z cpu_scheme \<Rightarrow> 'z cpu_scheme" where
  "remove_breakpoint addr s = s\<lparr>breakpoints := filter (\<lambda>a. a \<noteq> addr) (breakpoints s)\<rparr>"

definition has_breakpoint :: "u32 \<Rightarrow> 'z cpu_scheme \<Rightarrow> bool" where
  "has_breakpoint addr s \<longleftrightarrow> addr \<in> set (breakpoints s)"

text \<open>\<^verbatim>\<open>fetch\<close> returns whether a breakpoint stops the instruction; it does so once.\<close>

definition fetch :: "'z cpu_scheme \<Rightarrow> (bool \<times> 'z cpu_scheme) outcome" where
  "fetch s =
     (if breakpoints s \<noteq> [] \<and> has_breakpoint (peek_into_itlb (pc s) s) s \<and> \<not> break_just_hit s
      then Inr (True, s\<lparr>break_just_hit := True\<rparr>)
      else
        (let s = (if breakpoints s \<noteq> [] then s\<lparr>break_just_hit := False\<rparr> else s);
             s = s\<lparr>breakpoint := 0, iqueue := (iqueue s)\<lparr>insn_addr := pc s\<rparr>\<rparr>
         in bind_outcome (eval_insn (pc s) (breakpoint s) s) (\<lambda>(w, bp, s).
              let s = s\<lparr>breakpoint := bp, iqueue := (iqueue s)\<lparr>insn := w\<rparr>\<rparr>
              in Inr (False, if except_pending s then s else s\<lparr>instructions := instructions s + 1\<rparr>))))"

section \<open>Clock and reset\<close>

definition cpu_clock :: "'z cpu_scheme \<Rightarrow> (bool \<times> 'z cpu_scheme) outcome" where
  "cpu_clock s =
     bind_outcome (fetch (s\<lparr>except_pending := False, next_delay_insn := False\<rparr>)) (\<lambda>(hit, s).
       if hit then Inr (True, s)
       else if except_pending s then Inr (False, (update_pc s)\<lparr>except_pending := False\<rparr>)
       else if breakpoint s \<noteq> 0 then
         Inr (False, (update_pc (except_handle EXCEPT_TRAP (sprs s SPR_EEAR_BASE) s))\<lparr>except_pending := False\<rparr>)
       else bind_outcome (decode_execute_wrapper s) (\<lambda>s. Inr (False, update_pc s)))"

definition prefix_high :: "'z machine_scheme \<Rightarrow> u32" where
  "prefix_high s = (if spr_has s SPR_SR SPR_SR_EPH then 0xf0000000 else 0)"

definition cpu_reset :: "'z cpu_scheme \<Rightarrow> 'z cpu_scheme outcome" where
  "cpu_reset s =
     (let s = s\<lparr>cycles := 0, loadcycles := 0, storecycles := 0, instructions := 0, supercycles := 0, hazardwait := 0\<rparr>
      in bind_outcome (fold (\<lambda>i r. bind_outcome r (setsim_reg (of_nat i) 0)) [0..<32] (Inr s)) (\<lambda>s.
           let none = \<lparr>insn_index = 0, insn = 0, insn_addr = 0\<rparr>;
               s = s\<lparr>iqueue := none, icomplet := none, sbuf_head := 0, sbuf_tail := 0, sbuf_count := 0,
                     sbuf_prev_cycles := 0\<rparr>;
               s = s\<lparr>pc := prefix_high s, pcnext := prefix_high s + 4\<rparr>;
               s = update_pc (except_handle EXCEPT_RESET 0 s);
               s = s\<lparr>except_pending := False\<rparr>
           in Inr (s\<lparr>pc := prefix_high s + EXCEPT_RESET\<rparr>)))"

section \<open>The main loop\<close>

text \<open>What the debugger does to a stalled processor, and the command line at its prompt.\<close>

record 's front_end =
  handle_rsp :: "'s \<Rightarrow> 's outcome"
  handle_sim_command :: "'s \<Rightarrow> 's outcome"

text \<open>The loop that waits for the debugger; without one the simulator leaves.\<close>

partial_function (option) wait_stalled ::
  "'z cpu_scheme front_end \<Rightarrow> bool \<Rightarrow> 'z cpu_scheme \<Rightarrow> 'z cpu_scheme outcome option" where
  "wait_stalled fe iprompt s =
     (if debug_enabled (cfg s) \<and> stalled s then
        if rsp_enabled (cfg s) then
          (case bind_outcome (handle_rsp fe s) (\<lambda>s. if iprompt then handle_sim_command fe s else Inr s) of
             Inl e \<Rightarrow> Some (Inl e)
           | Inr s \<Rightarrow> wait_stalled fe iprompt s)
        else Some (bind_outcome (handle_sim_command fe s) (\<lambda>_. Inl Exit_called))
      else Some (Inr s))"

text \<open>
  Whether a clock is due: the switch of power management, 0 or 1, is combined with the doze and
  sleep bits by a bitwise conjunction.
\<close>

definition clock_runs :: "'z machine_scheme \<Rightarrow> bool" where
  "clock_runs s \<longleftrightarrow> \<not> pm_enabled (cfg s)
     \<or> (of_bool (pm_enabled (cfg s)) :: u32) AND (sprs s SPR_PMR AND (SPR_PMR_DME OR SPR_PMR_SME)) = 0"

definition stall_single_step :: "'z machine_scheme \<Rightarrow> 'z machine_scheme" where
  "stall_single_step s =
     (if debug_enabled (cfg s) \<and> spr_has s SPR_DMR1 SPR_DMR1_ST then
        (let s = set_stall_state True s in if rsp_enabled (cfg s) then rsp_exception EXCEPT_TRAP s else s)
      else s)"

text \<open>The cycles of the turn pass for the first job of the queue; jobs that are due run.\<close>

definition pass_time :: "int \<Rightarrow> 'z board_scheme \<Rightarrow> 'z board_scheme outcome option" where
  "pass_time time_start s =
     (let s = s\<lparr>cycles := cycles s + mem_cycles s\<rparr>
      in case job_queue (sched s) of
           [] \<Rightarrow> Some (Inl Null_deref)
         | e # es \<Rightarrow>
             (let e = e\<lparr>time := time e - (cycles s - time_start)\<rparr>;
                  s = s\<lparr>sched := (sched s)\<lparr>job_queue := e # es\<rparr>\<rparr>
              in if time e \<le> 0 then do_scheduler run_device s else Some (Inr s)))"

text \<open>One turn of \<^verbatim>\<open>exec_main\<close>; no result when the debugger or a job never lets it go on.\<close>

definition exec_main_turn ::
  "'z cpu_scheme front_end \<Rightarrow> bool \<Rightarrow> 'z cpu_scheme \<Rightarrow> 'z cpu_scheme outcome option" where
  "exec_main_turn fe iprompt s =
     (let time_start = cycles s
      in case wait_stalled fe iprompt s of
           None \<Rightarrow> None
         | Some (Inl e) \<Rightarrow> Some (Inl e)
         | Some (Inr s) \<Rightarrow>
             (let s = s\<lparr>mem_cycles := 0\<rparr>
              in case (if clock_runs s
                       then bind_outcome (cpu_clock s) (\<lambda>(hit, s). if hit then handle_sim_command fe s else Inr s)
                       else Inr s) of
                   Inl e \<Rightarrow> Some (Inl e)
                 | Inr s \<Rightarrow> pass_time time_start (stall_single_step s)))"

end
