(* ===== verification/Issue.thy ===== *)
theory Issue
  imports Execute
begin

text \<open>
  From the instruction table to the operands of an instruction: the descriptors that
  \<^verbatim>\<open>or1ksim_build_automata\<close> stores for an entry are those of the entry alone, whatever
  came before it in the table, and for the usual operand lists they give the register fields of the
  instruction word.
\<close>

section \<open>Descriptors of an entry\<close>

text \<open>The descriptors at the index of the current instruction are those of the entry \<open>oc\<close>.\<close>

definition issued :: "or32_opcode \<Rightarrow> iqueue_entry \<Rightarrow> 'z cpu_scheme \<Rightarrow> bool" where
  "issued oc cur s =
     (case parse_params oc [] of
        Inl _ \<Rightarrow> False
      | Inr rops \<Rightarrow> take (length rops) (descriptors cur s) = rev rops)"

lemma issuedE:
  assumes "issued oc cur s" "parse_params oc [] = Inr (rev ds)"
  obtains rest where "descriptors cur s = ds @ rest"
proof
  from assms have "take (length ds) (descriptors cur s) = ds" by (simp add: issued_def)
  then show "descriptors cur s = ds @ drop (length ds) (descriptors cur s)"
    by (metis append_take_drop_id)
qed

lemma parse_args_append:
  "parse_args enc ty n rops cs = Inr r \<Longrightarrow> n \<le> length rops \<Longrightarrow>
     parse_args enc ty n (rops @ tail) cs = Inr (r @ tail)"
proof (induction enc ty n rops cs arbitrary: r rule: parse_args.induct)
  case (1 enc type num_cur_op rops)
  then show ?case by (cases rops) auto
next
  case (2 enc type num_cur_op rops c cs)
  consider "c = CHR ''r''" | "c \<noteq> CHR ''r''" "isalpha c" | "\<not> isalpha c" "c = CHR ''(''"
    | "\<not> isalpha c" "c = CHR '',''" | "\<not> isalpha c" "c = CHR ''0''" | "\<not> isalpha c" "c = CHR '')''"
    | "\<not> isalpha c" "c \<notin> {CHR ''r'', CHR ''('', CHR '','', CHR ''0'', CHR '')''}"
    by auto
  then show ?case
  proof cases
    case 1
    then show ?thesis using "2.IH"(1) "2.prems" by simp
  next
    case 2
    then show ?thesis using "2.IH"(2) "2.prems" by (simp add: Let_def)
  next
    case 3
    have split: "take num_cur_op (rops @ tail) = take num_cur_op rops"
      "drop num_cur_op (rops @ tail) = drop num_cur_op rops @ tail" using "2.prems"(2) by simp_all
    from 3 "2.prems"(1) have ne: "rops \<noteq> []" by (auto split: list.splits)
    define l where "l = map (or_type (type OR OPTYPE_DIS)) (take num_cur_op rops) @ drop num_cur_op rops"
    have "l \<noteq> []" using ne unfolding l_def by (cases num_cur_op) auto
    then obtain op' ds where l: "l = op' # ds" by (cases l) auto
    have step: "parse_args enc type num_cur_op (rops @ xs) (c # cs)
        = parse_args enc 0 0 (or_type OPTYPE_OP op' # ds @ xs) cs" if "xs = [] \<or> xs = tail" for xs
    proof -
      have "map (or_type (type OR OPTYPE_DIS)) (take num_cur_op (rops @ xs)) @ drop num_cur_op (rops @ xs) = op' # ds @ xs"
        using that split l unfolding l_def by auto
      moreover obtain y ys where "rops @ xs = y # ys" using ne by (cases "rops @ xs") auto
      ultimately show ?thesis using 3 by (simp del: take_append drop_append)
    qed
    have "parse_args enc 0 0 (or_type OPTYPE_OP op' # ds) cs = Inr r"
      using step[of "[]"] "2.prems"(1) by simp
    moreover obtain a b where ab: "rops = a # b" using ne by (cases rops) auto
    ultimately have "parse_args enc 0 0 ((or_type OPTYPE_OP op' # ds) @ tail) cs = Inr (r @ tail)"
      using "2.IH"(3)[OF _ _ _ ab l[unfolded l_def]] 3 by auto
    then show ?thesis using step[of tail] by simp
  next
    case 4
    then show ?thesis using "2.IH"(4) "2.prems" by (cases rops) auto
  next
    case 5
    then show ?thesis using "2.IH"(5) "2.prems" by simp
  next
    case 6
    then show ?thesis using "2.IH"(6) "2.prems" by simp
  next
    case 7
    then show ?thesis using "2.prems" by auto
  qed
qed

lemma parse_params_append:
  "parse_params oc [] = Inr r \<Longrightarrow> parse_params oc tail = Inr (r @ tail)"
  using parse_args_append[of "encoding oc" 0 0 "[]"] by (auto simp: parse_params_def split: if_splits)

lemma build_operands_shape:
  assumes "\<forall>oc\<in>set ocs. \<exists>r. parse_params oc [] = Inr r" and "build_operands ocs starts rops = Inr (S, T)"
  shows "\<exists>S' T'. S = rev starts @ S' \<and> T = rev rops @ T' \<and> length S' = length ocs
    \<and> (\<forall>i<length ocs. \<forall>r. parse_params (ocs ! i) [] = Inr r \<longrightarrow> take (length r) (drop (S' ! i) T) = rev r)"
  using assms
proof (induction ocs arbitrary: starts rops)
  case Nil
  then show ?case by simp
next
  case (Cons oc ocs)
  then obtain r where r: "parse_params oc [] = Inr r" by auto
  with Cons.prems(2) have step: "build_operands ocs (length rops # starts) (r @ rops) = Inr (S, T)"
    by (simp add: parse_params_append split: if_splits)
  obtain S' T' where *: "S = rev (length rops # starts) @ S'" "T = rev (r @ rops) @ T'" "length S' = length ocs"
    "\<forall>i<length ocs. \<forall>r. parse_params (ocs ! i) [] = Inr r \<longrightarrow> take (length r) (drop (S' ! i) T) = rev r"
    using Cons.IH[OF _ step] Cons.prems(1) by auto
  have head: "take (length r) (drop (length rops) T) = rev r" using *(2) by simp
  show ?case
  proof (intro exI conjI)
    show "S = rev starts @ (length rops # S')" "T = rev rops @ (rev r @ T')" using * by simp_all
    show "length (length rops # S') = length (oc # ocs)" using * by simp
    show "\<forall>i<length (oc # ocs). \<forall>r. parse_params ((oc # ocs) ! i) [] = Inr r
        \<longrightarrow> take (length r) (drop ((length rops # S') ! i) T) = rev r"
      using *(4) head r by (auto simp: nth_Cons split: nat.split)
  qed
qed

section \<open>Register fields\<close>

text \<open>The register numbers of an instruction word.\<close>

definition field_D :: "u32 \<Rightarrow> nat" where "field_D w = unat (take_bit 5 (drop_bit 21 w))"
definition field_A :: "u32 \<Rightarrow> nat" where "field_A w = unat (take_bit 5 (drop_bit 16 w))"
definition field_B :: "u32 \<Rightarrow> nat" where "field_B w = unat (take_bit 5 (drop_bit 11 w))"

text \<open>An entry with operands \<open>rD,rA,rB\<close> at the usual places.\<close>

definition reg3 :: "or32_opcode \<Rightarrow> bool" where
  "reg3 oc \<longleftrightarrow> args oc = ''rD,rA,rB'' \<and> insn_extract CHR ''D'' (encoding oc) = 0x3E00000
     \<and> insn_extract CHR ''A'' (encoding oc) = 0x1F0000 \<and> insn_extract CHR ''B'' (encoding oc) = 0xF800"

abbreviation reg3_ops :: "insn_op_struct list" where
  "reg3_ops \<equiv> [\<lparr>op_type = 0x64000015, op_data = 5\<rparr>, \<lparr>op_type = 0x60000010, op_data = 5\<rparr>,
     \<lparr>op_type = 0xE000000B, op_data = 5\<rparr>]"

lemma reg_letters:
  "isalpha CHR ''D''" "isalpha CHR ''A''" "isalpha CHR ''B''" "\<not> isalpha CHR '',''"
  "\<not> letter_signed CHR ''D''" "\<not> letter_signed CHR ''A''" "\<not> letter_signed CHR ''B''"
  by (simp_all add: isalpha_def letter_signed_def or32_letters_def)

lemma runs_D: "operand_runs type 0x3E00000 = [\<lparr>op_type = type OR 21, op_data = 5\<rparr>]"
  by (simp add: operand_runs.simps[of type] runs_eval mask_eq_exp_minus_1)

lemma reg3_params: "reg3 oc \<Longrightarrow> parse_params oc [] = Inr (rev reg3_ops)"
  by (simp add: reg3_def parse_params_def reg_letters runs_D l_sw_runs or_type_def)

lemma eval_reg_field:
  "eval_operand_val w (\<lparr>op_type = 0x64000015, op_data = 5\<rparr> # ds) = Inr (take_bit 5 (drop_bit 21 w))"
  "eval_operand_val w (\<lparr>op_type = 0x60000010, op_data = 5\<rparr> # ds) = Inr (take_bit 5 (drop_bit 16 w))"
  "eval_operand_val w (\<lparr>op_type = 0xE0000010, op_data = 5\<rparr> # ds) = Inr (take_bit 5 (drop_bit 16 w))"
  "eval_operand_val w (\<lparr>op_type = 0xE000000B, op_data = 5\<rparr> # ds) = Inr (take_bit 5 (drop_bit 11 w))"
  by (simp_all add: eval_operand_val_def take_bit_eq_mask[symmetric])

lemma take_bit_5_less: "take_bit 5 (w :: u32) < 32"
  using take_bit_nat_less_exp[of 5 "unat w"] by (simp add: word_less_nat_alt unsigned_take_bit_eq)

lemma evalsim_reg_field: "evalsim_reg (take_bit 5 w) s = Inr (reg s (unat (take_bit 5 w)))"
  by (simp add: evalsim_reg_def take_bit_5_less)

text \<open>Register 0 reads as 0 after every write to a destination.\<close>

definition write_reg :: "nat \<Rightarrow> u32 \<Rightarrow> 'z machine_scheme \<Rightarrow> 'z machine_scheme" where
  "write_reg d v s = s\<lparr>reg := (reg s)(d := if d = 0 then 0 else v)\<rparr>"

lemma setsim_reg_field: "setsim_reg (take_bit 5 w) v s = Inr (write_reg (unat (take_bit 5 w)) v s)"
  by (simp add: setsim_reg_def take_bit_5_less write_reg_def unat_eq_zero)

lemma skip_operands_2: "skip_operands 2 ds = skip_operands (Suc (Suc 0)) ds"
  by (simp add: numeral_2_eq_2)

text \<open>The operands of a three register instruction.\<close>

lemma reg3_operands:
  assumes "reg3 oc" "issued oc cur s"
  shows "eval_operand 1 cur s = Inr (reg s (field_A (insn cur)), s)"
    and "eval_operand 2 cur s = Inr (reg s (field_B (insn cur)), s)"
    and "set_operand 0 v cur s = Inr (write_reg (field_D (insn cur)) v s)"
proof -
  obtain rest where ds: "descriptors cur s = reg3_ops @ rest"
    using issuedE[OF assms(2) reg3_params[OF assms(1)]] .
  show "eval_operand 1 cur s = Inr (reg s (field_A (insn cur)), s)"
    "eval_operand 2 cur s = Inr (reg s (field_B (insn cur)), s)"
    by (simp_all add: eval_operand_def ds skip_operands_2 eval_reg_field evalsim_reg_field field_A_def field_B_def)
  show "set_operand 0 v cur s = Inr (write_reg (field_D (insn cur)) v s)"
    by (simp add: set_operand_def ds eval_reg_field setsim_reg_field field_D_def)
qed

text \<open>Entries with operands \<open>rD,rA\<close> and \<open>rA,rB\<close>.\<close>

definition reg2 :: "or32_opcode \<Rightarrow> bool" where
  "reg2 oc \<longleftrightarrow> args oc = ''rD,rA'' \<and> insn_extract CHR ''D'' (encoding oc) = 0x3E00000
     \<and> insn_extract CHR ''A'' (encoding oc) = 0x1F0000"

definition reg_AB :: "or32_opcode \<Rightarrow> bool" where
  "reg_AB oc \<longleftrightarrow> args oc = ''rA,rB'' \<and> insn_extract CHR ''A'' (encoding oc) = 0x1F0000
     \<and> insn_extract CHR ''B'' (encoding oc) = 0xF800"

lemma reg2_params:
  "reg2 oc \<Longrightarrow> parse_params oc [] = Inr (rev [\<lparr>op_type = 0x64000015, op_data = 5\<rparr>, \<lparr>op_type = 0xE0000010, op_data = 5\<rparr>])"
  by (simp add: reg2_def parse_params_def reg_letters runs_D l_sw_runs or_type_def)

lemma reg_AB_params:
  "reg_AB oc \<Longrightarrow> parse_params oc [] = Inr (rev [\<lparr>op_type = 0x60000010, op_data = 5\<rparr>, \<lparr>op_type = 0xE000000B, op_data = 5\<rparr>])"
  by (simp add: reg_AB_def parse_params_def reg_letters runs_D l_sw_runs or_type_def)

lemma reg2_operands:
  assumes "reg2 oc" "issued oc cur s"
  shows "eval_operand 1 cur s = Inr (reg s (field_A (insn cur)), s)"
    and "set_operand 0 v cur s = Inr (write_reg (field_D (insn cur)) v s)"
proof -
  obtain rest where ds: "descriptors cur s =
      [\<lparr>op_type = 0x64000015, op_data = 5\<rparr>, \<lparr>op_type = 0xE0000010, op_data = 5\<rparr>] @ rest"
    using issuedE[OF assms(2) reg2_params[OF assms(1)]] .
  show "eval_operand 1 cur s = Inr (reg s (field_A (insn cur)), s)"
    by (simp add: eval_operand_def ds eval_reg_field evalsim_reg_field field_A_def)
  show "set_operand 0 v cur s = Inr (write_reg (field_D (insn cur)) v s)"
    by (simp add: set_operand_def ds eval_reg_field setsim_reg_field field_D_def)
qed

lemma reg_AB_operands:
  assumes "reg_AB oc" "issued oc cur s"
  shows "eval_operand 0 cur s = Inr (reg s (field_A (insn cur)), s)"
    and "eval_operand 1 cur s = Inr (reg s (field_B (insn cur)), s)"
proof -
  obtain rest where ds: "descriptors cur s =
      [\<lparr>op_type = 0x60000010, op_data = 5\<rparr>, \<lparr>op_type = 0xE000000B, op_data = 5\<rparr>] @ rest"
    using issuedE[OF assms(2) reg_AB_params[OF assms(1)]] .
  show "eval_operand 0 cur s = Inr (reg s (field_A (insn cur)), s)"
    "eval_operand 1 cur s = Inr (reg s (field_B (insn cur)), s)"
    by (simp_all add: eval_operand_def ds eval_reg_field evalsim_reg_field field_A_def field_B_def)
qed

lemma write_reg_fields [simp]:
  "sprs (write_reg d v s) = sprs s" "pc (write_reg d v s) = pc s"
  "reg (write_reg d v s) = (reg s)(d := if d = 0 then 0 else v)"
  by (simp_all add: write_reg_def)

lemma with_param_Inr: "eval_operand n cur s = Inr (v, s') \<Longrightarrow> with_param n cur f s = f v s'"
  by (simp add: with_param_def)

lemma issued_cong:
  "op_start s' = op_start s \<Longrightarrow> op_table s' = op_table s \<Longrightarrow> issued oc cur s' = issued oc cur s"
  by (simp add: issued_def split: sum.split)

section \<open>A small processor\<close>

text \<open>
  The processor before configuration, with a floating point library of constants, and one whose
  table has two entries, for evaluation.
\<close>

definition no_float :: softfloat where
  "no_float = \<lparr>float32_add = (\<lambda>_ _ _. (0, 0)), float32_sub = (\<lambda>_ _ _. (0, 0)), float32_mul = (\<lambda>_ _ _. (0, 0)),
     float32_div = (\<lambda>_ _ _. (0, 0)), float32_rem = (\<lambda>_ _ _. (0, 0)), float32_to_int32 = (\<lambda>_ _. (0, 0)),
     int32_to_float32 = (\<lambda>_ _. (0, 0)), float32_eq = (\<lambda>_ _. (False, 0)), float32_lt = (\<lambda>_ _. (False, 0)),
     float32_le = (\<lambda>_ _. (False, 0)), float32_is_nan = (\<lambda>_. False)\<rparr>"

definition no_insn :: iqueue_entry where
  "no_insn = \<lparr>insn_index = 0, insn = 0, insn_addr = 0\<rparr>"

definition zero_cpu :: cpu where
  "zero_cpu = board.extend zero_board
     \<lparr>opcodes = [], decoder = \<lparr>automata = (\<lambda>_. 0), ti = [], curpass = 0, nuncovered = 0\<rparr>, op_table = [],
      op_start = [], iqueue = no_insn, icomplet = no_insn, breakpoint = 0, breakpoints = [],
      break_just_hit = False, superscalar = False, dependstats = False, do_stats = False,
      multissue = (\<lambda>_. 0), issued_per_cycle = 4, supercycles = 0, hazardwait = 0, sbuf_head = 0,
      sbuf_tail = 0, sbuf_count = 0, sbuf_buf = (\<lambda>_. 0), sbuf_prev_cycles = 0, bpb_on = False,
      btic_on = False, bpb = (\<lambda>_. \<lparr>bpb_addr = 0, bpb_taken = 0, bpb_lru = 0\<rparr>),
      btic = (\<lambda>_ _. \<lparr>btic_addr = 0, btic_lru = 0\<rparr>), soft = no_float, float_rounding_mode = 0,
      float_exception_flags = 0, reset_cycles = 0, reset_instructions = 0, hush = False,
      clkcycle_ps = 4000, rnd = (\<lambda>_. 0)\<rparr>"

abbreviation l_add_entry :: or32_opcode where
  "l_add_entry \<equiv>
     or32_entry ''l.add'' ''rD,rA,rB'' ''11 0x8  DDDDD AAAAA BBBB B-00 ---- 0x0'' ''l_add'' OR32_W_FLAG it_arith"

abbreviation l_mul_entry :: or32_opcode where
  "l_mul_entry \<equiv>
     or32_entry ''l.mul'' ''rD,rA,rB'' ''11 0x8  DDDDD AAAAA BBBB B-11 ---- 0x6'' ''l_mul'' 0 it_arith"

abbreviation l_div_entry :: or32_opcode where
  "l_div_entry \<equiv>
     or32_entry ''l.div'' ''rD,rA,rB'' ''11 0x8  DDDDD AAAAA BBBB B-11 ---- 0x9'' ''l_div'' 0 it_arith"

abbreviation l_fl1_entry :: or32_opcode where
  "l_fl1_entry \<equiv>
     or32_entry ''l.fl1'' ''rD,rA'' ''11 0x8  DDDDD AAAAA ---- --01 ---- 0xF'' ''l_fl1'' 0 it_arith"

abbreviation l_mac_entry :: or32_opcode where
  "l_mac_entry \<equiv>
     or32_entry ''l.mac'' ''rA,rB'' ''11 0x1  ----- AAAAA BBBB B--- ---- 0x1'' ''l_mac'' 0 it_mac"

lemma small_entries:
  "reg3 l_add_entry" "reg3 l_mul_entry" "reg3 l_div_entry" "reg2 l_fl1_entry" "reg_AB l_mac_entry"
  by (simp_all add: reg3_def reg2_def reg_AB_def insn_extract_def isalpha_def)

definition small_cpu :: cpu where
  "small_cpu = zero_cpu\<lparr>opcodes := [l_sw_entry, l_add_entry, l_mul_entry, l_div_entry, l_fl1_entry, l_mac_entry],
     op_start := [0, 4, 7, 10, 13, 15],
     op_table := [\<lparr>op_type = 0x18000F00, op_data = 11\<rparr>, \<lparr>op_type = 0x58000F15, op_data = 5\<rparr>,
               \<lparr>op_type = 0x60000010, op_data = 5\<rparr>, \<lparr>op_type = 0xE000000B, op_data = 5\<rparr>]
       @ reg3_ops @ reg3_ops @ reg3_ops
       @ [\<lparr>op_type = 0x64000015, op_data = 5\<rparr>, \<lparr>op_type = 0xE0000010, op_data = 5\<rparr>]
       @ [\<lparr>op_type = 0x60000010, op_data = 5\<rparr>, \<lparr>op_type = 0xE000000B, op_data = 5\<rparr>]\<rparr>"

text \<open>The words of \<^verbatim>\<open>l.add r3,r1,r2\<close> and so on.\<close>

definition add_insn :: iqueue_entry where "add_insn = \<lparr>insn_index = 1, insn = 0xE0611000, insn_addr = 0x2000\<rparr>"
definition mul_insn :: iqueue_entry where "mul_insn = \<lparr>insn_index = 2, insn = 0xE0611306, insn_addr = 0x2000\<rparr>"
definition div_insn :: iqueue_entry where "div_insn = \<lparr>insn_index = 3, insn = 0xE0611309, insn_addr = 0x2000\<rparr>"
definition fl1_insn :: iqueue_entry where "fl1_insn = \<lparr>insn_index = 4, insn = 0xE061010F, insn_addr = 0x2000\<rparr>"
definition mac_insn :: iqueue_entry where "mac_insn = \<lparr>insn_index = 5, insn = 0xC4011001, insn_addr = 0x2000\<rparr>"

lemmas small_params = l_sw_params small_entries(1-3)[THEN reg3_params] small_entries(4)[THEN reg2_params]
  small_entries(5)[THEN reg_AB_params]

text \<open>The registers do not matter for which instruction is issued.\<close>

lemma small_issued:
  "issued l_add_entry add_insn (small_cpu\<lparr>reg := r\<rparr>)" "issued l_mul_entry mul_insn (small_cpu\<lparr>reg := r\<rparr>)"
  "issued l_div_entry div_insn (small_cpu\<lparr>reg := r\<rparr>)" "issued l_fl1_entry fl1_insn (small_cpu\<lparr>reg := r\<rparr>)"
  "issued l_mac_entry mac_insn (small_cpu\<lparr>reg := r\<rparr>)"
  by (simp_all add: issued_def small_params small_cpu_def add_insn_def mul_insn_def div_insn_def fl1_insn_def mac_insn_def)

lemma small_fields:
  "field_D 0xE0611000 = 3" "field_A 0xE0611000 = 1" "field_B 0xE0611000 = 2"
  "field_D 0xE0611306 = 3" "field_A 0xE0611306 = 1" "field_B 0xE0611306 = 2"
  "field_D 0xE0611309 = 3" "field_A 0xE0611309 = 1" "field_B 0xE0611309 = 2"
  "field_D 0xE061010F = 3" "field_A 0xE061010F = 1" "field_A 0xC4011001 = 1" "field_B 0xC4011001 = 2"
  by (simp_all add: field_D_def field_A_def field_B_def)

section \<open>Properties\<close>

text \<open>
  C27: the descriptors that building the decoder stores for the entries of a table belong to the
  entries. When every entry parses by itself and the table is not too large, every instruction of the
  table finds, from its index in \<^verbatim>\<open>or1ksim_op_start\<close>, exactly the descriptors of its own
  operands, whatever stands before it in the table.
\<close>

theorem build_operands_issued:
  assumes "\<forall>oc\<in>set (opcodes s). \<exists>r. parse_params oc [] = Inr r"
    and "build_operands (opcodes s) [] [] = Inr (op_start s, op_table s)"
    and "insn_index cur = int i" and "i < length (opcodes s)"
  shows "issued (opcodes s ! i) cur s"
proof -
  obtain r where "parse_params (opcodes s ! i) [] = Inr r" using assms(1,4) by (meson nth_mem)
  then show ?thesis using build_operands_shape[OF assms(1,2)] assms(3,4) by (auto simp: issued_def)
qed

theorem build_operands_issued_witness: "issued l_mul_entry mul_insn small_cpu"
proof -
  have "\<forall>oc\<in>set (opcodes small_cpu). \<exists>r. parse_params oc [] = Inr r"
    using small_params by (auto simp: small_cpu_def)
  moreover have "build_operands (opcodes small_cpu) [] [] = Inr (op_start small_cpu, op_table small_cpu)"
    by (simp add: small_cpu_def small_params[THEN parse_params_append])
  ultimately show ?thesis
    using build_operands_issued[of small_cpu mul_insn 2] by (simp add: small_cpu_def mul_insn_def)
qed

end
