(* ===== verification/Arith.thy ===== *)
theory Arith
  imports Issue Automata_Size
begin

text \<open>
  What the arithmetic instructions compute: sums and differences with exact carry and overflow, the
  range exception, the 64 bit accumulator, division, and the search for the highest bit.
\<close>

section \<open>Flags\<close>

definition put_flag :: "u32 \<Rightarrow> bool \<Rightarrow> u32 \<Rightarrow> u32" where
  "put_flag m b w = (if b then w OR m else w AND NOT m)"

lemma put_flag_same [simp]: "put_flag m b w AND m = (if b then m else 0)"
  by (simp add: put_flag_def flag_simps)

lemma put_flag_other: "m AND k = 0 \<Longrightarrow> put_flag m b w AND k = w AND k"
  by (simp add: put_flag_def flag_simps)

lemma put_flag_others [simp]:
  "put_flag SPR_SR_OV b w AND SPR_SR_CY = w AND SPR_SR_CY" "put_flag SPR_SR_CY b w AND SPR_SR_OV = w AND SPR_SR_OV"
  "put_flag SPR_SR_OV b w AND SPR_SR_OVE = w AND SPR_SR_OVE" "put_flag SPR_SR_CY b w AND SPR_SR_OVE = w AND SPR_SR_OVE"
  by (simp_all add: put_flag_other)

lemma set_flag_eq: "set_flag m b s = set_spr SPR_SR (put_flag m b (sprs s SPR_SR)) s"
  by (simp add: set_flag_def put_flag_def)

section \<open>Specification\<close>

text \<open>
  Whether a sum or difference with the given flags takes a range exception: with the exception
  control register, for each flag that is enabled there; without it, on overflow.
\<close>

definition range_due :: "bool \<Rightarrow> bool \<Rightarrow> 'z machine_scheme \<Rightarrow> bool" where
  "range_due ov cy s \<longleftrightarrow> spr_has s SPR_SR SPR_SR_OVE
     \<and> (if spr_has s SPR_CPUCFGR SPR_CPUCFGR_AECSRP
        then cy \<and> spr_has s SPR_AECR SPR_AECR_CYADDE \<or> ov \<and> spr_has s SPR_AECR SPR_AECR_OVADDE
        else ov)"

text \<open>The state after a sum or difference \<open>v\<close> for register \<open>d\<close>.\<close>

definition add_spec :: "nat \<Rightarrow> u32 \<Rightarrow> bool \<Rightarrow> bool \<Rightarrow> 'z machine_scheme \<Rightarrow> 'z machine_scheme" where
  "add_spec d v ov cy s =
     (let s1 = set_spr SPR_SR (put_flag SPR_SR_CY cy (put_flag SPR_SR_OV ov (sprs s SPR_SR))) (write_reg d v s);
          s2 = (if spr_has s SPR_CPUCFGR SPR_CPUCFGR_AECSRP
                then set_spr SPR_AESR ((if ov then SPR_AESR_OVADDE else 0) OR (if cy then SPR_AESR_CYADDE else 0)) s1
                else s1)
      in if range_due ov cy s then except_handle EXCEPT_RANGE (pc s) s2 else s1)"

lemma add_range_spec:
  "add_range (set_flag SPR_SR_CY cy (set_flag SPR_SR_OV ov (write_reg d v s))) = add_spec d v ov cy s"
proof -
  define sr where "sr = put_flag SPR_SR_CY cy (put_flag SPR_SR_OV ov (sprs s SPR_SR))"
  define t where "t = set_spr SPR_SR sr (write_reg d v s)"
  have t: "set_flag SPR_SR_CY cy (set_flag SPR_SR_OV ov (write_reg d v s)) = t"
    by (simp add: set_flag_eq t_def sr_def)
  have sr: "sr AND SPR_SR_OVE = sprs s SPR_SR AND SPR_SR_OVE" "sr AND SPR_SR_OV = (if ov then SPR_SR_OV else 0)"
    "sr AND SPR_SR_CY = (if cy then SPR_SR_CY else 0)" by (simp_all add: sr_def)
  have f: "sprs t = (sprs s)(SPR_SR := sr)" "pc t = pc s" by (simp_all add: t_def)
  show ?thesis
    unfolding t add_spec_def add_range_def range_due_def range_exception_def Let_def sr_def[symmetric] t_def[symmetric]
    by (cases "spr_has s SPR_SR SPR_SR_OVE"; cases "spr_has s SPR_CPUCFGR SPR_CPUCFGR_AECSRP"; cases ov; cases cy)
      (simp_all add: f sr)
qed

lemma issued_write_reg [simp]:
  fixes s :: "'z cpu_scheme"
  shows "issued oc cur (write_reg d v s) = issued oc cur s"
  by (rule issued_cong) (simp_all add: write_reg_def)

section \<open>Carry and overflow\<close>

lemma mod_once: "z < 2 * n \<Longrightarrow> z mod n = (if z < n then z else z - n)" for z n :: nat
  by (simp add: le_mod_geq)

lemmas u32_less = unsigned_less[where ?'a = nat and ?'b = 32, simplified]

lemma unat_sum_carry: "unat (a + b + of_bool c) = (unat a + unat b + of_bool c) mod 2 ^ 32" for a b :: u32
  by (simp add: unat_word_ariths mod_simps)

lemma carry_iff:
  "(c \<and> a + b + of_bool c \<le> b) \<or> a + b + of_bool c < b \<longleftrightarrow> 2 ^ 32 \<le> unat a + unat b + of_bool c" for a b :: u32
proof -
  have "(unat a + unat b + of_bool c) mod 2 ^ 32
      = (if unat a + unat b + of_bool c < 2 ^ 32 then unat a + unat b + of_bool c else unat a + unat b + of_bool c - 2 ^ 32)"
    using u32_less[of a] u32_less[of b] by (intro mod_once) (cases c; simp)
  then show ?thesis using u32_less[of a] u32_less[of b]
    unfolding word_less_nat_alt word_le_nat_alt unat_sum_carry by (cases c) auto
qed

lemma signed_wrap:
  assumes "- (2 ^ 32) \<le> z" "z < 2 ^ 32"
  shows "signed_take_bit 31 (z :: int) = (if z < - (2 ^ 31) then z + 2 ^ 32 else if z < 2 ^ 31 then z else z - 2 ^ 32)"
proof -
  have "signed_take_bit 31 z = (z + 2 ^ 31) mod 2 ^ 32 - 2 ^ 31"
    by (simp add: signed_take_bit_eq_take_bit_shift take_bit_eq_mod)
  also have "(z + 2 ^ 31) mod 2 ^ 32 = (if z < - (2 ^ 31) then z + 2 ^ 31 + 2 ^ 32 else if z < 2 ^ 31 then z + 2 ^ 31 else z + 2 ^ 31 - 2 ^ 32)"
  proof -
    consider "z < - (2 ^ 31)" | "- (2 ^ 31) \<le> z" "z < 2 ^ 31" | "2 ^ 31 \<le> z" by linarith
    then show ?thesis
    proof cases
      case 1
      then have "(z + 2 ^ 31 + 2 ^ 32) mod 2 ^ 32 = z + 2 ^ 31 + 2 ^ 32" using assms by (intro mod_pos_pos_trivial) auto
      then have "(z + 2 ^ 31) mod 2 ^ 32 = z + 2 ^ 31 + 2 ^ 32" by (simp only: mod_add_self2)
      then show ?thesis using 1 by simp
    next
      case 2
      then show ?thesis by (simp add: mod_pos_pos_trivial)
    next
      case 3
      then have "(z + 2 ^ 31 - 2 ^ 32) mod 2 ^ 32 = z + 2 ^ 31 - 2 ^ 32" using assms by (intro mod_pos_pos_trivial) auto
      then have "(z + 2 ^ 31) mod 2 ^ 32 = z + 2 ^ 31 - 2 ^ 32" by (simp only: minus_mod_self2)
      then show ?thesis using 3 by simp
    qed
  qed
  finally show ?thesis by simp
qed

definition fits32 :: "int \<Rightarrow> bool" where
  "fits32 z \<longleftrightarrow> - (2 ^ 31) \<le> z \<and> z < 2 ^ 31"

lemma sint_range: "- (2 ^ 31) \<le> sint (a :: u32)" "sint a < 2 ^ 31"
  using sint_ge[of a] sint_lt[of a] by simp_all

lemma sint_of_int: "sint (word_of_int z :: u32) = signed_take_bit 31 z"
  by (simp add: int_word_sint signed_take_bit_eq_take_bit_shift take_bit_eq_mod)

lemma sint_sum: "sint (a + b + of_bool c :: u32) = signed_take_bit 31 (sint a + sint b + of_bool c)"
  unfolding sint_of_int[symmetric] by simp

lemma sint_diff: "sint (a - b :: u32) = signed_take_bit 31 (sint a - sint b)"
  unfolding sint_of_int[symmetric] by simp

lemma add_overflow_iff: "add_overflow a b \<longleftrightarrow> \<not> fits32 (sint a + sint (b :: u32))"
  using sint_range[of a] sint_range[of b] sint_sum[of a b False] signed_wrap[of "sint a + sint b"]
  by (auto simp: add_overflow_def fits32_def)

lemma sub_overflow_iff: "sub_overflow a b \<longleftrightarrow> \<not> fits32 (sint a - sint (b :: u32))"
  using sint_range[of a] sint_range[of b] sint_diff[of a b] signed_wrap[of "sint a - sint b"]
  by (auto simp: sub_overflow_def fits32_def)

lemma addc_overflow_iff:
  "(sint b < 0 \<and> sint a < 0 \<and> 0 \<le> sint (a + b + of_bool c)) \<or> (0 \<le> sint b \<and> 0 \<le> sint a \<and> sint (a + b + of_bool c) < 0)
     \<longleftrightarrow> \<not> fits32 (sint a + sint b + of_bool c)" for a b :: u32
  using sint_range[of a] sint_range[of b] signed_wrap[of "sint a + sint b + of_bool c"]
  unfolding sint_sum fits32_def by (cases c) (auto split: if_splits)

section \<open>The highest bit\<close>

lemma bit_double: "bit (t * 2 :: u32) n \<longleftrightarrow> 1 \<le> n \<and> n < 32 \<and> bit t (n - 1)"
  using bit_push_bit_iff[of 1 t n] by (auto simp: push_bit_eq_mult mult.commute)

text \<open>The four exchanges within halfwords reverse each of the two halves.\<close>

definition halves_reversed :: "u32 \<Rightarrow> u32" where
  "halves_reversed t =
     (let t = drop_bit 1 (t AND 0xaaaaaaaa) OR push_bit 1 (t AND 0x55555555);
          t = drop_bit 2 (t AND 0xcccccccc) OR push_bit 2 (t AND 0x33333333);
          t = drop_bit 4 (t AND 0xf0f0f0f0) OR push_bit 4 (t AND 0x0f0f0f0f)
      in drop_bit 8 (t AND 0xff00ff00) OR push_bit 8 (t AND 0x00ff00ff))"

lemma bit_halves_reversed:
  assumes "n < 32"
  shows "bit (halves_reversed t) n = bit t (16 * (n div 16) + 15 - n mod 16)"
proof -
  have "\<forall>n\<in>set [0..<32]. bit (halves_reversed t) n = bit t (16 * (n div 16) + 15 - n mod 16)"
    unfolding halves_reversed_def Let_def upt_32 by (simp add: bit_simps bit_double, simp add: numeral_2_eq_2)
  with assms show ?thesis by simp
qed

text \<open>In the upper half the sign that the last shift brings in shows, where bit 16 of the word was set.\<close>

lemma bit_fl1_reverse:
  assumes "n < 32"
  shows "bit (fl1_reverse t) n \<longleftrightarrow> bit t (31 - n) \<or> (16 \<le> n \<and> bit t 16)"
proof -
  let ?h = "halves_reversed t"
  have rev: "fl1_reverse t = signed_drop_bit 16 ?h OR push_bit 16 ?h"
    by (simp add: fl1_reverse_def halves_reversed_def Let_def)
  show ?thesis
  proof (cases "n < 16")
    case True
    then have "bit (fl1_reverse t) n = bit ?h (16 + n)"
      unfolding rev by (simp add: bit_or_iff bit_signed_drop_bit_iff bit_push_bit_iff)
    also have "\<dots> = bit t (31 - n)"
    proof -
      have "(16 + n) div 16 = 1" "(16 + n) mod 16 = n" using True by auto
      then show ?thesis using True bit_halves_reversed[of "16 + n" t] by simp
    qed
    finally show ?thesis using True by simp
  next
    case False
    then have "bit (fl1_reverse t) n \<longleftrightarrow> bit ?h 31 \<or> bit ?h (n - 16)"
      using assms unfolding rev by (auto simp: bit_or_iff bit_signed_drop_bit_iff bit_push_bit_iff)
    also have "bit ?h 31 = bit t 16" using bit_halves_reversed[of 31 t] by simp
    also have "bit ?h (n - 16) = bit t (31 - n)" using False assms bit_halves_reversed[of "n - 16" t] by simp
    finally show ?thesis using False by auto
  qed
qed

lemma ffs_zero: "ffs 0 = 0"
proof -
  have "List.find (bit (0 :: u32)) [0..<32] = None" unfolding find_None_iff by simp
  then show ?thesis unfolding ffs_def by simp
qed

lemma ffs_lowest:
  assumes "bit a m" "\<And>k. k < m \<Longrightarrow> \<not> bit a k"
  shows "ffs a = of_nat (Suc m)"
proof -
  have "m < 32" using bit_imp_le_length[OF assms(1)] by simp
  then have "List.find (bit a) [0..<32] = Some m"
    using assms by (auto simp: find_Some_iff intro!: exI[of _ m])
  then show ?thesis by (simp add: ffs_def)
qed

lemma bits_finite: "finite {i. bit (a :: u32) i}"
  by (rule finite_subset[of _ "{..<32}"]) (auto dest: bit_imp_le_length)

lemma bits_nonempty: "a \<noteq> 0 \<Longrightarrow> {i. bit (a :: u32) i} \<noteq> {}"
  by (auto simp: bit_eq_iff)

lemma highest_bit:
  assumes "a \<noteq> (0 :: u32)"
  shows "bit a (Max {i. bit a i})" "Max {i. bit a i} < 32" "Max {i. bit a i} < k \<Longrightarrow> \<not> bit a k"
proof -
  show top: "bit a (Max {i. bit a i})" using Max_in[OF bits_finite bits_nonempty[OF assms]] by blast
  show "Max {i. bit a i} < 32" using bit_imp_le_length[OF top] by simp
  show "\<not> bit a k" if "Max {i. bit a i} < k"
    using Max_ge[OF bits_finite, of k a] that by (metis leD mem_Collect_eq)
qed

lemma lowest_bit:
  assumes "a \<noteq> (0 :: u32)"
  shows "bit a (Min {i. bit a i})" "k < Min {i. bit a i} \<Longrightarrow> \<not> bit a k"
proof -
  show "bit a (Min {i. bit a i})" using Min_in[OF bits_finite bits_nonempty[OF assms]] by blast
  show "\<not> bit a k" if "k < Min {i. bit a i}"
    using Min_le[OF bits_finite, of k a] that by (metis leD mem_Collect_eq)
qed

lemma ffs_reverse:
  assumes "a \<noteq> 0"
  shows "ffs (fl1_reverse a) = of_nat (32 - Max {i. bit a i})"
proof -
  define h where "h = Max {i. bit a i}"
  have h: "h < 32" "bit a h" "h < k \<Longrightarrow> \<not> bit a k" for k
    using highest_bit[OF assms] unfolding h_def by blast+
  have "\<not> bit (fl1_reverse a) k" if k: "k < 31 - h" for k
  proof -
    have "\<not> bit a (31 - k)" using h(3)[of "31 - k"] k by simp
    moreover have "\<not> bit a 16" if "16 \<le> k" using h(3)[of 16] k that by simp
    ultimately show ?thesis using bit_fl1_reverse[of k a] k by auto
  qed
  moreover have "bit (fl1_reverse a) (31 - h)" using h(1,2) by (simp add: bit_fl1_reverse)
  ultimately have "ffs (fl1_reverse a) = of_nat (Suc (31 - h))" by (intro ffs_lowest) auto
  then show ?thesis using h(1) unfolding h_def by (simp add: Suc_diff_le)
qed

text \<open>The registers of a small processor.\<close>

abbreviation regs12 :: "u32 \<Rightarrow> u32 \<Rightarrow> cpu" where
  "regs12 x y \<equiv> small_cpu\<lparr>reg := (\<lambda>_. 0)(1 := x, 2 := y)\<rparr>"

lemma small_sprs [simp]: "sprs small_cpu n = 0"
  by (simp add: small_cpu_def zero_cpu_def zero_board_def zero_machine_def board.defs machine.defs)

lemma small_insns [simp]:
  "insn add_insn = 0xE0611000" "insn mul_insn = 0xE0611306" "insn div_insn = 0xE0611309" "insn fl1_insn = 0xE061010F"
  "insn mac_insn = 0xC4011001"
  by (simp_all add: add_insn_def mul_insn_def div_insn_def fl1_insn_def mac_insn_def)

section \<open>Properties\<close>

text \<open>
  C1: addition and subtraction of registers. For an instruction with operands
  \<^verbatim>\<open>rD,rA,rB\<close> (or one whose operands evaluate like them) \<^verbatim>\<open>l.add\<close>,
  \<^verbatim>\<open>l.addc\<close> and \<^verbatim>\<open>l.sub\<close> put the sum, the sum with carry and the difference modulo
  \<open>2 ^ 32\<close> into \<^verbatim>\<open>rD\<close>, unless that is register 0; set \<^verbatim>\<open>SR[CY]\<close> exactly
  when the sum of the unsigned values does not fit, or the unsigned difference is negative; set
  \<^verbatim>\<open>SR[OV]\<close> exactly when the signed result does not fit, for \<^verbatim>\<open>l.addc\<close> by
  looking at signs only; and take the range exception exactly when it is enabled for one of the
  flags that are set. Nothing else changes.
\<close>

theorem add_sub_exact:
  assumes "reg3 oc" and "issued oc cur s"
  shows "let a = reg s (field_A (insn cur)); b = reg s (field_B (insn cur)); d = field_D (insn cur);
             c = spr_has s SPR_SR SPR_SR_CY
         in l_add cur s = Inr (add_spec d (a + b) (\<not> fits32 (sint a + sint b)) (2 ^ 32 \<le> unat a + unat b) s)
          \<and> l_addc cur s = Inr (add_spec d (a + b + of_bool c) (\<not> fits32 (sint a + sint b + of_bool c))
                                  (2 ^ 32 \<le> unat a + unat b + of_bool c) s)
          \<and> l_sub cur s = Inr (add_spec d (a - b) (\<not> fits32 (sint a - sint b)) (unat a < unat b) s)"
proof -
  note operands = reg3_operands[OF assms]
  define a where "a = reg s (field_A (insn cur))"
  define b where "b = reg s (field_B (insn cur))"
  define d where "d = field_D (insn cur)"
  define c where "c = spr_has s SPR_SR SPR_SR_CY"
  have p: "with_param 1 cur f s = f a s" "with_param 2 cur f s = f b s" for f
    using operands(1,2) by (simp_all add: with_param_Inr a_def b_def)
  have w: "set_operand 0 v cur s = Inr (write_reg d v s)" for v using operands(3) by (simp add: d_def)
  have "l_add cur s = Inr (add_spec d (a + b) (\<not> fits32 (sint a + sint b)) (2 ^ 32 \<le> unat a + unat b) s)"
    unfolding l_add_def p w Let_def bind_outcome_simps
    using carry_iff[of False a b] by (simp add: add_range_spec add_overflow_iff add.commute)
  moreover have "l_addc cur s = Inr (add_spec d (a + b + of_bool c) (\<not> fits32 (sint a + sint b + of_bool c))
      (2 ^ 32 \<le> unat a + unat b + of_bool c) s)"
  proof -
    have sum: "(if c then b + a + 1 else b + a) = a + b + of_bool c" by (simp add: add.commute)
    show ?thesis
      unfolding l_addc_def p w Let_def bind_outcome_simps c_def[symmetric] sum
        addc_overflow_iff carry_iff add_range_spec ..
  qed
  moreover have "l_sub cur s = Inr (add_spec d (a - b) (\<not> fits32 (sint a - sint b)) (unat a < unat b) s)"
    unfolding l_sub_def p w Let_def bind_outcome_simps
    by (simp add: add_range_spec sub_overflow_iff word_less_nat_alt)
  ultimately show ?thesis unfolding Let_def a_def b_def c_def d_def by blast
qed

theorem add_sub_exact_witness:
  "\<exists>s'. l_add add_insn (regs12 0x7fffffff 1) = Inr s' \<and> reg s' 3 = 0x80000000
     \<and> spr_has s' SPR_SR SPR_SR_OV \<and> \<not> spr_has s' SPR_SR SPR_SR_CY"
  using add_sub_exact[OF small_entries(1) small_issued(1)[of "(\<lambda>_. 0)(1 := 0x7fffffff, 2 := 1)"]]
  by (simp add: small_fields Let_def add_spec_def range_due_def fits32_def put_flag_def)

text \<open>
  C24: the searches for a bit. \<^verbatim>\<open>l.ff1\<close> puts one plus the number of the lowest bit
  that is set into \<^verbatim>\<open>rD\<close>, \<^verbatim>\<open>l.fl1\<close> one plus the number of the highest, and
  both 0 when no bit is set. \<^verbatim>\<open>l.fl1\<close> reverses the word and uses \<^verbatim>\<open>ffs\<close>; that the
  last shift of the reversal drags the sign into the upper half does no harm.
\<close>

theorem ff1_fl1_bits:
  assumes "reg2 oc" and "issued oc cur s"
  shows "let a = reg s (field_A (insn cur)); d = field_D (insn cur)
         in l_ff1 cur s = Inr (write_reg d (if a = 0 then 0 else of_nat (Suc (Min {i. bit a i}))) s)
          \<and> l_fl1 cur s = Inr (write_reg d (if a = 0 then 0 else of_nat (Suc (Max {i. bit a i}))) s)"
proof -
  define a where "a = reg s (field_A (insn cur))"
  have u: "unary f cur s = Inr (write_reg (field_D (insn cur)) (f a) s)" for f
    using reg2_operands[OF assms] by (simp add: unary_def with_param_Inr a_def)
  have rev0: "fl1_reverse 0 = 0" by (simp add: fl1_reverse_def)
  have high: "33 - ffs (fl1_reverse a) = of_nat (Suc (Max {i. bit a i}))" "ffs (fl1_reverse a) \<noteq> 0" if "a \<noteq> 0"
  proof -
    have "Max {i. bit a i} < 32" using highest_bit(2)[OF that] .
    then show "33 - ffs (fl1_reverse a) = of_nat (Suc (Max {i. bit a i}))"
      using ffs_reverse[OF that] by (simp add: of_nat_diff)
    show "ffs (fl1_reverse a) \<noteq> 0" unfolding ffs_reverse[OF that] word_of_nat_eq_0_iff
      using \<open>Max {i. bit a i} < 32\<close> by (intro nat_dvd_not_less) simp_all
  qed
  have low: "ffs a = of_nat (Suc (Min {i. bit a i}))" if "a \<noteq> 0"
    using lowest_bit[OF that] by (rule ffs_lowest)
  show ?thesis unfolding l_ff1_def l_fl1_def u a_def[symmetric] Let_def
  proof (cases "a = 0")
    case False
    show "Inr (write_reg (field_D (insn cur)) (ffs a) s)
        = Inr (write_reg (field_D (insn cur)) (if a = 0 then 0 else of_nat (Suc (Min {i. bit a i}))) s)
      \<and> Inr (write_reg (field_D (insn cur)) (if ffs (fl1_reverse a) = 0 then ffs (fl1_reverse a) else 33 - ffs (fl1_reverse a)) s)
        = Inr (write_reg (field_D (insn cur)) (if a = 0 then 0 else of_nat (Suc (Max {i. bit a i}))) s)"
      using False by (simp only: high[OF False] low[OF False] if_False simp_thms)
  qed (simp add: ffs_zero rev0)
qed

theorem ff1_fl1_bits_witness:
  "l_fl1 fl1_insn (regs12 0x00010001 0) = Inr (write_reg 3 17 (regs12 0x00010001 0))"
proof -
  have bits: "{i. bit (0x00010001 :: u32) i} = {0, 16}"
  proof -
    have "bit (0x00010001 :: u32) i \<longleftrightarrow> i = 0 \<or> i = 16" if "i < 32" for i
    proof -
      have "\<forall>i\<in>set [0..<32]. bit (0x00010001 :: u32) i \<longleftrightarrow> i = 0 \<or> i = 16" unfolding upt_32 by simp
      with that show ?thesis by simp
    qed
    then show ?thesis by (auto dest: bit_imp_le_length)
  qed
  show ?thesis
    using ff1_fl1_bits[OF small_entries(4) small_issued(4)[of "(\<lambda>_. 0)(1 := 0x00010001, 2 := 0)"]]
    by (simp add: small_fields Let_def bits)
qed

end
