(* ===== verification/Products.thy ===== *)
theory Products
  imports Arith
begin

text \<open>
  Multiplication, the accumulator and division: what \<^verbatim>\<open>l.mul\<close>, \<^verbatim>\<open>l.mulu\<close>,
  \<^verbatim>\<open>l.mac\<close>, \<^verbatim>\<open>l.msb\<close>, \<^verbatim>\<open>l.div\<close> and \<^verbatim>\<open>l.divu\<close> compute, over the
  integers.
\<close>

section \<open>Words of 64 bits\<close>

definition fits64 :: "int \<Rightarrow> bool" where
  "fits64 z \<longleftrightarrow> - (2 ^ 63) \<le> z \<and> z < 2 ^ 63"

lemma sint64_of_int: "sint (word_of_int z :: u64) = z \<longleftrightarrow> fits64 z"
  using signed_take_bit_int_eq_self_iff[of 63 z] by (simp add: signed_of_int fits64_def)

lemma add_overflow64_iff: "add_overflow a b \<longleftrightarrow> \<not> fits64 (sint a + sint (b :: u64))"
  unfolding add_overflow_def sint64_of_int[symmetric] by auto

lemma sub_overflow64_iff: "sub_overflow a b \<longleftrightarrow> \<not> fits64 (sint a - sint (b :: u64))"
  unfolding sub_overflow_def sint64_of_int[symmetric] by auto

lemma scast_of_int: "(scast (a :: u32) :: u64) = word_of_int (sint a)"
  by simp

lemma product_fits: "fits64 (sint (a :: u32) * sint (b :: u32))"
proof -
  have "\<bar>sint a\<bar> \<le> 2 ^ 31" "\<bar>sint b\<bar> \<le> 2 ^ 31" using sint_range[of a] sint_range[of b] by auto
  then have "\<bar>sint a * sint b\<bar> \<le> 2 ^ 31 * 2 ^ 31" unfolding abs_mult by (intro mult_mono) auto
  then show ?thesis by (auto simp: fits64_def abs_le_iff)
qed

lemma signed_product: "(scast (a :: u32) :: u64) * scast (b :: u32) = word_of_int (sint a * sint b)"
  by (simp only: scast_of_int of_int_mult)

lemma sint_signed_product: "sint ((scast (a :: u32) :: u64) * scast (b :: u32)) = sint a * sint b"
  unfolding signed_product sint64_of_int by (rule product_fits)

lemma uint_unsigned_product: "uint ((ucast (a :: u32) :: u64) * ucast (b :: u32)) = uint a * uint b"
proof -
  have a: "uint a < 2 ^ 32" "uint b < 2 ^ 32" using uint_lt2p[of a] uint_lt2p[of b] by simp_all
  then have "uint a * uint b < 2 ^ 32 * 2 ^ 32" by (intro mult_strict_mono) auto
  then show ?thesis by (simp add: uint_word_ariths unsigned_ucast_eq take_bit_eq_mod mod_simps mod_pos_pos_trivial)
qed

lemma low_word: "(ucast (word_of_int z :: u64) :: u32) = word_of_int z"
  by (rule bit_word_eqI) (simp add: bit_simps)

section \<open>The accumulator\<close>

lemma mac_set_acc [simp]: "mac_acc (set_acc v s) = v"
  by (rule bit_word_eqI) (auto simp: mac_acc_def set_acc_def bit_simps)

lemma set_acc_fields [simp]:
  "reg (set_acc v s) = reg s" "pc (set_acc v s) = pc s" "cfg (set_acc v s) = cfg s"
  "n \<noteq> SPR_MACLO \<Longrightarrow> n \<noteq> SPR_MACHI \<Longrightarrow> sprs (set_acc v s) n = sprs s n"
  by (simp_all add: set_acc_def)

section \<open>Division\<close>

lemma sint_eq_iff: "sint a = sint b \<longleftrightarrow> a = (b :: u32)"
  by (auto intro: signed_word_eqI)

lemma smod_bounds: "l \<noteq> 0 \<Longrightarrow> \<bar>k smod l\<bar> < \<bar>l\<bar>" "0 \<le> k smod l * k" for k l :: int
proof -
  have m: "0 \<le> \<bar>k\<bar> mod \<bar>l\<bar>" if "l \<noteq> 0" using that by simp
  show "\<bar>k smod l\<bar> < \<bar>l\<bar>" if "l \<noteq> 0"
    using that m[OF that] by (simp add: signed_modulo_int_def abs_mult abs_sgn_eq)
  have "k smod l * k = \<bar>k\<bar> * (\<bar>k\<bar> mod \<bar>l\<bar>)"
    by (simp add: signed_modulo_int_def abs_sgn[of k] algebra_simps)
  then show "0 \<le> k smod l * k" by (cases "l = 0") (simp_all add: m)
qed

lemma quotient_fits:
  fixes a b :: u32
  assumes "b \<noteq> 0"
  shows "\<not> fits32 (sint a sdiv sint b) \<longleftrightarrow> a = 0x80000000 \<and> b = 0xffffffff"
proof -
  have ends: "a = 0x80000000 \<longleftrightarrow> sint a = - (2 ^ 31)" "b = 0xffffffff \<longleftrightarrow> sint b = - 1" "sint b \<noteq> 0"
    using sint_eq_iff[of a "0x80000000"] sint_eq_iff[of b "0xffffffff"] sint_eq_iff[of b 0] assms by simp_all
  have abs: "\<bar>sint a sdiv sint b\<bar> = \<bar>sint a\<bar> div \<bar>sint b\<bar>"
    using ends(3) by (cases "sint a = 0") (simp_all add: signed_divide_int_def abs_mult abs_sgn_eq pos_imp_zdiv_nonneg_iff)
  consider "sint b = 1" | "sint b = - 1" | "2 \<le> \<bar>sint b\<bar>" using ends(3) by linarith
  then show ?thesis
  proof cases
    case 1
    then have "sint a sdiv sint b = sint a" by (simp add: signed_divide_int_def sgn_if)
    then show ?thesis using sint_range[of a] ends 1 by (simp add: fits32_def)
  next
    case 2
    then have "sint a sdiv sint b = - sint a" by (simp add: signed_divide_int_def sgn_if)
    then show ?thesis using sint_range[of a] ends 2 by (auto simp: fits32_def)
  next
    case 3
    then have "\<bar>sint a\<bar> div \<bar>sint b\<bar> \<le> \<bar>sint a\<bar> div 2" by (intro zdiv_mono2) auto
    also have "\<dots> \<le> 2 ^ 30" using sint_range[of a] by simp
    finally have "fits32 (sint a sdiv sint b)" unfolding abs[symmetric] by (auto simp: fits32_def abs_le_iff)
    then show ?thesis using ends 3 by auto
  qed
qed

section \<open>Properties\<close>

text \<open>
  The end of a multiplication or division whose flag is decided: the flag, and the range exception
  as far as it is enabled.
\<close>

abbreviation finish :: "u32 \<Rightarrow> u32 \<Rightarrow> u32 \<Rightarrow> bool \<Rightarrow> bool \<Rightarrow> 'z machine_scheme \<Rightarrow> 'z machine_scheme" where
  "finish fl aecr aesr always b s \<equiv> mul_range fl aecr aesr always (set_spr SPR_SR (put_flag fl b (sprs s SPR_SR)) s)"

text \<open>
  C23: products. \<^verbatim>\<open>l.mul\<close> and \<^verbatim>\<open>l.mulu\<close> put the product of the registers modulo
  \<open>2 ^ 32\<close> into \<^verbatim>\<open>rD\<close>; \<^verbatim>\<open>SR[OV]\<close> tells exactly when the signed product does
  not fit, \<^verbatim>\<open>SR[CY]\<close> when the unsigned one does not.
\<close>

theorem products_exact:
  assumes "reg3 oc" and "issued oc cur s"
  shows "let a = reg s (field_A (insn cur)); b = reg s (field_B (insn cur)); d = field_D (insn cur)
       in l_mul cur s = Inr (finish SPR_SR_OV SPR_AECR_OVMULE SPR_AESR_OVMULE True (\<not> fits32 (sint a * sint b))
                               (write_reg d (of_int (sint a * sint b)) s))
        \<and> l_mulu cur s = Inr (finish SPR_SR_CY SPR_AECR_CYMULE SPR_AESR_CYMULE False (2 ^ 32 \<le> unat a * unat b)
                               (write_reg d (of_nat (unat a * unat b)) s))"
proof -
  define a where "a = reg s (field_A (insn cur))"
  define b where "b = reg s (field_B (insn cur))"
  define d where "d = field_D (insn cur)"
  note operands = reg3_operands[OF assms]
  have p: "with_param 1 cur f s = f a s" "with_param 2 cur f s = f b s" for f
    using operands(1,2) by (simp_all add: with_param_Inr a_def b_def)
  have w: "set_operand 0 v cur s = Inr (write_reg d v s)" for v using operands(3) by (simp add: d_def)
  have "l_mul cur s = Inr (finish SPR_SR_OV SPR_AECR_OVMULE SPR_AESR_OVMULE True (\<not> fits32 (sint a * sint b))
      (write_reg d (of_int (sint a * sint b)) s))"
  proof -
    have "sint a * sint b < - (2 ^ 31) \<or> 2 ^ 31 - 1 < sint a * sint b \<longleftrightarrow> \<not> fits32 (sint a * sint b)"
      by (auto simp: fits32_def)
    then show ?thesis
      unfolding l_mul_def p w Let_def bind_outcome_simps sint_signed_product
      unfolding signed_product low_word set_flag_eq by simp
  qed
  moreover have "l_mulu cur s = Inr (finish SPR_SR_CY SPR_AECR_CYMULE SPR_AESR_CYMULE False (2 ^ 32 \<le> unat a * unat b)
      (write_reg d (of_nat (unat a * unat b)) s))"
  proof -
    let ?u = "(ucast a :: u64) * ucast b"
    have n: "unat ?u = unat a * unat b"
      using uint_unsigned_product[of a b] by (metis nat_mult_distrib unat_eq_nat_uint uint_ge_0)
    have "ucast ?u = (of_nat (unat a * unat b) :: u32)" unfolding n[symmetric] by simp
    moreover have "0xffffffff < ?u \<longleftrightarrow> 2 ^ 32 \<le> unat a * unat b" unfolding word_less_nat_alt n by auto
    ultimately show ?thesis
      unfolding l_mulu_def p w Let_def bind_outcome_simps set_flag_eq by simp
  qed
  ultimately show ?thesis unfolding Let_def a_def b_def d_def by blast
qed

theorem products_exact_witness:
  "\<exists>s'. l_mul mul_insn (regs12 0x10000 0x8000) = Inr s' \<and> reg s' 3 = 0x80000000 \<and> spr_has s' SPR_SR SPR_SR_OV"
  using products_exact[OF small_entries(2) small_issued(2)[of "(\<lambda>_. 0)(1 := 0x10000, 2 := 0x8000)"]]
  by (simp add: small_fields Let_def mul_range_def fits32_def put_flag_def)

text \<open>
  C22: the accumulator. \<^verbatim>\<open>l.mac\<close> and \<^verbatim>\<open>l.msb\<close> add the signed product of their registers
  to the 64 bit accumulator in \<^verbatim>\<open>MACHI\<close> and \<^verbatim>\<open>MACLO\<close>, or subtract it, modulo
  \<open>2 ^ 64\<close>, and \<^verbatim>\<open>SR[OV]\<close> tells exactly when the result does not fit. Reading the
  accumulator back gives the value that was put there.
\<close>

theorem mac_exact:
  assumes "reg_AB oc" and "issued oc cur s"
  shows "let p = sint (reg s (field_A (insn cur))) * sint (reg s (field_B (insn cur))); z = sint (mac_acc s)
       in l_mac cur s = Inr (finish SPR_SR_OV SPR_AECR_OVMACADDE SPR_AESR_OVMACADDE True (\<not> fits64 (z + p))
                               (set_acc (of_int (z + p)) s))
        \<and> l_msb cur s = Inr (finish SPR_SR_OV SPR_AECR_OVMACADDE SPR_AESR_OVMACADDE True (\<not> fits64 (z - p))
                               (set_acc (of_int (z - p)) s))
        \<and> (\<forall>v. mac_acc (set_acc v s) = v)"
proof -
  define a where "a = reg s (field_A (insn cur))"
  define b where "b = reg s (field_B (insn cur))"
  have p: "with_param 0 cur f s = f a s" "with_param 1 cur f s = f b s" for f
    using reg_AB_operands[OF assms] by (simp_all add: with_param_Inr a_def b_def)
  show ?thesis
    unfolding l_mac_def l_msb_def p Let_def add_overflow64_iff sub_overflow64_iff sint_signed_product set_flag_eq
      a_def[symmetric] b_def[symmetric] unfolding signed_product by simp
qed

theorem mac_exact_witness:
  "\<exists>s'. l_msb mac_insn (regs12 2 3) = Inr s' \<and> sint (mac_acc s') = - 6 \<and> \<not> spr_has s' SPR_SR SPR_SR_OV"
  using mac_exact[OF small_entries(5) small_issued(5)[of "(\<lambda>_. 0)(1 := 2, 2 := 3)"]]
  by (simp add: small_fields Let_def mul_range_def fits64_def put_flag_def mac_acc_def set_acc_def)

text \<open>
  C21: division. \<^verbatim>\<open>l.div\<close> puts the quotient rounded towards zero into \<^verbatim>\<open>rD\<close> and clears
  \<^verbatim>\<open>SR[OV]\<close>; a division by zero, and the one quotient that does not fit, set
  \<^verbatim>\<open>SR[OV]\<close> and leave \<^verbatim>\<open>rD\<close> alone. \<^verbatim>\<open>l.divu\<close> does the same for unsigned
  values, where only zero is refused. No operands make the host fault. The carry flag is left alone in
  every case, although the comments in \<^verbatim>\<open>l_div\<close> and \<^verbatim>\<open>l_divu\<close> and the header of the
  test \<^verbatim>\<open>is-div-test.S\<close> say that a division by zero sets it.
\<close>

theorem division_exact:
  assumes "reg3 oc" and "issued oc cur s"
  shows "let a = reg s (field_A (insn cur)); b = reg s (field_B (insn cur)); d = field_D (insn cur)
       in (if b = 0 \<or> \<not> fits32 (sint a sdiv sint b)
           then l_div cur s = Inr (finish SPR_SR_OV SPR_AECR_DBZE SPR_AESR_DBZE True True s)
           else \<exists>q r. sint a = q * sint b + r \<and> \<bar>r\<bar> < \<bar>sint b\<bar> \<and> 0 \<le> r * sint a
             \<and> l_div cur s = Inr (finish SPR_SR_OV SPR_AECR_DBZE SPR_AESR_DBZE True False (write_reg d (of_int q) s)))
        \<and> l_divu cur s = Inr (if b = 0 then finish SPR_SR_OV SPR_AECR_DBZE SPR_AESR_DBZE True True s
             else finish SPR_SR_OV SPR_AECR_DBZE SPR_AESR_DBZE True False (write_reg d (of_nat (unat a div unat b)) s))"
proof -
  define a where "a = reg s (field_A (insn cur))"
  define b where "b = reg s (field_B (insn cur))"
  define d where "d = field_D (insn cur)"
  note operands = reg3_operands[OF assms]
  have p: "with_param 1 cur f s = f a s" "with_param 2 cur f s = f b s" for f
    using operands(1,2) by (simp_all add: with_param_Inr a_def b_def)
  have w: "set_operand 0 v cur s = Inr (write_reg d v s)" for v using operands(3) by (simp add: d_def)
  have refused: "b = 0 \<or> \<not> fits32 (sint a sdiv sint b) \<longleftrightarrow> b = 0 \<or> a = 0x80000000 \<and> b = 0xffffffff"
    using quotient_fits[of b a] by blast
  have "if b = 0 \<or> \<not> fits32 (sint a sdiv sint b)
      then l_div cur s = Inr (finish SPR_SR_OV SPR_AECR_DBZE SPR_AESR_DBZE True True s)
      else \<exists>q r. sint a = q * sint b + r \<and> \<bar>r\<bar> < \<bar>sint b\<bar> \<and> 0 \<le> r * sint a
        \<and> l_div cur s = Inr (finish SPR_SR_OV SPR_AECR_DBZE SPR_AESR_DBZE True False (write_reg d (of_int q) s))"
  proof (cases "b = 0 \<or> \<not> fits32 (sint a sdiv sint b)")
    case True
    then show ?thesis unfolding refused l_div_def p by (auto simp: put_flag_def)
  next
    case False
    then have nz: "sint b \<noteq> 0" using sint_eq_iff[of b 0] by simp
    have "l_div cur s = Inr (finish SPR_SR_OV SPR_AECR_DBZE SPR_AESR_DBZE True False
        (write_reg d (of_int (sint a sdiv sint b)) s))"
      using False unfolding refused l_div_def p w by (auto simp: put_flag_def)
    moreover have "sint a = (sint a sdiv sint b) * sint b + sint a smod sint b" by (simp add: sdiv_mult_smod_eq)
    ultimately show ?thesis using False smod_bounds(1)[OF nz, of "sint a"] smod_bounds(2)[of "sint a" "sint b"] by auto
  qed
  moreover have "l_divu cur s = Inr (if b = 0 then finish SPR_SR_OV SPR_AECR_DBZE SPR_AESR_DBZE True True s
      else finish SPR_SR_OV SPR_AECR_DBZE SPR_AESR_DBZE True False (write_reg d (of_nat (unat a div unat b)) s))"
    unfolding l_divu_def p w by (auto simp: put_flag_def word_arith_nat_div)
  ultimately show ?thesis unfolding Let_def a_def b_def d_def by blast
qed

theorem division_exact_witness:
  "\<exists>s'. l_div div_insn (regs12 0x80000000 0xffffffff) = Inr s' \<and> reg s' 3 = 0 \<and> spr_has s' SPR_SR SPR_SR_OV"
  using division_exact[OF small_entries(3) small_issued(3)[of "(\<lambda>_. 0)(1 := 0x80000000, 2 := 0xffffffff)"]]
  by (simp add: small_fields Let_def mul_range_def fits32_def put_flag_def signed_divide_int_def)

end
