(* ===== verification/Control.thy ===== *)
theory Control
  imports Issue
begin

text \<open>
  Control flow: return from an exception, jumps and their delay slot, and what the store buffer
  makes a load wait for.
\<close>

section \<open>Return from an exception\<close>

lemma mtspr_sr:
  assumes "sprs s SPR_PICMR AND sprs s SPR_PICSR = 0"
  shows "mtspr (of_nat SPR_SR) v s = Inr (set_spr SPR_SR (v OR SPR_SR_FO) s)"
  using assms by (simp add: mtspr_def pic_ints_en_def Let_def)

lemma or_single_bit: "w AND push_bit n 1 \<noteq> 0 \<Longrightarrow> w OR push_bit n 1 = (w :: u32)"
proof (rule bit_word_eqI)
  fix k assume w: "w AND push_bit n 1 \<noteq> 0" and "k < LENGTH(32)"
  have "bit w n"
  proof (rule ccontr)
    assume "\<not> bit w n"
    then have "w AND push_bit n 1 = 0" by (intro bit_word_eqI) (auto simp: bit_simps)
    with w show False by simp
  qed
  then show "bit (w OR push_bit n 1) k = bit w k" by (auto simp: bit_simps)
qed

lemma fo_set: "w AND SPR_SR_FO \<noteq> 0 \<Longrightarrow> w OR SPR_SR_FO = w"
  using or_single_bit[of w 15] by simp

lemma update_pc_fields [simp]:
  "pc (update_pc s) = pcnext s" "delay_insn (update_pc s) = next_delay_insn s"
  "pcnext (update_pc s) = (if next_delay_insn s then pc_delay s else pcnext s + 4)"
  "reg (update_pc s) = reg s" "sprs (update_pc s) = (sprs s)(SPR_PPC := pc s)"
  by (simp_all add: update_pc_def Let_def)

section \<open>Jumps\<close>

definition jump_entry :: "or32_opcode \<Rightarrow> bool" where
  "jump_entry oc \<longleftrightarrow> args oc = ''N'' \<and> insn_extract CHR ''N'' (encoding oc) = 0x3FFFFFF"

lemma jump_runs:
  "num_ones 0x3FFFFFF = 26" "skip_zeros 0 64 0x3FFFFFF = 0" "count_ones 0 64 0x3FFFFFF = 26"
  by code_simp+

lemma jump_letters: "isalpha CHR ''N''" "letter_signed CHR ''N''"
  by (simp_all add: isalpha_def letter_signed_def or32_letters_def)

lemma jump_params: "jump_entry oc \<Longrightarrow> parse_params oc [] = Inr (rev [\<lparr>op_type = 0xD0001900, op_data = 26\<rparr>])"
  by (simp add: jump_entry_def parse_params_def jump_letters jump_runs operand_runs.simps mask_eq_exp_minus_1 or_type_def Let_def)

lemma jump_operand:
  assumes "jump_entry oc" "issued oc cur s"
  shows "eval_operand 0 cur s = Inr (signed_take_bit 25 (insn cur), s)"
proof -
  obtain rest where ds: "descriptors cur s = [\<lparr>op_type = 0xD0001900, op_data = 26\<rparr>] @ rest"
    using issuedE[OF assms(2) jump_params[OF assms(1)]] .
  have "eval_operand_val (insn cur) (\<lparr>op_type = 0xD0001900, op_data = 26\<rparr> # rest) = Inr (signed_take_bit 25 (insn cur))"
    using sign_extend_or[of 25 "insn cur"]
    by (simp add: eval_operand_val_def take_bit_eq_mask[symmetric] Let_def)
  then show ?thesis by (simp add: eval_operand_def ds)
qed

abbreviation l_j_entry :: or32_opcode where
  "l_j_entry \<equiv> or32_entry ''l.j'' ''N'' ''00 0x0  NNNNN NNNNN NNNN NNNN NNNN NNNN'' ''l_j'' OR32_IF_DELAY it_jump"

definition jump_cpu :: cpu where
  "jump_cpu = small_cpu\<lparr>pc := 0x2000, pcnext := 0x2004, opcodes := [l_j_entry], op_start := [0],
     op_table := [\<lparr>op_type = 0xD0001900, op_data = 26\<rparr>]\<rparr>"

section \<open>Properties\<close>

text \<open>
  C2: \<^verbatim>\<open>l.rfe\<close> undoes exception entry. When the handler has kept \<^verbatim>\<open>EPCR\<close> and
  \<^verbatim>\<open>ESR\<close> as the exception left them and no interrupt waits, \<^verbatim>\<open>l.rfe\<close> restores the
  status register that the interrupted program had and execution goes on where the exception says it
  resumes: at the instruction that raised it or, for a system call, the one behind it, at the branch
  before it when it was in a delay slot. Everything else is as the handler left it.
\<close>

theorem rfe_returns:
  assumes "sprs s SPR_DSR AND dsr_bit e = 0" and "e \<in> vectors" and "spr_has s SPR_SR SPR_SR_FO"
    and "sprs t SPR_ESR_BASE = sprs (except_handle e ea s) SPR_ESR_BASE"
    and "sprs t SPR_EPCR_BASE = sprs (except_handle e ea s) SPR_EPCR_BASE"
    and "sprs t SPR_PICMR AND sprs t SPR_PICSR = 0"
  shows "\<exists>t'. l_rfe cur t = Inr t' \<and> sprs t' = (sprs t)(SPR_SR := sprs s SPR_SR) \<and> reg t' = reg t
    \<and> pc (update_pc t') = resume_address e ea (pc s) - (if delay_insn s then 4 else 0)"
proof -
  have "sprs t SPR_ESR_BASE = sprs s SPR_SR"
    "sprs t SPR_EPCR_BASE = resume_address e ea (pc s) - (if delay_insn s then 4 else 0)"
    using assms(4,5) except_handle_result(1)[OF assms(1,2), of ea] by simp_all
  then show ?thesis using mtspr_sr[of "t\<lparr>pcnext := sprs t SPR_EPCR_BASE\<rparr>"] assms(6) fo_set[OF assms(3)]
    by (simp add: l_rfe_def)
qed

theorem rfe_returns_witness:
  "\<exists>t'. l_rfe no_insn (except_handle EXCEPT_SYSCALL 0 (set_spr SPR_SR SPR_SR_FO (small_cpu\<lparr>pc := 0x2000\<rparr>))) = Inr t'
     \<and> sprs t' SPR_SR = SPR_SR_FO \<and> pc (update_pc t') = 0x2004"
proof -
  define s where "s = set_spr SPR_SR SPR_SR_FO (small_cpu\<lparr>pc := 0x2000\<rparr>)"
  have s: "sprs s = (\<lambda>_. 0)(SPR_SR := SPR_SR_FO)" "pc s = 0x2000" "\<not> delay_insn s"
    by (auto simp: s_def small_cpu_def zero_cpu_def zero_board_def zero_machine_def board.defs machine.defs)
  have "sprs (except_handle EXCEPT_SYSCALL 0 s) SPR_PICMR AND sprs (except_handle EXCEPT_SYSCALL 0 s) SPR_PICSR = 0"
    using except_handle_result(1)[of s EXCEPT_SYSCALL 0] s by simp
  then show ?thesis unfolding s_def[symmetric]
    using rfe_returns[of s EXCEPT_SYSCALL "except_handle EXCEPT_SYSCALL 0 s" 0 no_insn] s
    by (auto simp: resume_address_def)
qed

text \<open>
  C3: jumps and their delay slot. \<^verbatim>\<open>l.j\<close> and \<^verbatim>\<open>l.jal\<close> go to the address of the jump
  plus four times the signed 26 bit number in the instruction. With delay slots the next instruction
  still runs, marked as one in a delay slot, and the jump takes place behind it, unless it raises an
  exception or jumps itself; \<^verbatim>\<open>l.jal\<close> leaves the address behind the delay slot in register 9.
  Without delay slots the jump takes place at once and the link is the next address.
\<close>

theorem jump_delay_slot:
  fixes s :: "'z cpu_scheme"
  assumes "jump_entry oc" and "issued oc cur s" and "\<not> next_delay_insn s"
  shows "let target = pc s + signed_take_bit 25 (insn cur) * 4; nd = spr_has s SPR_CPUCFGR SPR_CPUCFGR_ND
         in \<exists>j jal. l_j cur s = Inr j \<and> l_jal cur s = Inr jal
           \<and> reg j = reg s \<and> reg jal = (reg s)(9 := pc s + (if nd then 4 else 8))
           \<and> (\<forall>s1\<in>{j, jal}.
                if nd then pc (update_pc s1) = target \<and> \<not> delay_insn (update_pc s1)
                else pc (update_pc s1) = pcnext s \<and> delay_insn (update_pc s1)
                  \<and> (\<forall>t :: 'z cpu_scheme. pcnext t = pcnext (update_pc s1) \<and> \<not> next_delay_insn t
                       \<longrightarrow> pc (update_pc t) = target \<and> \<not> delay_insn (update_pc t)))"
proof -
  have "with_param 0 cur f s = f (signed_take_bit 25 (insn cur)) s" for f
    using jump_operand[OF assms(1,2)] by (rule with_param_Inr)
  then show ?thesis using assms(3)
    by (auto simp: l_j_def l_jal_def Let_def jump_to_def link_def setsim_reg_def)
qed

theorem jump_delay_slot_witness:
  "\<exists>j. l_j (no_insn\<lparr>insn := 0x03FFFFFE\<rparr>) jump_cpu = Inr j \<and> pc (update_pc j) = 0x2004
     \<and> pc (update_pc ((update_pc j)\<lparr>next_delay_insn := False\<rparr>)) = 0x1FF8"
proof -
  have f: "pc jump_cpu = 0x2000" "pcnext jump_cpu = 0x2004" "\<not> next_delay_insn jump_cpu" "sprs jump_cpu SPR_CPUCFGR = 0"
    "op_start jump_cpu = [0]" "op_table jump_cpu = [\<lparr>op_type = 0xD0001900, op_data = 26\<rparr>]"
    by (simp_all add: jump_cpu_def small_cpu_def zero_cpu_def zero_board_def zero_machine_def board.defs machine.defs)
  have "jump_entry l_j_entry" by (simp add: jump_entry_def insn_extract_def isalpha_def)
  moreover have "issued l_j_entry (no_insn\<lparr>insn := 0x03FFFFFE\<rparr>) jump_cpu"
    using jump_params[OF \<open>jump_entry l_j_entry\<close>] by (simp add: issued_def f no_insn_def)
  moreover have "signed_take_bit 25 (0x03FFFFFE :: u32) = - 2"
    by (simp add: signed_take_bit_def concat_bit_def mask_eq_exp_minus_1)
  ultimately obtain j where j: "l_j (no_insn\<lparr>insn := 0x03FFFFFE\<rparr>) jump_cpu = Inr j" "pc (update_pc j) = 0x2004"
    "\<forall>t :: cpu. pcnext t = pcnext (update_pc j) \<and> \<not> next_delay_insn t \<longrightarrow> pc (update_pc t) = 0x1FF8"
    using jump_delay_slot[of l_j_entry "no_insn\<lparr>insn := 0x03FFFFFE\<rparr>" jump_cpu] f
    by (auto simp: Let_def simp del: update_pc_fields)
  then show ?thesis using j(3)[rule_format, of "(update_pc j)\<lparr>next_delay_insn := False\<rparr>"] by auto
qed

end
