(* ===== verification/StoreBuffer.thy ===== *)
theory StoreBuffer
  imports Issue
begin

text \<open>
  The store buffer as a resource that is busy until some cycle: the ring of remaining cycles of
  \<^verbatim>\<open>sbuf_store\<close> and \<^verbatim>\<open>sbuf_load\<close> refines a queue of durations, and that one number.
\<close>

section \<open>The queue\<close>

definition sbuf_queue :: "'z cpu_scheme \<Rightarrow> int list" where
  "sbuf_queue s = map (\<lambda>i. sbuf_buf s ((sbuf_tail s + i) mod 256)) [0..<sbuf_count s]"

definition sbuf_wf :: "'z cpu_scheme \<Rightarrow> bool" where
  "sbuf_wf s \<longleftrightarrow> sbuf_tail s < 256 \<and> sbuf_head s = (sbuf_tail s + sbuf_count s) mod 256
     \<and> sbuf_count s \<le> sbuf_len (cfg s) \<and> sbuf_len (cfg s) \<le> 256 \<and> (\<forall>x\<in>set (sbuf_queue s). 0 \<le> x \<and> x < 2 ^ 31)"

text \<open>
  The cycle at which the last store of the buffer is complete, where \<open>p\<close> is the cycle at which the
  buffer was last brought up to date. The code keeps \<open>p\<close> in 32 bits.
\<close>

definition busy_until :: "int \<Rightarrow> 'z cpu_scheme \<Rightarrow> int" where
  "busy_until p s = p + sum_list (sbuf_queue s)"

lemma int32_id: "- (2 ^ 31) \<le> v \<Longrightarrow> v < 2 ^ 31 \<Longrightarrow> int32 v = v"
  by (simp add: int32_def signed_take_bit_int_eq_self)

lemma int32_mod: "int32 v = (v + 2 ^ 31) mod 2 ^ 32 - 2 ^ 31"
  by (simp add: int32_def signed_take_bit_eq_take_bit_shift take_bit_eq_mod)

lemma int32_arith: "int32 (int32 a + b) = int32 (a + b)" "int32 (a - int32 b) = int32 (a - b)"
proof -
  have "signed_take_bit 31 (signed_take_bit 31 a + signed_take_bit 31 b) = signed_take_bit 31 (signed_take_bit 31 (signed_take_bit 31 a) + signed_take_bit 31 b)"
    by simp
  then show "int32 (int32 a + b) = int32 (a + b)" unfolding int32_def by (simp only: signed_take_bit_add)
  have "signed_take_bit 31 (signed_take_bit 31 a - signed_take_bit 31 b) = signed_take_bit 31 (signed_take_bit 31 a - signed_take_bit 31 (signed_take_bit 31 b))"
    by simp
  then show "int32 (a - int32 b) = int32 (a - b)" unfolding int32_def by (simp only: signed_take_bit_diff)
qed

fun elapse :: "int \<Rightarrow> int list \<Rightarrow> int list" where
  "elapse d [] = []"
| "elapse d (x # xs) = (if d \<ge> x then elapse (d - x) xs else (x - d) # xs)"

lemma sum_elapse: "\<forall>x\<in>set xs. 0 \<le> x \<Longrightarrow> 0 \<le> d \<Longrightarrow> sum_list (elapse d xs) = max 0 (sum_list xs - d)"
proof (induction xs arbitrary: d)
  case (Cons x xs)
  have "0 \<le> sum_list xs" using Cons.prems by (simp add: sum_list_nonneg)
  then show ?case using Cons by auto
qed simp

lemma elapse_bounds:
  "\<forall>x\<in>set xs. 0 \<le> x \<and> x < b \<Longrightarrow> 0 \<le> d \<Longrightarrow> \<forall>x\<in>set (elapse d xs). 0 \<le> x \<and> x < b"
proof (induction xs arbitrary: d)
  case (Cons x xs)
  then have x: "0 \<le> x" "x < b" and xs: "\<forall>x\<in>set xs. 0 \<le> x \<and> x < b" by simp_all
  show ?case
  proof (cases "d \<ge> x")
    case True
    with Cons.IH[OF xs, of "d - x"] show ?thesis by simp
  next
    case False
    with x xs Cons.prems(2) show ?thesis by simp
  qed
qed simp

lemma length_elapse: "length (elapse d xs) \<le> length xs"
  by (induction xs arbitrary: d) (auto simp: le_SucI)

lemma queue_Suc:
  "sbuf_count s = Suc n \<Longrightarrow> sbuf_tail s < 256 \<Longrightarrow>
     sbuf_queue s = sbuf_buf s (sbuf_tail s) # sbuf_queue (s\<lparr>sbuf_tail := sbuf_next (sbuf_tail s), sbuf_count := n\<rparr>)"
  by (simp add: sbuf_queue_def upt_conv_Cons map_Suc_upt[symmetric] mod_simps del: upt_Suc)

lemma length_queue [simp]: "length (sbuf_queue s) = sbuf_count s"
  by (simp add: sbuf_queue_def)

lemma queue_update_tail:
  assumes "sbuf_count s = Suc n" "sbuf_count s \<le> 256" "sbuf_tail s < 256"
  shows "sbuf_queue (s\<lparr>sbuf_buf := (sbuf_buf s)(sbuf_tail s := v)\<rparr>) = v # tl (sbuf_queue s)"
proof -
  have "(Suc (sbuf_tail s + i)) mod 256 \<noteq> sbuf_tail s" if "i < n" for i
    using that assms by (cases "Suc (sbuf_tail s + i) < 256") (simp_all add: le_mod_geq)
  then show ?thesis using assms
    by (simp add: sbuf_queue_def upt_conv_Cons map_Suc_upt[symmetric] del: upt_Suc)
qed

section \<open>The operations on the queue\<close>

text \<open>What the ring operations keep.\<close>

definition same_ring :: "'z cpu_scheme \<Rightarrow> 'z cpu_scheme \<Rightarrow> bool" where
  "same_ring s t \<longleftrightarrow> sbuf_head t = sbuf_head s \<and> cfg t = cfg s \<and> cycles t = cycles s"

lemma drain_queue:
  assumes "sbuf_count s = n" "n \<le> 256" "sbuf_tail s < 256"
    and "\<forall>x\<in>set (sbuf_queue s). 0 \<le> x \<and> x < 2 ^ 31" "0 \<le> d" "d < 2 ^ 31"
  shows "sbuf_queue (sbuf_drain n d s) = elapse d (sbuf_queue s) \<and> sbuf_tail (sbuf_drain n d s) < 256
    \<and> (sbuf_tail (sbuf_drain n d s) + sbuf_count (sbuf_drain n d s)) mod 256 = (sbuf_tail s + n) mod 256
    \<and> same_ring s (sbuf_drain n d s) \<and> mem_cycles (sbuf_drain n d s) = mem_cycles s
    \<and> sbuf_prev_cycles (sbuf_drain n d s) = sbuf_prev_cycles s"
  using assms
proof (induction n arbitrary: s d)
  case 0
  then show ?case by (simp add: sbuf_queue_def same_ring_def)
next
  case (Suc n)
  let ?x = "sbuf_buf s (sbuf_tail s)"
  let ?s = "s\<lparr>sbuf_tail := sbuf_next (sbuf_tail s), sbuf_count := n\<rparr>"
  note q = queue_Suc[OF Suc.prems(1,3)]
  have x: "0 \<le> ?x" "?x < 2 ^ 31" and rest: "\<forall>x\<in>set (sbuf_queue ?s). 0 \<le> x \<and> x < 2 ^ 31"
    using Suc.prems(4) unfolding q by simp_all
  show ?case
  proof (cases "d \<ge> ?x")
    case True
    have "(Suc (sbuf_tail s) mod 256 + n) mod 256 = (sbuf_tail s + Suc n) mod 256" by (simp add: mod_simps)
    moreover have "int32 (d - ?x) = d - ?x" using True x Suc.prems(6) by (intro int32_id) simp_all
    ultimately show ?thesis
      using Suc.IH[of ?s "d - ?x"] Suc.prems True q x(1) rest by (simp add: same_ring_def)
  next
    case False
    moreover from this have "int32 (?x - d) = ?x - d" using x Suc.prems(5) by (intro int32_id) simp_all
    ultimately show ?thesis
      using Suc.prems q queue_update_tail[of s n "?x - d"] by (simp add: same_ring_def)
  qed
qed

lemma wait_queue:
  assumes "sbuf_count s = Suc n" "sbuf_tail s < 256"
  shows "sbuf_queue (sbuf_wait s) = tl (sbuf_queue s)" "sbuf_tail (sbuf_wait s) < 256"
    "mem_cycles (sbuf_wait s) = mem_cycles s + hd (sbuf_queue s)"
    "sbuf_prev_cycles s = int32 p \<Longrightarrow> sbuf_prev_cycles (sbuf_wait s) = int32 (p + hd (sbuf_queue s))"
    "(sbuf_tail (sbuf_wait s) + sbuf_count (sbuf_wait s)) mod 256 = (sbuf_tail s + sbuf_count s) mod 256"
    "same_ring s (sbuf_wait s)"
  using assms queue_Suc[OF assms]
  by (simp_all add: sbuf_wait_def same_ring_def mod_simps sbuf_queue_def int32_arith)

lemma waits_queue:
  assumes "sbuf_count s = n" "sbuf_tail s < 256" "sbuf_prev_cycles s = int32 p"
  shows "sbuf_queue ((sbuf_wait ^^ n) s) = [] \<and> sbuf_tail ((sbuf_wait ^^ n) s) < 256
    \<and> sbuf_count ((sbuf_wait ^^ n) s) = 0
    \<and> sbuf_tail ((sbuf_wait ^^ n) s) = (sbuf_tail s + n) mod 256
    \<and> mem_cycles ((sbuf_wait ^^ n) s) = mem_cycles s + sum_list (sbuf_queue s)
    \<and> sbuf_prev_cycles ((sbuf_wait ^^ n) s) = int32 (p + sum_list (sbuf_queue s))
    \<and> same_ring s ((sbuf_wait ^^ n) s)"
  using assms
proof (induction n arbitrary: s p)
  case 0
  then show ?case by (simp add: sbuf_queue_def same_ring_def)
next
  case (Suc n)
  note w = wait_queue[OF Suc.prems(1,2)]
  have c: "sbuf_count (sbuf_wait s) = n" using Suc.prems by (simp add: sbuf_wait_def)
  have t: "sbuf_tail (sbuf_wait s) = (sbuf_tail s + 1) mod 256" by (simp add: sbuf_wait_def)
  have q: "sum_list (sbuf_queue s) = hd (sbuf_queue s) + sum_list (tl (sbuf_queue s))"
    using queue_Suc[OF Suc.prems(1,2)] by simp
  show ?case using Suc.IH[OF c w(2) w(4)[OF Suc.prems(3)]] w(1,3,6) t q
    by (simp add: funpow_Suc_right same_ring_def mod_simps add.assoc del: funpow.simps)
qed

lemma push_queue:
  assumes "sbuf_head s = (sbuf_tail s + sbuf_count s) mod 256" "sbuf_count s < 256"
  shows "sbuf_queue (s\<lparr>sbuf_buf := (sbuf_buf s)(sbuf_head s := c), sbuf_head := h, sbuf_count := sbuf_count s + 1\<rparr>)
    = sbuf_queue s @ [c]"
proof -
  have "(sbuf_tail s + i) mod 256 \<noteq> (sbuf_tail s + sbuf_count s) mod 256" if "i < sbuf_count s" for i
  proof
    assume "(sbuf_tail s + i) mod 256 = (sbuf_tail s + sbuf_count s) mod 256"
    then have "256 dvd (sbuf_tail s + sbuf_count s) - (sbuf_tail s + i)"
      using that mod_eq_dvd_iff_nat[of "sbuf_tail s + i" "sbuf_tail s + sbuf_count s" 256] by simp
    then show False using that assms(2) by (auto dest: dvd_imp_le)
  qed
  then show ?thesis using assms by (auto simp: sbuf_queue_def)
qed

text \<open>The buffer brought up to the current cycle, with room made for one store.\<close>

definition settled :: "'z cpu_scheme \<Rightarrow> 'z cpu_scheme" where
  "settled s = sbuf_drain (sbuf_count s) (int32 (cycles s - sbuf_prev_cycles s)) (s\<lparr>sbuf_prev_cycles := int32 (cycles s)\<rparr>)"

definition with_room :: "'z cpu_scheme \<Rightarrow> 'z cpu_scheme" where
  "with_room s = (if sbuf_count s \<ge> sbuf_len (cfg s) then sbuf_wait s else s)"

text \<open>The buffer was last brought up to date at \<open>p\<close>, not too long ago.\<close>

definition updated_at :: "int \<Rightarrow> 'z cpu_scheme \<Rightarrow> bool" where
  "updated_at p s \<longleftrightarrow> sbuf_prev_cycles s = int32 p \<and> p \<le> cycles s \<and> cycles s - p < 2 ^ 31"

abbreviation pending_now :: "int \<Rightarrow> 'z cpu_scheme \<Rightarrow> int list" where
  "pending_now p s \<equiv> elapse (cycles s - p) (sbuf_queue s)"

lemma settled_queue:
  assumes "sbuf_wf s" "updated_at p s"
  shows "sbuf_queue (settled s) = pending_now p s" "sbuf_wf (settled s)" "cfg (settled s) = cfg s"
    "mem_cycles (settled s) = mem_cycles s" "sbuf_prev_cycles (settled s) = int32 (cycles s)"
proof -
  note wf = assms(1)[unfolded sbuf_wf_def]
  have same: "sbuf_queue (s\<lparr>sbuf_prev_cycles := x\<rparr>) = sbuf_queue s" for x by (simp add: sbuf_queue_def)
  have "int32 (cycles s - sbuf_prev_cycles s) = cycles s - p"
    using assms(2) by (simp add: updated_at_def int32_arith int32_id)
  then have drain: "settled s = sbuf_drain (sbuf_count s) (cycles s - p) (s\<lparr>sbuf_prev_cycles := int32 (cycles s)\<rparr>)"
    by (simp only: settled_def)
  have u: "sbuf_queue (settled s) = pending_now p s" "sbuf_tail (settled s) < 256"
    "sbuf_head (settled s) = (sbuf_tail (settled s) + sbuf_count (settled s)) mod 256"
    "cfg (settled s) = cfg s" "mem_cycles (settled s) = mem_cycles s" "sbuf_prev_cycles (settled s) = int32 (cycles s)"
    using drain_queue[of "s\<lparr>sbuf_prev_cycles := int32 (cycles s)\<rparr>" "sbuf_count s" "cycles s - p"] wf assms(2)
    by (simp_all add: drain same same_ring_def updated_at_def)
  then have "sbuf_count (settled s) = length (pending_now p s)" using length_queue[of "settled s"] by simp
  then have "sbuf_wf (settled s)"
    using u wf assms(2) length_elapse[of "cycles s - p" "sbuf_queue s"] elapse_bounds[of "sbuf_queue s" "2 ^ 31" "cycles s - p"]
    by (simp add: sbuf_wf_def updated_at_def)
  with u show "sbuf_queue (settled s) = pending_now p s" "sbuf_wf (settled s)" "cfg (settled s) = cfg s"
    "mem_cycles (settled s) = mem_cycles s" "sbuf_prev_cycles (settled s) = int32 (cycles s)" by simp_all
qed

lemma load_result_queue:
  assumes "sbuf_wf s" "updated_at p s"
  shows "mem_cycles (sbuf_load s) = mem_cycles s + sum_list (pending_now p s)" "sbuf_queue (sbuf_load s) = []"
    "sbuf_prev_cycles (sbuf_load s) = int32 (cycles s + sum_list (pending_now p s))" "sbuf_wf (sbuf_load s)"
proof -
  note u = settled_queue[OF assms]
  have load: "sbuf_load s = (sbuf_wait ^^ sbuf_count (settled s)) (settled s)"
    by (simp add: sbuf_load_def settled_def Let_def)
  show "mem_cycles (sbuf_load s) = mem_cycles s + sum_list (pending_now p s)" "sbuf_queue (sbuf_load s) = []"
    "sbuf_prev_cycles (sbuf_load s) = int32 (cycles s + sum_list (pending_now p s))" "sbuf_wf (sbuf_load s)"
    unfolding load using waits_queue[OF refl _ u(5)] u by (auto simp: sbuf_wf_def same_ring_def)
qed

lemma with_room_queue:
  assumes "sbuf_wf s" "0 < sbuf_len (cfg s)" "sbuf_prev_cycles s = int32 n"
  defines "full \<equiv> sbuf_len (cfg s) \<le> length (sbuf_queue s)"
  shows "sbuf_queue (with_room s) = (if full then tl (sbuf_queue s) else sbuf_queue s)"
    "mem_cycles (with_room s) = mem_cycles s + (if full then hd (sbuf_queue s) else 0)"
    "sbuf_prev_cycles (with_room s) = int32 (n + (if full then hd (sbuf_queue s) else 0))"
    "sbuf_wf (with_room s)" "cfg (with_room s) = cfg s" "sbuf_count (with_room s) < sbuf_len (cfg s)"
proof -
  note wf = assms(1)[unfolded sbuf_wf_def]
  consider k where "full" "sbuf_count s = Suc k" | "\<not> full" using assms(2) unfolding full_def by (cases "sbuf_count s") auto
  then have "sbuf_queue (with_room s) = (if full then tl (sbuf_queue s) else sbuf_queue s)
    \<and> mem_cycles (with_room s) = mem_cycles s + (if full then hd (sbuf_queue s) else 0)
    \<and> sbuf_prev_cycles (with_room s) = int32 (n + (if full then hd (sbuf_queue s) else 0))
    \<and> sbuf_wf (with_room s) \<and> cfg (with_room s) = cfg s \<and> sbuf_count (with_room s) < sbuf_len (cfg s)"
  proof cases
    case 1
    note w = wait_queue[OF 1(2)]
    have "sbuf_count (sbuf_wait s) = k" using 1 by (simp add: sbuf_wait_def)
    moreover have "set (tl (sbuf_queue s)) \<subseteq> set (sbuf_queue s)" by (cases "sbuf_queue s") auto
    then have "sbuf_wf (sbuf_wait s)"
      unfolding sbuf_wf_def using wf w(1,2,5,6) 1(2) \<open>sbuf_count (sbuf_wait s) = k\<close> by (simp add: same_ring_def subset_iff)
    ultimately show ?thesis using 1 wf w assms(3) by (simp add: with_room_def full_def same_ring_def)
  qed (use assms(1,3) in \<open>simp add: with_room_def full_def not_le\<close>)
  then show "sbuf_queue (with_room s) = (if full then tl (sbuf_queue s) else sbuf_queue s)"
    "mem_cycles (with_room s) = mem_cycles s + (if full then hd (sbuf_queue s) else 0)"
    "sbuf_prev_cycles (with_room s) = int32 (n + (if full then hd (sbuf_queue s) else 0))"
    "sbuf_wf (with_room s)" "cfg (with_room s) = cfg s" "sbuf_count (with_room s) < sbuf_len (cfg s)" by blast+
qed

lemma store_result_queue:
  assumes "sbuf_wf s" "updated_at p s" "0 < sbuf_len (cfg s)" "0 \<le> c" "c < 2 ^ 31"
  defines "full \<equiv> sbuf_len (cfg s) \<le> length (pending_now p s)"
  shows "sbuf_queue (sbuf_store c s) = (if full then tl (pending_now p s) else pending_now p s) @ [c]"
    "mem_cycles (sbuf_store c s) = mem_cycles s + (if full then hd (pending_now p s) else 0)"
    "sbuf_prev_cycles (sbuf_store c s) = int32 (cycles s + (if full then hd (pending_now p s) else 0))"
    "sbuf_wf (sbuf_store c s)"
proof -
  define v where "v = with_room (settled s)"
  note u = settled_queue[OF assms(1,2)]
  note v = with_room_queue[OF u(2), unfolded u, OF assms(3) refl, folded v_def full_def]
  have store: "sbuf_store c s = v\<lparr>sbuf_buf := (sbuf_buf v)(sbuf_head v := c),
      sbuf_head := sbuf_next (sbuf_head v), sbuf_count := sbuf_count v + 1\<rparr>"
    by (simp add: sbuf_store_def settled_def with_room_def v_def Let_def)
  have ring: "sbuf_head v = (sbuf_tail v + sbuf_count v) mod 256" "sbuf_count v < 256" using v(4-6) by (auto simp: sbuf_wf_def)
  show q: "sbuf_queue (sbuf_store c s) = (if full then tl (pending_now p s) else pending_now p s) @ [c]"
    unfolding store using push_queue[OF ring] v(1) by simp
  show "mem_cycles (sbuf_store c s) = mem_cycles s + (if full then hd (pending_now p s) else 0)"
    "sbuf_prev_cycles (sbuf_store c s) = int32 (cycles s + (if full then hd (pending_now p s) else 0))"
    unfolding store using v(2,3) by simp_all
  have "\<forall>x\<in>set (sbuf_queue (sbuf_store c s)). 0 \<le> x \<and> x < 2 ^ 31"
    using v(1,4) assms(4,5) unfolding q v(1)[symmetric] by (simp add: sbuf_wf_def)
  then show "sbuf_wf (sbuf_store c s)"
    using v(4-6) ring unfolding sbuf_wf_def store by (auto simp: mod_simps)
qed

section \<open>Properties\<close>

text \<open>
  C25: the store buffer. Seen from outside it is a resource that is busy until some cycle: a store of
  \<open>c\<close> cycles starts when the buffer is idle and keeps it busy for \<open>c\<close> more cycles, a load
  waits exactly until it is idle and finds it empty, and only a store into a full buffer waits, for the
  oldest store to complete. The ring of remaining cycles stays well formed, and the buffer is then up to
  date at the cycle at which the instruction ends. The clock may be any number of cycles, although the code
  keeps the cycle of the last update \<open>p\<close> in 32 bits, as long as the last update was less than 2^31 cycles ago.
\<close>

theorem store_buffer_refines:
  assumes "sbuf_wf s" and "0 < sbuf_len (cfg s)" and "updated_at p s" and "0 \<le> c" and "c < 2 ^ 31"
  shows "let q = elapse (cycles s - p) (sbuf_queue s); t = sbuf_store c s; l = sbuf_load s;
      t_end = cycles s + (mem_cycles t - mem_cycles s); l_end = cycles s + (mem_cycles l - mem_cycles s)
    in busy_until t_end t = max (busy_until p s) (cycles s) + c
     \<and> mem_cycles t = mem_cycles s + (if length q < sbuf_len (cfg s) then 0 else hd q)
     \<and> sbuf_wf t \<and> sbuf_prev_cycles t = int32 t_end
     \<and> mem_cycles l = mem_cycles s + max 0 (busy_until p s - cycles s)
     \<and> sbuf_queue l = [] \<and> sbuf_wf l \<and> sbuf_prev_cycles l = int32 l_end"
proof -
  have nonneg: "\<forall>x\<in>set (sbuf_queue s). 0 \<le> x" using assms(1) by (simp add: sbuf_wf_def)
  then have busy: "max 0 (busy_until p s - cycles s) = sum_list (pending_now p s)"
    using sum_elapse[of "sbuf_queue s" "cycles s - p"] assms(3) by (simp add: busy_until_def updated_at_def)
  have split: "hd (pending_now p s) + sum_list (tl (pending_now p s)) = sum_list (pending_now p s)"
    if "sbuf_len (cfg s) \<le> length (pending_now p s)" using that assms(2) by (cases "pending_now p s") auto
  show ?thesis
    using store_result_queue[OF assms(1,3,2,4,5)] load_result_queue[OF assms(1,3)] busy split
    by (auto simp: Let_def busy_until_def not_less max_def split: if_splits)
qed

theorem store_buffer_refines_witness:
  "let s = zero_cpu\<lparr>cfg := zero_config\<lparr>sbuf_len := 2\<rparr>, cycles := 2 ^ 31 + 3, sbuf_prev_cycles := - (2 ^ 31),
        sbuf_head := 1, sbuf_count := 1, sbuf_buf := (\<lambda>_. 5)\<rparr>
   in mem_cycles (sbuf_load s) = 2 \<and> busy_until (2 ^ 31 + 3) (sbuf_store 4 s) = 2 ^ 31 + 9"
proof -
  define s where "s = zero_cpu\<lparr>cfg := zero_config\<lparr>sbuf_len := 2\<rparr>, cycles := 2 ^ 31 + 3, sbuf_prev_cycles := - (2 ^ 31),
        sbuf_head := 1, sbuf_count := 1, sbuf_buf := (\<lambda>_. 5)\<rparr>"
  have f: "sbuf_tail s = 0" "sbuf_head s = 1" "sbuf_count s = 1" "sbuf_len (cfg s) = 2" "sbuf_prev_cycles s = - (2 ^ 31)"
    "cycles s = 2 ^ 31 + 3" "mem_cycles s = 0" "sbuf_queue s = [5]"
    by (simp_all add: s_def sbuf_queue_def zero_cpu_def zero_board_def zero_machine_def board.defs machine.defs)
  then have "sbuf_wf s" "updated_at (2 ^ 31) s" by (simp_all add: sbuf_wf_def updated_at_def int32_mod)
  then show ?thesis using store_buffer_refines[of s "2 ^ 31" 4] f unfolding s_def[symmetric]
    by (simp add: Let_def busy_until_def)
qed

text \<open>
  After more than 2^31 cycles without a load or a store the elapsed time looks negative, and a load waits
  for a store that was complete long ago.
\<close>

lemma sbuf_load_late:
  "let s = zero_cpu\<lparr>cfg := zero_config\<lparr>sbuf_len := 2\<rparr>, cycles := 2 ^ 31 + 10, sbuf_head := 1, sbuf_count := 1,
        sbuf_buf := (\<lambda>_. 5)\<rparr>
   in mem_cycles (sbuf_load s) = 2 ^ 31 - 5"
  by (simp add: sbuf_load_def sbuf_wait_def int32_mod zero_cpu_def zero_board_def zero_machine_def board.defs machine.defs
      Let_def)

end
