(* ===== verification/CpuConfig.thy ===== *)
theory CpuConfig
  imports Execute
begin

text \<open>
  The handlers of the \<^verbatim>\<open>cpu\<close> section of the configuration, \<^verbatim>\<open>cpu-config.c\<close>, and of
  the sections of the interrupt controller, power management and the debug unit. Warnings are output
  only; \<^verbatim>\<open>hazards\<close> is a field that nothing reads.
\<close>

abbreviation (input) SPR_VR_REV :: u32 where "SPR_VR_REV \<equiv> 0x3f"
abbreviation (input) SPR_VR_CFG :: u32 where "SPR_VR_CFG \<equiv> 0xff0000"
abbreviation (input) SPR_VR_VER :: u32 where "SPR_VR_VER \<equiv> 0xff000000"

abbreviation (input) SPR_CPUCFGR_NSGF :: u32 where "SPR_CPUCFGR_NSGF \<equiv> 0xf"
abbreviation (input) SPR_CPUCFGR_CGF :: u32 where "SPR_CPUCFGR_CGF \<equiv> 0x10"
abbreviation (input) SPR_CPUCFGR_OB32S :: u32 where "SPR_CPUCFGR_OB32S \<equiv> 0x20"
abbreviation (input) SPR_CPUCFGR_OB64S :: u32 where "SPR_CPUCFGR_OB64S \<equiv> 0x40"
abbreviation (input) SPR_CPUCFGR_OF32S :: u32 where "SPR_CPUCFGR_OF32S \<equiv> 0x80"
abbreviation (input) SPR_CPUCFGR_OF64S :: u32 where "SPR_CPUCFGR_OF64S \<equiv> 0x100"
abbreviation (input) SPR_CPUCFGR_EVBARP :: u32 where "SPR_CPUCFGR_EVBARP \<equiv> 0x1000"
abbreviation (input) SPR_CPUCFGR_ISRP :: u32 where "SPR_CPUCFGR_ISRP \<equiv> 0x2000"

definition cpu_ver :: "int \<Rightarrow> 'z machine_scheme \<Rightarrow> 'z machine_scheme" where
  "cpu_ver v s = or_spr SPR_VR (push_bit 24 (of_int v AND 0xff)) (clear_spr SPR_VR SPR_VR_VER s)"

definition cpu_cfg :: "int \<Rightarrow> 'z machine_scheme \<Rightarrow> 'z machine_scheme" where
  "cpu_cfg v s = or_spr SPR_VR (push_bit 16 (of_int v AND 0xff)) (clear_spr SPR_VR SPR_VR_CFG s)"

text \<open>The old revision is cleared with its offset, 0, instead of its mask.\<close>

definition cpu_rev :: "int \<Rightarrow> 'z machine_scheme \<Rightarrow> 'z machine_scheme" where
  "cpu_rev v s = or_spr SPR_VR (push_bit 0 (of_int v AND 0x3f)) (clear_spr SPR_VR 0 s)"

definition cpu_upr :: "int \<Rightarrow> 'z machine_scheme \<Rightarrow> 'z machine_scheme" where
  "cpu_upr v s = set_spr SPR_UPR (of_int v) s"

definition cpu_cfgr :: "int \<Rightarrow> 'z machine_scheme \<Rightarrow> 'z machine_scheme" where
  "cpu_cfgr v s =
     (let cfgr = of_int v;
          cfgr = (if cfgr AND SPR_CPUCFGR_NSGF \<noteq> 0 then cfgr AND NOT SPR_CPUCFGR_NSGF else cfgr);
          cfgr = (if cfgr AND SPR_CPUCFGR_CGF = SPR_CPUCFGR_CGF then cfgr AND NOT SPR_CPUCFGR_CGF else cfgr);
          cfgr = (if cfgr AND SPR_CPUCFGR_OB32S \<noteq> SPR_CPUCFGR_OB32S then cfgr OR SPR_CPUCFGR_OB32S else cfgr);
          cfgr = (if cfgr AND SPR_CPUCFGR_OB64S = SPR_CPUCFGR_OB64S then cfgr AND NOT SPR_CPUCFGR_OB64S else cfgr);
          cfgr = (if cfgr AND SPR_CPUCFGR_OF64S = SPR_CPUCFGR_OF64S then cfgr AND NOT SPR_CPUCFGR_OF64S else cfgr);
          cfgr = (if cfgr AND SPR_CPUCFGR_EVBARP = SPR_CPUCFGR_EVBARP then cfgr AND NOT SPR_CPUCFGR_EVBARP else cfgr);
          cfgr = (if cfgr AND SPR_CPUCFGR_ISRP = SPR_CPUCFGR_ISRP then cfgr AND NOT SPR_CPUCFGR_ISRP else cfgr)
      in set_spr SPR_CPUCFGR cfgr s)"

definition cpu_sr :: "int \<Rightarrow> 'z machine_scheme \<Rightarrow> 'z machine_scheme" where
  "cpu_sr v s = set_spr SPR_SR (of_int v) s"

definition cpu_superscalar :: "int \<Rightarrow> 'z cpu_scheme \<Rightarrow> 'z cpu_scheme" where
  "cpu_superscalar v s = s\<lparr>superscalar := (v \<noteq> 0)\<rparr>"

definition cpu_dependstats :: "int \<Rightarrow> 'z cpu_scheme \<Rightarrow> 'z cpu_scheme" where
  "cpu_dependstats v s = s\<lparr>dependstats := (v \<noteq> 0)\<rparr>"

definition cpu_sbuf_len :: "int \<Rightarrow> 'z machine_scheme \<Rightarrow> 'z machine_scheme" where
  "cpu_sbuf_len v s =
     s\<lparr>cfg := (cfg s)\<lparr>sbuf_len := (if v \<ge> int MAX_SBUF_LEN then MAX_SBUF_LEN - 1 else if v < 0 then 0 else nat v)\<rparr>\<rparr>"

text \<open>The bit of \<^verbatim>\<open>CPUCFGR\<close> is set whatever the value is.\<close>

definition cpu_hardfloat :: "int \<Rightarrow> 'z machine_scheme \<Rightarrow> 'z machine_scheme" where
  "cpu_hardfloat v s = or_spr SPR_CPUCFGR SPR_CPUCFGR_OF32S (s\<lparr>cfg := (cfg s)\<lparr>hardfloat := (v \<noteq> 0)\<rparr>\<rparr>)"

section \<open>Units of the core\<close>

abbreviation (input) SPR_UPR_DUP :: u32 where "SPR_UPR_DUP \<equiv> 0x40"

text \<open>A unit is present in \<^verbatim>\<open>UPR\<close> when it is enabled.\<close>

definition set_present :: "u32 \<Rightarrow> int \<Rightarrow> 'z machine_scheme \<Rightarrow> 'z machine_scheme" where
  "set_present m v s = (if v \<noteq> 0 then or_spr SPR_UPR m s else clear_spr SPR_UPR m s)"

definition pic_enabled_param :: "int \<Rightarrow> 'z machine_scheme \<Rightarrow> 'z machine_scheme" where
  "pic_enabled_param v s = (let s = set_present SPR_UPR_PICP v s in s\<lparr>cfg := (cfg s)\<lparr>pic_enabled := (v \<noteq> 0)\<rparr>\<rparr>)"

definition pic_edge_trigger_param :: "int \<Rightarrow> 'z machine_scheme \<Rightarrow> 'z machine_scheme" where
  "pic_edge_trigger_param v s = s\<lparr>cfg := (cfg s)\<lparr>pic_edge_trigger := (v \<noteq> 0)\<rparr>\<rparr>"

definition pic_use_nmi_param :: "int \<Rightarrow> 'z machine_scheme \<Rightarrow> 'z machine_scheme" where
  "pic_use_nmi_param v s = s\<lparr>cfg := (cfg s)\<lparr>pic_use_nmi := (v \<noteq> 0)\<rparr>\<rparr>"

definition pm_enabled_param :: "int \<Rightarrow> 'z machine_scheme \<Rightarrow> 'z machine_scheme" where
  "pm_enabled_param v s = (let s = set_present SPR_UPR_PMP v s in s\<lparr>cfg := (cfg s)\<lparr>pm_enabled := (v \<noteq> 0)\<rparr>\<rparr>)"

definition debug_enabled_param :: "int \<Rightarrow> 'z machine_scheme \<Rightarrow> 'z machine_scheme" where
  "debug_enabled_param v s = (let s = set_present SPR_UPR_DUP v s in s\<lparr>cfg := (cfg s)\<lparr>debug_enabled := (v \<noteq> 0)\<rparr>\<rparr>)"

definition debug_rsp_enabled_param :: "int \<Rightarrow> 'z machine_scheme \<Rightarrow> 'z machine_scheme" where
  "debug_rsp_enabled_param v s = s\<lparr>cfg := (cfg s)\<lparr>rsp_enabled := (v \<noteq> 0)\<rparr>\<rparr>"

section \<open>Lemmas\<close>

text \<open>Whatever its parameter, the store buffer fits its ring.\<close>

lemma cpu_sbuf_len_bound: "sbuf_len (cfg (cpu_sbuf_len v s)) < MAX_SBUF_LEN"
  by (auto simp: cpu_sbuf_len_def)

end
