(* ===== verification/Spec2Isabelle.thy ===== *)
theory Spec2Isabelle
  imports Automata_Size Operands Interrupts Mmu Memory DmaCopy Vapi Pins Products Control StoreBuffer CpuConfig
begin

text \<open>
  A verification development for Or1ksim, the architectural simulator of the OpenRISC 1000
  (\<^verbatim>\<open>src/\<close>). The simulator fetches a word, decodes it with an automaton built from the
  instruction table, and runs a C function per instruction on one processor state; loads, stores and
  fetches go through the MMUs, the debug unit's watchpoints, the performance counters and the caches
  to memory areas that belong to memory blocks, the memory controller or a peripheral; time is a cycle
  count, and a queue of jobs runs what is due (interrupt delivery, the tick timer, the peripherals).

  \<^bold>\<open>Conventions.\<close> A C function is a definition from its arguments and the state to the result
  and the new state. The state is a record that grows with the components: \<open>machine\<close> (Machine.thy),
  \<open>board\<close> (Board.thy), \<open>cpu\<close> (Cpu.thy); a function takes a scheme of the smallest record it
  needs. Registers are 32 bit words, \<^verbatim>\<open>unsigned long\<close> is 64 bits, counters and signed
  \<^verbatim>\<open>int\<close> values are integers where the code does not rely on their width; the cycles that the
  store buffer keeps in an \<^verbatim>\<open>int\<close> are cut to 32 bits (\<open>int32\<close>, Cpu.thy). What ends a function
  without a result is a \<open>fault\<close> (Prelude.thy): a call of \<^verbatim>\<open>exit\<close> or \<^verbatim>\<open>sim_done\<close>,
  a NULL dereference, undefined behaviour of C, or a loop over a cyclic list. Loops that need not end
  are partial functions into options (\<open>decode_walk\<close>, \<open>do_scheduler\<close>, \<open>wait_stalled\<close>); every
  other recursion is total. One definition has a bound: \<open>vapi_loop\<close> takes a command from a buffer of 128
  in every turn, and its bound of 128 turns is never reached (\<open>vapi_cmd_ends\<close>, Vapi.thy). Printing, logging, profiling and statistics are left out.

  \<^bold>\<open>Scheduler\<close> (Sched.thy, \<^verbatim>\<open>support/sched.c\<close>): the delta list of jobs refines a list of due
  times, stated as the interface \<open>timed_queue\<close> and interpreted on the code's operations; every
  reachable queue is well formed; the limits of the representation.

  \<^bold>\<open>Decoder\<close> (Opcodes.thy, Decode.thy, Automata_Size.thy, Operands.thy; \<^verbatim>\<open>cpu/or32/or32.c\<close>):
  the instruction table, the construction and the walk of the automaton, and the operand descriptors.
  When the automaton is built, decoding is the linear search of the table; whether it is built is decided
  by a function of the encodings alone. Issue.thy: an instruction finds its own descriptors.

  \<^bold>\<open>Core\<close> (Machine.thy, DebugUnit.thy, Except.thy, Interrupts.thy; \<^verbatim>\<open>cpu/or1k/except.c\<close>,
  \<^verbatim>\<open>debug/debug-unit.c\<close>, \<^verbatim>\<open>pic/pic.c\<close>, \<^verbatim>\<open>tick/tick.c\<close>, \<^verbatim>\<open>pcu/pcu.c\<close>,
  \<^verbatim>\<open>pm/pm.c\<close>): the whole effect of exception entry, the exceptions the debugger takes, matchpoints, chained watchpoints and
  their counters against a specification of their own, interrupt delivery, the timer's arithmetic and where
  it goes wrong.

  \<^bold>\<open>Memory management\<close> (Mmu.thy, \<^verbatim>\<open>mmu/dmmu.c\<close>, \<^verbatim>\<open>mmu/immu.c\<close>): configuration gives
  consistent masks; a translation gives the mapped page with its permissions, or the right exception, and
  keeps the replacement counters in order.

  \<^bold>\<open>Memory\<close> (Layout.thy, Board.thy, Areas.thy, Mc.thy, Memory.thy; \<^verbatim>\<open>cpu/common/abstract.c\<close>,
  \<^verbatim>\<open>peripheral/memory.c\<close>, \<^verbatim>\<open>peripheral/mc.c\<close>): bytes, halfwords and words of a block of either
  byte order, an interface \<open>byte_memory\<close> interpreted on the block accesses; the lookup of an area with
  its cache of the last one; a stored word is read back; a memory section is mapped where it says; the
  memory controller's remapping and its loss of an area at reset.

  \<^bold>\<open>Caches\<close> (Dcache.thy, Coherence.thy, Icache.thy; \<^verbatim>\<open>cache/\<close>): a coherent data cache is
  transparent for loads and stays coherent and written through for stores, for accesses of every width.
  Access.thy: the accesses of the processor through translation, watchpoints, counters and caches.
  Ports.thy: an interface \<open>memory_port\<close> of word loads and stores, interpreted on the accesses past the
  cache, through it and from the processor; every sequence of accesses behaves as on an abstract memory.

  \<^bold>\<open>Peripherals\<close> (Uart.thy, Gpio.thy, Dma.thy, DmaTransfer.thy, Devices.thy;
  \<^verbatim>\<open>peripheral/16450.c\<close>, \<^verbatim>\<open>peripheral/gpio.c\<close>, \<^verbatim>\<open>peripheral/dma.c\<close>): a device is
  a record on the board. Its registers are reached through the function pointers of its memory area, its jobs
  are run by the scheduler, which takes \<open>run_device\<close> as an argument, and its number stands for the
  pointer both carry. Queueing.thy: when the scheduler takes a job and an interrupt can be reported.
  DmaCopy.thy: a DMA transfer ends and has copied its words, over the interface \<open>memory_port\<close> of
  direct accesses. Serial.thy: frames decode, characters keep their order in both directions, and the
  interrupt identification goes stale. Vapi.thy: the loop over interface commands ends. Pins.thy: what a clock of the I/O port does to its pins.

  \<^bold>\<open>Instructions\<close> (Cpu.thy, Sprs.thy, Insn.thy, Insn2.thy; \<^verbatim>\<open>cpu/or32/execute.c\<close>,
  \<^verbatim>\<open>cpu/or32/insnset.c\<close>, \<^verbatim>\<open>cpu/or1k/sprs.c\<close>, \<^verbatim>\<open>bpb/branch-predict.c\<close>): a definition per
  instruction, in the build for simple execution, whose function bodies the default build shares.
  Arith.thy and Products.thy: sums, differences, products, the accumulator and quotients with their flags
  and range exceptions are exact; the searches for a bit. Control.thy: return from an exception, jumps and
  their delay slot. StoreBuffer.thy: the store buffer refines a resource that is busy until some cycle.

  \<^bold>\<open>Execution loop\<close> (Execute.thy, \<^verbatim>\<open>cpu/or32/execute.c\<close>; CpuConfig.thy,
  \<^verbatim>\<open>cpu-config.c\<close>): dispatch, fetch with breakpoints, program counters, clock, reset, and a turn of
  the main loop with the scheduler.

  \<^bold>\<open>Parameters.\<close> The SoftFloat library is a record of functions in the state. The values of
  \<^verbatim>\<open>random\<close> and the contents of fresh allocations are functions. The debugger and the command line
  are arguments of the main loop. The byte order of the host is a field. What a serial port reads from its
  channel is a list of results, and what it writes to the channel or the verification interface is collected.

  \<^bold>\<open>Not modelled.\<close> The other peripherals (Ethernet, ATA, keyboard, frame buffer, VGA, flash and generic
  ones), which are mostly files, sockets and images of the host; host channels, JTAG, the GDB server, the verification API, the command line, the parsers of configuration and programs,
  disassembly, traces and statistics, the generator of the default decoder (its text, not the functions
  it copies), the custom unit compiler, vendored libraries, and the test programs.
\<close>

end
